theory Spec2Isabelle
  imports Main "HOL-Library.Word"
begin

unbundle bit_operations_syntax

section \<open>Platform types\<close>

text \<open>
  The scalar types of the metafile format as libemf.h uses them: \<open>BYTE\<close> and
  \<open>CHAR\<close> are 8 bits, \<open>WORD\<close>, \<open>WCHAR\<close> and \<open>INT16\<close> are 16 bits,
  \<open>DWORD\<close>, \<open>UINT\<close>, \<open>LONG\<close> and \<open>INT\<close> (here \<open>INT32\<close>, the
  same type in basetsd.h) are 32 bits. A signed value is
  a word read with \<open>sint\<close>, an unsigned one a word read with \<open>unat\<close>. A
  \<open>FLOAT\<close> field of a record is kept as its 32-bit pattern, which is all the
  codec transfers.
\<close>

type_synonym BYTE = "8 word"
type_synonym WORD = "16 word"
type_synonym WCHAR = "16 word"
type_synonym INT16 = "16 word"
type_synonym DWORD = "32 word"
type_synonym UINT = "32 word"
type_synonym LONG = "32 word"
type_synonym INT32 = "32 word"
type_synonym FLOAT = "32 word"

text \<open>\<open>size_t\<close>, the type of every \<open>sizeof\<close> expression, on a 64-bit build.\<close>

type_synonym size_t = "64 word"

datatype POINTL = POINTL (ptl_x: LONG) (ptl_y: LONG)

datatype POINT16 = POINT16 (pts_x: INT16) (pts_y: INT16)

datatype SIZEL = SIZEL (cx: LONG) (cy: LONG)

record RECTL =
  left :: LONG
  top' :: LONG
  right :: LONG
  bottom :: LONG

record EMR =
  iType :: DWORD
  nSize :: DWORD

section \<open>Errors\<close>

text \<open>
  Every failure of the library is a \<open>std::runtime_error\<close> thrown with a
  message; the model returns it as the left summand of a result.
  \<open>bad_alloc\<close> is the failure of \<open>new\<close> on a negative element count. The
  last constructor marks executions that C++ leaves undefined (a read outside
  a caller's array, a float that does not fit the integer it is converted to),
  so that no HOL default value stands in for them.
\<close>

datatype error = runtime_error string | bad_alloc | undefined_behaviour

text \<open>The error kinds of the specification, by the messages the code throws.\<close>

definition StreamError :: "error \<Rightarrow> bool" where
  "StreamError e \<longleftrightarrow>
     e = runtime_error ''Premature EOF on EMF stream'' \<or>
     e = runtime_error ''error writing EMF stream''"

definition MalformedRecordError :: "error \<Rightarrow> bool" where
  "MalformedRecordError e \<longleftrightarrow>
     e = runtime_error ''Invalid record size'' \<or>
     e = runtime_error ''Unsigned overflow'' \<or>
     e = runtime_error ''Too few points'' \<or>
     e = runtime_error ''record size inconsistent with description size''"

definition InvalidTextSpecification :: "error \<Rightarrow> bool" where
  "InvalidTextSpecification e \<longleftrightarrow> e = runtime_error ''Invalid text specification''"

definition andThen :: "error + 'a \<Rightarrow> ('a \<Rightarrow> error + 'b) \<Rightarrow> error + 'b" where
  "andThen m f = (case m of Inl e \<Rightarrow> Inl e | Inr v \<Rightarrow> f v)"

section \<open>DATASTREAM: the byte codec\<close>

text \<open>
  A \<open>FILE\<close> is the bytes not yet read, the bytes written so far and the
  number of bytes the device still accepts. \<open>::fread\<close> and \<open>::fwrite\<close>
  transfer whole items only as far as the bytes (or the room) reach and return
  the number of complete items; the private members \<open>DATASTREAM::fread\<close>
  and \<open>DATASTREAM::fwrite\<close> wrap them and throw when that number is less
  than \<open>nmemb\<close>.
\<close>

datatype FILE = FILE (unread: "BYTE list") (written: "BYTE list") (room: nat)

datatype DATASTREAM = DATASTREAM (swap': bool) (fp': FILE)

definition fread :: "nat \<Rightarrow> nat \<Rightarrow> DATASTREAM \<Rightarrow> error + (BYTE list \<times> DATASTREAM)" where
  "fread sz nmemb ds =
     (let f = fp' ds; res = min nmemb (length (unread f) div sz) in
      if res < nmemb then Inl (runtime_error ''Premature EOF on EMF stream'')
      else Inr (take (sz * nmemb) (unread f),
                DATASTREAM (swap' ds)
                  (FILE (drop (sz * nmemb) (unread f)) (written f) (room f))))"

definition fwrite :: "BYTE list \<Rightarrow> nat \<Rightarrow> nat \<Rightarrow> DATASTREAM \<Rightarrow> error + DATASTREAM" where
  "fwrite ptr sz nmemb ds =
     (let f = fp' ds; res = min nmemb (room f div sz) in
      if res < nmemb then Inl (runtime_error ''error writing EMF stream'')
      else Inr (DATASTREAM (swap' ds)
                  (FILE (unread f) (written f @ take (sz * nmemb) ptr)
                     (room f - sz * nmemb))))"

text \<open>
  \<open>ds << a << b << c\<close>: each output operator runs on the stream the
  previous one returned; an exception ends the chain.
\<close>

fun puts :: "(DATASTREAM \<Rightarrow> error + DATASTREAM) list \<Rightarrow> DATASTREAM \<Rightarrow> error + DATASTREAM" where
  "puts [] ds = Inr ds"
| "puts (w # ws) ds = andThen (w ds) (puts ws)"

subsection \<open>Scalars in memory\<close>

text \<open>
  The operators address a scalar as the bytes \<open>p[0]\<close>, \<open>p[1]\<close>, ... of its
  object. On a little-endian host these are the bytes of the value from the
  least significant one, on a big-endian host from the most significant one.
  \<open>swap'\<close> is initialised to \<open>bigEndian()\<close>, so it tells which host the
  stream runs on.
\<close>

definition le_bytes :: "nat \<Rightarrow> 'a::len word \<Rightarrow> BYTE list" where
  "le_bytes n w = map (\<lambda>i. ucast (drop_bit (8 * i) w)) [0..<n]"

definition le_word :: "BYTE list \<Rightarrow> 'a::len word" where
  "le_word bs = foldr (\<lambda>b w. ucast b OR push_bit 8 w) bs 0"

definition host_bytes :: "bool \<Rightarrow> nat \<Rightarrow> 'a::len word \<Rightarrow> BYTE list" where
  "host_bytes big n w = (if big then rev (le_bytes n w) else le_bytes n w)"

definition host_value :: "bool \<Rightarrow> BYTE list \<Rightarrow> 'a::len word" where
  "host_value big p = (if big then le_word (rev p) else le_word p)"

subsection \<open>Primitive transfers\<close>

definition put_BYTE :: "BYTE \<Rightarrow> DATASTREAM \<Rightarrow> error + DATASTREAM" where
  "put_BYTE byte ds = fwrite [byte] 1 1 ds"

definition get_BYTE :: "DATASTREAM \<Rightarrow> error + (BYTE \<times> DATASTREAM)" where
  "get_BYTE ds = andThen (fread 1 1 ds) (\<lambda>(p, ds). Inr (hd p, ds))"

text \<open>\<open>WORD\<close> and \<open>INT16\<close> (and \<open>WCHAR\<close>, a \<open>WORD\<close>): two bytes.\<close>

definition put_WORD :: "WORD \<Rightarrow> DATASTREAM \<Rightarrow> error + DATASTREAM" where
  "put_WORD word ds =
     (if swap' ds then
        let p = host_bytes True 2 word in
        puts [fwrite [p ! 1] 1 1, fwrite [p ! 0] 1 1] ds
      else fwrite (host_bytes False 2 word) 2 1 ds)"

definition get_WORD :: "DATASTREAM \<Rightarrow> error + (WORD \<times> DATASTREAM)" where
  "get_WORD ds =
     (if swap' ds then
        andThen (fread 1 1 ds) (\<lambda>(p1, ds).
        andThen (fread 1 1 ds) (\<lambda>(p0, ds).
        Inr (host_value True (p0 @ p1), ds)))
      else andThen (fread 2 1 ds) (\<lambda>(p, ds). Inr (host_value False p, ds)))"

text \<open>
  \<open>DWORD\<close>, \<open>LONG\<close>, \<open>INT\<close>, \<open>UINT\<close> and \<open>FLOAT\<close>: four bytes,
  the same code for each of the five types.
\<close>

definition put_DWORD :: "DWORD \<Rightarrow> DATASTREAM \<Rightarrow> error + DATASTREAM" where
  "put_DWORD dword ds =
     (if swap' ds then
        let p = host_bytes True 4 dword in
        puts [fwrite [p ! 3] 1 1, fwrite [p ! 2] 1 1, fwrite [p ! 1] 1 1, fwrite [p ! 0] 1 1] ds
      else fwrite (host_bytes False 4 dword) 4 1 ds)"

definition get_DWORD :: "DATASTREAM \<Rightarrow> error + (DWORD \<times> DATASTREAM)" where
  "get_DWORD ds =
     (if swap' ds then
        andThen (fread 1 1 ds) (\<lambda>(p3, ds).
        andThen (fread 1 1 ds) (\<lambda>(p2, ds).
        andThen (fread 1 1 ds) (\<lambda>(p1, ds).
        andThen (fread 1 1 ds) (\<lambda>(p0, ds).
        Inr (host_value True (p0 @ p1 @ p2 @ p3), ds)))))
      else andThen (fread 4 1 ds) (\<lambda>(p, ds). Inr (host_value False p, ds)))"

subsection \<open>Structures and arrays\<close>

text \<open>
  A structure is transferred field by field, an array element by element. An
  array argument pairs a buffer with a count; the model reads a buffer as the
  list of its elements, and an access past its end is undefined.
\<close>

definition put_RECTL :: "RECTL \<Rightarrow> DATASTREAM \<Rightarrow> error + DATASTREAM" where
  "put_RECTL rectl ds =
     puts [put_DWORD (left rectl), put_DWORD (top' rectl),
           put_DWORD (right rectl), put_DWORD (bottom rectl)] ds"

definition get_RECTL :: "DATASTREAM \<Rightarrow> error + (RECTL \<times> DATASTREAM)" where
  "get_RECTL ds =
     andThen (get_DWORD ds) (\<lambda>(l, ds).
     andThen (get_DWORD ds) (\<lambda>(t, ds).
     andThen (get_DWORD ds) (\<lambda>(r, ds).
     andThen (get_DWORD ds) (\<lambda>(b, ds).
     Inr (\<lparr>left = l, top' = t, right = r, bottom = b\<rparr>, ds)))))"

definition put_SIZEL :: "SIZEL \<Rightarrow> DATASTREAM \<Rightarrow> error + DATASTREAM" where
  "put_SIZEL sizel ds = puts [put_DWORD (cx sizel), put_DWORD (cy sizel)] ds"

definition get_SIZEL :: "DATASTREAM \<Rightarrow> error + (SIZEL \<times> DATASTREAM)" where
  "get_SIZEL ds =
     andThen (get_DWORD ds) (\<lambda>(a, ds).
     andThen (get_DWORD ds) (\<lambda>(b, ds).
     Inr (SIZEL a b, ds)))"

definition put_EMR :: "EMR \<Rightarrow> DATASTREAM \<Rightarrow> error + DATASTREAM" where
  "put_EMR emr ds = puts [put_DWORD (iType emr), put_DWORD (nSize emr)] ds"

definition get_EMR :: "DATASTREAM \<Rightarrow> error + (EMR \<times> DATASTREAM)" where
  "get_EMR ds =
     andThen (get_DWORD ds) (\<lambda>(t, ds).
     andThen (get_DWORD ds) (\<lambda>(n, ds).
     Inr (\<lparr>iType = t, nSize = n\<rparr>, ds)))"

definition put_POINTL :: "POINTL \<Rightarrow> DATASTREAM \<Rightarrow> error + DATASTREAM" where
  "put_POINTL pointl ds = puts [put_DWORD (ptl_x pointl), put_DWORD (ptl_y pointl)] ds"

definition get_POINTL :: "DATASTREAM \<Rightarrow> error + (POINTL \<times> DATASTREAM)" where
  "get_POINTL ds =
     andThen (get_DWORD ds) (\<lambda>(a, ds).
     andThen (get_DWORD ds) (\<lambda>(b, ds).
     Inr (POINTL a b, ds)))"

definition put_POINT16 :: "POINT16 \<Rightarrow> DATASTREAM \<Rightarrow> error + DATASTREAM" where
  "put_POINT16 point ds = puts [put_WORD (pts_x point), put_WORD (pts_y point)] ds"

definition get_POINT16 :: "DATASTREAM \<Rightarrow> error + (POINT16 \<times> DATASTREAM)" where
  "get_POINT16 ds =
     andThen (get_WORD ds) (\<lambda>(a, ds).
     andThen (get_WORD ds) (\<lambda>(b, ds).
     Inr (POINT16 a b, ds)))"

text \<open>
  The loops \<open>for ( i = 0; i < n; i++ ) *this << array[i]\<close> and
  \<open>*this >> array[i]\<close> of the array operators (\<open>WCHARSTR\<close>,
  \<open>POINTLARRAY\<close>, \<open>POINT16ARRAY\<close>, \<open>INTARRAY\<close>, \<open>DWORDARRAY\<close>), over
  the element's operator. The input loop returns the buffer it has filled.
\<close>

fun put_array ::
  "('a \<Rightarrow> DATASTREAM \<Rightarrow> error + DATASTREAM) \<Rightarrow> 'a list \<Rightarrow> nat \<Rightarrow> DATASTREAM \<Rightarrow> error + DATASTREAM"
where
  "put_array put xs 0 ds = Inr ds"
| "put_array put [] (Suc n) ds = Inl undefined_behaviour"
| "put_array put (x # xs) (Suc n) ds = andThen (put x ds) (put_array put xs n)"

primrec get_array ::
  "(DATASTREAM \<Rightarrow> error + ('a \<times> DATASTREAM)) \<Rightarrow> nat \<Rightarrow> DATASTREAM \<Rightarrow> error + ('a list \<times> DATASTREAM)"
where
  "get_array get 0 ds = Inr ([], ds)"
| "get_array get (Suc n) ds =
     andThen (get ds) (\<lambda>(v, ds).
     andThen (get_array get n ds) (\<lambda>(vs, ds).
     Inr (v # vs, ds)))"

text \<open>A null pointer is a buffer without elements.\<close>

definition buffer :: "'a list option \<Rightarrow> 'a list" where
  "buffer p = (case p of None \<Rightarrow> [] | Some xs \<Rightarrow> xs)"

definition put_WCHARSTR :: "WCHAR list option \<Rightarrow> int \<Rightarrow> DATASTREAM \<Rightarrow> error + DATASTREAM" where
  "put_WCHARSTR string length' ds = put_array put_WORD (buffer string) (nat length') ds"

definition get_WCHARSTR :: "int \<Rightarrow> DATASTREAM \<Rightarrow> error + (WCHAR list \<times> DATASTREAM)" where
  "get_WCHARSTR length' ds = get_array get_WORD (nat length') ds"

definition put_DWORDARRAY :: "DWORD list option \<Rightarrow> DWORD \<Rightarrow> DATASTREAM \<Rightarrow> error + DATASTREAM" where
  "put_DWORDARRAY dwords n ds = put_array put_DWORD (buffer dwords) (unat n) ds"

definition get_DWORDARRAY :: "DWORD \<Rightarrow> DATASTREAM \<Rightarrow> error + (DWORD list \<times> DATASTREAM)" where
  "get_DWORDARRAY n ds = get_array get_DWORD (unat n) ds"

definition put_INTARRAY :: "INT32 list option \<Rightarrow> DWORD \<Rightarrow> DATASTREAM \<Rightarrow> error + DATASTREAM" where
  "put_INTARRAY ints n ds = put_array put_DWORD (buffer ints) (unat n) ds"

definition get_INTARRAY :: "DWORD \<Rightarrow> DATASTREAM \<Rightarrow> error + (INT32 list \<times> DATASTREAM)" where
  "get_INTARRAY n ds = get_array get_DWORD (unat n) ds"

definition put_POINTLARRAY :: "POINTL list option \<Rightarrow> DWORD \<Rightarrow> DATASTREAM \<Rightarrow> error + DATASTREAM" where
  "put_POINTLARRAY points n ds = put_array put_POINTL (buffer points) (unat n) ds"

definition get_POINTLARRAY :: "DWORD \<Rightarrow> DATASTREAM \<Rightarrow> error + (POINTL list \<times> DATASTREAM)" where
  "get_POINTLARRAY n ds = get_array get_POINTL (unat n) ds"

definition put_POINT16ARRAY :: "POINT16 list option \<Rightarrow> DWORD \<Rightarrow> DATASTREAM \<Rightarrow> error + DATASTREAM" where
  "put_POINT16ARRAY points n ds = put_array put_POINT16 (buffer points) (unat n) ds"

definition get_POINT16ARRAY :: "DWORD \<Rightarrow> DATASTREAM \<Rightarrow> error + (POINT16 list \<times> DATASTREAM)" where
  "get_POINT16ARRAY n ds = get_array get_POINT16 (unat n) ds"

text \<open>
  \<open>CHARSTR\<close> and \<open>BYTEARRAY\<close> are moved by one call of \<open>fwrite\<close> or
  \<open>fread\<close> for the whole array.
\<close>

definition put_CHARSTR :: "BYTE list option \<Rightarrow> nat \<Rightarrow> DATASTREAM \<Rightarrow> error + DATASTREAM" where
  "put_CHARSTR string length' ds =
     (if length (buffer string) < length' then Inl undefined_behaviour
      else fwrite (buffer string) 1 length' ds)"

definition get_CHARSTR :: "nat \<Rightarrow> DATASTREAM \<Rightarrow> error + (BYTE list \<times> DATASTREAM)" where
  "get_CHARSTR length' ds = fread 1 length' ds"

text \<open>Rounds up a byte count to a multiple of four bytes.\<close>

definition ROUND_TO_LONG :: "DWORD \<Rightarrow> DWORD" where
  "ROUND_TO_LONG n = ((n + 3) div 4) * 4"

section \<open>The header record\<close>

text \<open>
  The fields of \<open>::ENHMETAHEADER\<close> in the order in which
  \<open>ENHMETAHEADER::serialize\<close> writes them, followed by the two members the
  class adds: the description buffer (\<open>None\<close> is the null pointer) and its
  length in code units. The structure itself is declared in wingdi.h, which is
  not part of the sources at hand; its layout is the one of the external
  format: every field is 32 bits wide except \<open>nHandles\<close> and
  \<open>sReserved\<close>, which are 16-bit \<open>WORD\<close>s, so that the structure is 108
  bytes long, the pixel-format triple starts at offset 88 and
  \<open>szlMicrometers\<close> at offset 100.
\<close>

record ENHMETAHEADER =
  hdr_iType :: DWORD
  hdr_nSize :: DWORD
  rclBounds :: RECTL
  rclFrame :: RECTL
  dSignature :: DWORD
  nVersion :: DWORD
  nBytes :: DWORD
  nRecords :: DWORD
  nHandles :: WORD
  sReserved :: WORD
  nDescription :: DWORD
  offDescription :: DWORD
  nPalEntries :: DWORD
  szlDevice :: SIZEL
  szlMillimeters :: SIZEL
  cbPixelFormat :: DWORD
  offPixelFormat :: DWORD
  bOpenGL :: DWORD
  szlMicrometers :: SIZEL
  description_w :: "WCHAR list option"
  description_size :: int


text \<open>
  Modelled from the spec: the constants below are defined in wingdi.h, which
  is not among the sources; they are the record-type tags, the signature and
  the structure sizes of the external format the spec calls bit-exact. A
  structure's size is the sum of its fields, packed to 4 bytes;
  \<open>::EMRPOLYPOLYGON\<close> and \<open>::EMRPOLYPOLYGON16\<close> end in one placeholder
  count and one placeholder point, which are never written.
\<close>

definition EMR_HEADER :: DWORD where "EMR_HEADER = 1"
definition EMR_POLYPOLYGON :: DWORD where "EMR_POLYPOLYGON = 8"
definition EMR_EOF :: DWORD where "EMR_EOF = 14"
definition EMR_EXTTEXTOUTA :: DWORD where "EMR_EXTTEXTOUTA = 83"
definition EMR_POLYPOLYGON16 :: DWORD where "EMR_POLYPOLYGON16 = 91"
definition ENHMETA_SIGNATURE :: DWORD where "ENHMETA_SIGNATURE = 0x464D4520"

definition sizeof_ENHMETAHEADER :: size_t where "sizeof_ENHMETAHEADER = 108"
definition OffsetOf_szlMicrometers :: DWORD where "OffsetOf_szlMicrometers = 100"
definition sizeof_EMREOF :: size_t where "sizeof_EMREOF = 20"
definition sizeof_EMRPOLYPOLYGON :: size_t where "sizeof_EMRPOLYPOLYGON = 44"
definition sizeof_EMRPOLYPOLYGON16 :: size_t where "sizeof_EMRPOLYPOLYGON16 = 40"
definition sizeof_EMREXTTEXTOUTA :: size_t where "sizeof_EMREXTTEXTOUTA = 76"
definition sizeof_POINTL :: size_t where "sizeof_POINTL = 8"
definition sizeof_POINT16 :: size_t where "sizeof_POINT16 = 4"
definition sizeof_DWORD :: size_t where "sizeof_DWORD = 4"
definition sizeof_WCHAR :: size_t where "sizeof_WCHAR = 2"

text \<open>The resolution and the physical size of the reference device.\<close>

definition XMAX_PIXELS :: LONG where "XMAX_PIXELS = 1024"
definition YMAX_PIXELS :: LONG where "YMAX_PIXELS = 768"
definition XMAX_MM :: LONG where "XMAX_MM = 320"
definition YMAX_MM :: LONG where "YMAX_MM = 240"

subsection \<open>Construction\<close>

text \<open>
  The loop that counts the code units of a description: it stops behind the
  third NUL it meets. \<open>None\<close>: the caller's string ends before a third NUL
  and the loop reads past it.
\<close>

fun description_count :: "WCHAR list \<Rightarrow> nat \<Rightarrow> nat \<Rightarrow> nat option" where
  "description_count [] count nulls = (if nulls < 3 then None else Some count)"
| "description_count (c # p) count nulls =
     (if nulls < 3 then description_count p (Suc count) (if c = 0 then Suc nulls else nulls)
      else Some count)"

definition default_ENHMETAHEADER :: ENHMETAHEADER where
  "default_ENHMETAHEADER =
     \<lparr>hdr_iType = EMR_HEADER,
      hdr_nSize = ucast sizeof_ENHMETAHEADER,
      rclBounds = \<lparr>left = 0, top' = 0, right = 0, bottom = 0\<rparr>,
      rclFrame = \<lparr>left = 0, top' = 0, right = 0, bottom = 0\<rparr>,
      dSignature = ENHMETA_SIGNATURE,
      nVersion = 0x10000,
      nBytes = ucast sizeof_ENHMETAHEADER,
      nRecords = 1,
      nHandles = 0,
      sReserved = 0,
      nDescription = 0,
      offDescription = 0,
      nPalEntries = 0,
      szlDevice = SIZEL XMAX_PIXELS YMAX_PIXELS,
      szlMillimeters = SIZEL XMAX_MM YMAX_MM,
      cbPixelFormat = 0,
      offPixelFormat = 0,
      bOpenGL = 0,
      szlMicrometers = SIZEL (1000 * XMAX_MM) (1000 * YMAX_MM),
      description_w = None,
      description_size = 0\<rparr>"

text \<open>
  \<open>ENHMETAHEADER ( LPCWSTR description = 0 )\<close>. \<open>record_size\<close> is an
  \<open>int\<close> that receives a \<open>DWORD\<close>; \<open>description_size\<close> is computed in
  \<open>size_t\<close> and stored in an \<open>int\<close>. The buffer is zeroed and then
  receives \<open>description_count\<close> code units; it is undefined when it is
  shorter than that.
\<close>

definition new_ENHMETAHEADER :: "WCHAR list option \<Rightarrow> error + ENHMETAHEADER" where
  "new_ENHMETAHEADER description =
     (case description of
        None \<Rightarrow> Inr default_ENHMETAHEADER
      | Some d \<Rightarrow>
          (case description_count d 0 0 of
             None \<Rightarrow> Inl undefined_behaviour
           | Some count \<Rightarrow>
               let record_size :: INT32 =
                     ROUND_TO_LONG (ucast (sizeof_ENHMETAHEADER + sizeof_WCHAR * of_nat count));
                   dsize :: INT32 =
                     ucast ((scast record_size - sizeof_ENHMETAHEADER) div sizeof_WCHAR)
               in if sint dsize < int count then Inl undefined_behaviour
                  else Inr (default_ENHMETAHEADER
                    \<lparr>description_size := sint dsize,
                     description_w := Some (take count d @ replicate (nat (sint dsize) - count) 0),
                     hdr_nSize := record_size,
                     nBytes := record_size,
                     nDescription := of_nat count,
                     offDescription := ucast sizeof_ENHMETAHEADER\<rparr>)))"

subsection \<open>Serialising and parsing\<close>

definition serialize_ENHMETAHEADER :: "ENHMETAHEADER \<Rightarrow> DATASTREAM \<Rightarrow> error + DATASTREAM" where
  "serialize_ENHMETAHEADER h ds =
     puts [put_DWORD (hdr_iType h), put_DWORD (hdr_nSize h),
           put_RECTL (rclBounds h), put_RECTL (rclFrame h),
           put_DWORD (dSignature h), put_DWORD (nVersion h), put_DWORD (nBytes h),
           put_DWORD (nRecords h), put_WORD (nHandles h), put_WORD (sReserved h),
           put_DWORD (nDescription h), put_DWORD (offDescription h), put_DWORD (nPalEntries h),
           put_SIZEL (szlDevice h), put_SIZEL (szlMillimeters h),
           put_DWORD (cbPixelFormat h), put_DWORD (offPixelFormat h), put_DWORD (bOpenGL h),
           put_SIZEL (szlMicrometers h),
           put_WCHARSTR (description_w h) (description_size h)] ds"

text \<open>
  \<open>unserialize\<close> fills the object it is called on: a field that is not read
  keeps the value it had. The pixel-format triple is read when the offset of
  \<open>szlMicrometers\<close> is at most \<open>offDescription\<close>, \<open>szlMicrometers\<close>
  when the size of the structure is. The buffer has \<open>max( 2, n )\<close> elements
  for the \<open>n\<close> code units read, and its last two elements are set to 0
  afterwards, so that none is left uninitialised.
\<close>

definition unserialize_description ::
  "ENHMETAHEADER \<Rightarrow> DATASTREAM \<Rightarrow> error + (ENHMETAHEADER \<times> DATASTREAM)" where
  "unserialize_description h ds =
     (let description_size_to_read :: INT32 =
            ucast ((ucast (hdr_nSize h - offDescription h) :: size_t) div sizeof_WCHAR)
      in if sint description_size_to_read < sint (nDescription h)
         then Inl (runtime_error ''record size inconsistent with description size'')
         else
           let dsize = max 2 (sint description_size_to_read) in
           andThen (get_WCHARSTR (sint description_size_to_read) ds) (\<lambda>(read, ds).
             let buf = read @ replicate (nat dsize - length read) 0;
                 buf = buf[nat (dsize - 1) := 0];
                 buf = buf[nat (dsize - 2) := 0]
             in Inr (h\<lparr>description_size := dsize, description_w := Some buf\<rparr>, ds)))"

definition unserialize_ENHMETAHEADER ::
  "ENHMETAHEADER \<Rightarrow> DATASTREAM \<Rightarrow> error + (ENHMETAHEADER \<times> DATASTREAM)" where
  "unserialize_ENHMETAHEADER h ds =
     andThen (get_DWORD ds) (\<lambda>(v, ds). let h = h\<lparr>hdr_iType := v\<rparr> in
     andThen (get_DWORD ds) (\<lambda>(v, ds). let h = h\<lparr>hdr_nSize := v\<rparr> in
     andThen (get_RECTL ds) (\<lambda>(v, ds). let h = h\<lparr>rclBounds := v\<rparr> in
     andThen (get_RECTL ds) (\<lambda>(v, ds). let h = h\<lparr>rclFrame := v\<rparr> in
     andThen (get_DWORD ds) (\<lambda>(v, ds). let h = h\<lparr>dSignature := v\<rparr> in
     andThen (get_DWORD ds) (\<lambda>(v, ds). let h = h\<lparr>nVersion := v\<rparr> in
     andThen (get_DWORD ds) (\<lambda>(v, ds). let h = h\<lparr>nBytes := v\<rparr> in
     andThen (get_DWORD ds) (\<lambda>(v, ds). let h = h\<lparr>nRecords := v\<rparr> in
     andThen (get_WORD ds) (\<lambda>(v, ds). let h = h\<lparr>nHandles := v\<rparr> in
     andThen (get_WORD ds) (\<lambda>(v, ds). let h = h\<lparr>sReserved := v\<rparr> in
     andThen (get_DWORD ds) (\<lambda>(v, ds). let h = h\<lparr>nDescription := v\<rparr> in
     andThen (get_DWORD ds) (\<lambda>(v, ds). let h = h\<lparr>offDescription := v\<rparr> in
     andThen (get_DWORD ds) (\<lambda>(v, ds). let h = h\<lparr>nPalEntries := v\<rparr> in
     andThen (get_SIZEL ds) (\<lambda>(v, ds). let h = h\<lparr>szlDevice := v\<rparr> in
     andThen (get_SIZEL ds) (\<lambda>(v, ds). let h = h\<lparr>szlMillimeters := v\<rparr> in
     andThen
       (if OffsetOf_szlMicrometers \<le> offDescription h then
          andThen (get_DWORD ds) (\<lambda>(v, ds). let h = h\<lparr>cbPixelFormat := v\<rparr> in
          andThen (get_DWORD ds) (\<lambda>(v, ds). let h = h\<lparr>offPixelFormat := v\<rparr> in
          andThen (get_DWORD ds) (\<lambda>(v, ds). let h = h\<lparr>bOpenGL := v\<rparr> in
          Inr (h, ds))))
        else Inr (h, ds)) (\<lambda>(h, ds).
     andThen
       (if sizeof_ENHMETAHEADER \<le> ucast (offDescription h) then
          andThen (get_SIZEL ds) (\<lambda>(v, ds). Inr (h\<lparr>szlMicrometers := v\<rparr>, ds))
        else Inr (h, ds)) (\<lambda>(h, ds).
     unserialize_description h ds)))))))))))))))))"

section \<open>The end-of-file record\<close>

record EMREOF =
  eof_emr :: EMR
  eof_nPalEntries :: DWORD
  offPalEntries :: DWORD
  nSizeLast :: DWORD

definition new_EMREOF :: EMREOF where
  "new_EMREOF =
     \<lparr>eof_emr = \<lparr>iType = EMR_EOF, nSize = ucast sizeof_EMREOF\<rparr>,
      eof_nPalEntries = 0, offPalEntries = 0, nSizeLast = 0\<rparr>"

definition read_EMREOF :: "DATASTREAM \<Rightarrow> error + (EMREOF \<times> DATASTREAM)" where
  "read_EMREOF ds =
     andThen (get_EMR ds) (\<lambda>(e, ds).
     andThen (get_DWORD ds) (\<lambda>(n, ds).
     andThen (get_DWORD ds) (\<lambda>(off, ds).
     andThen (get_DWORD ds) (\<lambda>(l, ds).
     Inr (\<lparr>eof_emr = e, eof_nPalEntries = n, offPalEntries = off, nSizeLast = l\<rparr>, ds)))))"

definition serialize_EMREOF :: "EMREOF \<Rightarrow> DATASTREAM \<Rightarrow> error + DATASTREAM" where
  "serialize_EMREOF r ds =
     puts [put_EMR (eof_emr r), put_DWORD (eof_nPalEntries r),
           put_DWORD (offPalEntries r), put_DWORD (nSizeLast r)] ds"

section \<open>The poly-polygon records\<close>

text \<open>
  The placeholder members \<open>aPolyCounts[0]\<close> and \<open>aptl[0]\<close> of the
  structure are set to 0 and never transferred; the records keep their counts
  and points in the buffers \<open>lcounts\<close> and \<open>lpoints\<close>.
\<close>

record EMRPOLYPOLYGON =
  pp_emr :: EMR
  pp_rclBounds :: RECTL
  nPolys :: DWORD
  cptl :: DWORD
  lcounts :: "DWORD list option"
  lpoints :: "POINTL list option"

record EMRPOLYPOLYGON16 =
  pp16_emr :: EMR
  pp16_rclBounds :: RECTL
  nPolys16 :: DWORD
  cpts :: DWORD
  lcounts16 :: "DWORD list option"
  lpoints16 :: "POINT16 list option"

text \<open>
  The constructors sum the caller's counts in an \<open>int\<close>:
  \<open>for ( i = 0; i < nPolys; i++ ) n += counts[i]\<close>. The sum is undefined
  when the array is shorter than \<open>nPolys\<close> or the addition overflows.
\<close>

fun count_points :: "INT32 list \<Rightarrow> nat \<Rightarrow> int \<Rightarrow> int option" where
  "count_points counts 0 n = Some n"
| "count_points [] (Suc k) n = None"
| "count_points (c # counts) (Suc k) n =
     (let n' = n + sint c in
      if n' < - (2 ^ 31) \<or> 2 ^ 31 \<le> n' then None else count_points counts k n')"

text \<open>
  \<open>EMRPOLYPOLYGON ( bounds, points, counts, polygons )\<close>. The size is
  computed in \<open>size_t\<close> from \<open>cptl - 1\<close> and \<open>nPolys - 1\<close>, which are
  \<open>DWORD\<close> differences, and stored in a \<open>DWORD\<close>. A negative sum of
  counts makes \<open>cptl\<close> a count of more than \<open>2 ^ 31\<close> points that are
  allocated and never initialised; the model does not follow the constructor
  there, nor where it would read past the end of \<open>points\<close>.
\<close>

definition new_EMRPOLYPOLYGON ::
  "RECTL \<Rightarrow> POINTL list \<Rightarrow> INT32 list \<Rightarrow> UINT \<Rightarrow> error + EMRPOLYPOLYGON" where
  "new_EMRPOLYPOLYGON bounds points counts polygons =
     (case count_points counts (unat polygons) 0 of
        None \<Rightarrow> Inl undefined_behaviour
      | Some n \<Rightarrow>
          if n < 0 \<or> int (length points) < n then Inl undefined_behaviour
          else
            let c :: DWORD = word_of_int n in
            Inr \<lparr>pp_emr =
                   \<lparr>iType = EMR_POLYPOLYGON,
                    nSize = ucast (sizeof_EMRPOLYPOLYGON + sizeof_POINTL * ucast (c - 1)
                                   + sizeof_DWORD * ucast (polygons - 1))\<rparr>,
                 pp_rclBounds = bounds,
                 nPolys = polygons,
                 cptl = c,
                 lcounts = Some (take (unat polygons) counts),
                 lpoints = Some (take (nat n) points)\<rparr>)"

text \<open>
  The constructor from 32-bit points narrows each coordinate to 16 bits; the
  one from \<open>POINT16\<close> takes the number of polygons as a \<open>UINT16\<close>.
\<close>

definition new_EMRPOLYPOLYGON16 ::
  "RECTL \<Rightarrow> POINTL list \<Rightarrow> INT32 list \<Rightarrow> UINT \<Rightarrow> error + EMRPOLYPOLYGON16" where
  "new_EMRPOLYPOLYGON16 bounds points counts polygons =
     (case count_points counts (unat polygons) 0 of
        None \<Rightarrow> Inl undefined_behaviour
      | Some n \<Rightarrow>
          if n < 0 \<or> int (length points) < n then Inl undefined_behaviour
          else
            let c :: DWORD = word_of_int n in
            Inr \<lparr>pp16_emr =
                   \<lparr>iType = EMR_POLYPOLYGON16,
                    nSize = ucast (sizeof_EMRPOLYPOLYGON16 + sizeof_POINT16 * ucast (c - 1)
                                   + sizeof_DWORD * ucast (polygons - 1))\<rparr>,
                 pp16_rclBounds = bounds,
                 nPolys16 = polygons,
                 cpts = c,
                 lcounts16 = Some (take (unat polygons) counts),
                 lpoints16 =
                   Some (map (\<lambda>p. POINT16 (ucast (ptl_x p)) (ucast (ptl_y p)))
                           (take (nat n) points))\<rparr>)"

definition new_EMRPOLYPOLYGON16_16 ::
  "RECTL \<Rightarrow> POINT16 list \<Rightarrow> INT32 list \<Rightarrow> WORD \<Rightarrow> error + EMRPOLYPOLYGON16" where
  "new_EMRPOLYPOLYGON16_16 bounds points counts polygons =
     (case count_points counts (unat polygons) 0 of
        None \<Rightarrow> Inl undefined_behaviour
      | Some n \<Rightarrow>
          if n < 0 \<or> int (length points) < n then Inl undefined_behaviour
          else
            let c :: DWORD = word_of_int n; np :: DWORD = ucast polygons in
            Inr \<lparr>pp16_emr =
                   \<lparr>iType = EMR_POLYPOLYGON16,
                    nSize = ucast (sizeof_EMRPOLYPOLYGON16 + sizeof_POINT16 * ucast (c - 1)
                                   + sizeof_DWORD * ucast (np - 1))\<rparr>,
                 pp16_rclBounds = bounds,
                 nPolys16 = np,
                 cpts = c,
                 lcounts16 = Some (take (unat polygons) counts),
                 lpoints16 = Some (take (nat n) points)\<rparr>)"

text \<open>
  The loop of the stream constructors over the counts they have read:
  \<open>n_old = n; n += cbuffer[c]; if ( n < n_old ) throw\<close>.
\<close>

fun sum_counts :: "DWORD list \<Rightarrow> DWORD \<Rightarrow> error + DWORD" where
  "sum_counts [] n = Inr n"
| "sum_counts (c # cbuffer) n =
     (let n_old = n; n = n + c in
      if n < n_old then Inl (runtime_error ''Unsigned overflow'')
      else sum_counts cbuffer n)"

text \<open>
  \<open>EMRPOLYPOLYGON ( DATASTREAM& ds )\<close>. The size check is an unsigned
  comparison in \<open>size_t\<close>. The buffers become \<open>lcounts\<close> and
  \<open>lpoints\<close> only at the end; a constructor that throws leaves no record.
  Allocation itself is taken to succeed.
\<close>

definition read_EMRPOLYPOLYGON :: "DATASTREAM \<Rightarrow> error + (EMRPOLYPOLYGON \<times> DATASTREAM)" where
  "read_EMRPOLYPOLYGON ds =
     andThen (get_EMR ds) (\<lambda>(e, ds).
     andThen (get_RECTL ds) (\<lambda>(b, ds).
     andThen (get_DWORD ds) (\<lambda>(np, ds).
     andThen (get_DWORD ds) (\<lambda>(c, ds).
       if ucast (nSize e) - (sizeof_EMRPOLYPOLYGON - sizeof_POINTL - sizeof_DWORD)
            < sizeof_POINTL * ucast c + sizeof_DWORD * ucast np
       then Inl (runtime_error ''Invalid record size'')
       else
         andThen (get_DWORDARRAY np ds) (\<lambda>(cbuffer, ds).
         andThen (sum_counts cbuffer 0) (\<lambda>n.
           if c < n then Inl (runtime_error ''Too few points'')
           else
             andThen (get_POINTLARRAY c ds) (\<lambda>(pbuffer, ds).
             Inr (\<lparr>pp_emr = e, pp_rclBounds = b, nPolys = np, cptl = c,
                   lcounts = Some cbuffer, lpoints = Some pbuffer\<rparr>, ds))))))))"

definition serialize_EMRPOLYPOLYGON :: "EMRPOLYPOLYGON \<Rightarrow> DATASTREAM \<Rightarrow> error + DATASTREAM" where
  "serialize_EMRPOLYPOLYGON r ds =
     puts [put_EMR (pp_emr r), put_RECTL (pp_rclBounds r), put_DWORD (nPolys r),
           put_DWORD (cptl r), put_DWORDARRAY (lcounts r) (nPolys r),
           put_POINTLARRAY (lpoints r) (cptl r)] ds"

definition read_EMRPOLYPOLYGON16 :: "DATASTREAM \<Rightarrow> error + (EMRPOLYPOLYGON16 \<times> DATASTREAM)" where
  "read_EMRPOLYPOLYGON16 ds =
     andThen (get_EMR ds) (\<lambda>(e, ds).
     andThen (get_RECTL ds) (\<lambda>(b, ds).
     andThen (get_DWORD ds) (\<lambda>(np, ds).
     andThen (get_DWORD ds) (\<lambda>(c, ds).
       if ucast (nSize e) - (sizeof_EMRPOLYPOLYGON16 - sizeof_POINT16 - sizeof_DWORD)
            < sizeof_POINT16 * ucast c + sizeof_DWORD * ucast np
       then Inl (runtime_error ''Invalid record size'')
       else
         andThen (get_DWORDARRAY np ds) (\<lambda>(cbuffer, ds).
         andThen (sum_counts cbuffer 0) (\<lambda>n.
           if c < n then Inl (runtime_error ''Too few points'')
           else
             andThen (get_POINT16ARRAY c ds) (\<lambda>(pbuffer, ds).
             Inr (\<lparr>pp16_emr = e, pp16_rclBounds = b, nPolys16 = np, cpts = c,
                   lcounts16 = Some cbuffer, lpoints16 = Some pbuffer\<rparr>, ds))))))))"

definition serialize_EMRPOLYPOLYGON16 :: "EMRPOLYPOLYGON16 \<Rightarrow> DATASTREAM \<Rightarrow> error + DATASTREAM" where
  "serialize_EMRPOLYPOLYGON16 r ds =
     puts [put_EMR (pp16_emr r), put_RECTL (pp16_rclBounds r), put_DWORD (nPolys16 r),
           put_DWORD (cpts r), put_DWORDARRAY (lcounts16 r) (nPolys16 r),
           put_POINT16ARRAY (lpoints16 r) (cpts r)] ds"

section \<open>The extended text output record\<close>

record EMRTEXT =
  ptlReference :: POINTL
  nChars :: DWORD
  offString :: DWORD
  fOptions :: DWORD
  rcl :: RECTL
  offDx :: DWORD

definition put_EMRTEXT :: "EMRTEXT \<Rightarrow> DATASTREAM \<Rightarrow> error + DATASTREAM" where
  "put_EMRTEXT text ds =
     puts [put_POINTL (ptlReference text), put_DWORD (nChars text), put_DWORD (offString text),
           put_DWORD (fOptions text), put_RECTL (rcl text), put_DWORD (offDx text)] ds"

definition get_EMRTEXT :: "DATASTREAM \<Rightarrow> error + (EMRTEXT \<times> DATASTREAM)" where
  "get_EMRTEXT ds =
     andThen (get_POINTL ds) (\<lambda>(p, ds).
     andThen (get_DWORD ds) (\<lambda>(n, ds).
     andThen (get_DWORD ds) (\<lambda>(os, ds).
     andThen (get_DWORD ds) (\<lambda>(fo, ds).
     andThen (get_RECTL ds) (\<lambda>(r, ds).
     andThen (get_DWORD ds) (\<lambda>(od, ds).
     Inr (\<lparr>ptlReference = p, nChars = n, offString = os, fOptions = fo, rcl = r, offDx = od\<rparr>,
          ds)))))))"

text \<open>
  \<open>string_size\<close> is an \<open>int\<close> without initialiser: \<open>None\<close> is the
  indeterminate value it has when the stream constructor does not assign it.
\<close>

record EMREXTTEXTOUTA =
  txt_emr :: EMR
  txt_rclBounds :: RECTL
  iGraphicsMode :: DWORD
  exScale :: FLOAT
  eyScale :: FLOAT
  emrtext :: EMRTEXT
  string_a :: "BYTE list option"
  string_size :: "int option"
  dx_i :: "INT32 list option"

text \<open>
  \<open>EMREXTTEXTOUTA ( bounds, graphicsMode, xScale, yScale, text, string, dx )\<close>.
  The string buffer has \<open>ROUND_TO_LONG( nChars )\<close> zeroed bytes and receives
  \<open>nChars\<close> characters; \<open>dx\<close> may be null.
\<close>

definition new_EMREXTTEXTOUTA ::
  "RECTL \<Rightarrow> DWORD \<Rightarrow> FLOAT \<Rightarrow> FLOAT \<Rightarrow> EMRTEXT \<Rightarrow> BYTE list \<Rightarrow> INT32 list option
     \<Rightarrow> error + EMREXTTEXTOUTA" where
  "new_EMREXTTEXTOUTA bounds graphicsMode xScale yScale text string dx =
     (let n = unat (nChars text);
          ssize :: INT32 = ROUND_TO_LONG (nChars text)
      in if sint ssize < 0 then Inl bad_alloc
         else if sint ssize < int n \<or> length string < n then Inl undefined_behaviour
         else
           let size0 :: DWORD = ucast sizeof_EMREXTTEXTOUTA;
               size1 :: DWORD = size0 + ssize
           in case dx of
                None \<Rightarrow>
                  Inr \<lparr>txt_emr = \<lparr>iType = EMR_EXTTEXTOUTA, nSize = size1\<rparr>,
                       txt_rclBounds = bounds, iGraphicsMode = graphicsMode,
                       exScale = xScale, eyScale = yScale,
                       emrtext = text\<lparr>offString := size0, offDx := 0\<rparr>,
                       string_a = Some (take n string @ replicate (nat (sint ssize) - n) 0),
                       string_size = Some (sint ssize),
                       dx_i = None\<rparr>
              | Some d \<Rightarrow>
                  if length d < n then Inl undefined_behaviour
                  else
                    Inr \<lparr>txt_emr = \<lparr>iType = EMR_EXTTEXTOUTA, nSize = size1 + nChars text * 4\<rparr>,
                         txt_rclBounds = bounds, iGraphicsMode = graphicsMode,
                         exScale = xScale, eyScale = yScale,
                         emrtext = text\<lparr>offString := size0, offDx := size1\<rparr>,
                         string_a = Some (take n string @ replicate (nat (sint ssize) - n) 0),
                         string_size = Some (sint ssize),
                         dx_i = Some (take n d)\<rparr>)"

text \<open>
  \<open>EMREXTTEXTOUTA ( DATASTREAM& ds )\<close>. Both checks are on \<open>DWORD\<close>s;
  the difference \<open>emr.nSize - emrtext.offString\<close> is unsigned. The buffers
  become \<open>string_a\<close> and \<open>dx_i\<close> at the end.
\<close>

definition read_EMREXTTEXTOUTA :: "DATASTREAM \<Rightarrow> error + (EMREXTTEXTOUTA \<times> DATASTREAM)" where
  "read_EMREXTTEXTOUTA ds =
     andThen (get_EMR ds) (\<lambda>(e, ds).
     andThen (get_RECTL ds) (\<lambda>(b, ds).
     andThen (get_DWORD ds) (\<lambda>(gm, ds).
     andThen (get_DWORD ds) (\<lambda>(xs, ds).
     andThen (get_DWORD ds) (\<lambda>(ys, ds).
     andThen (get_EMRTEXT ds) (\<lambda>(text, ds).
       if 0 < nChars text \<and> offString text = 0
       then Inl (runtime_error ''Invalid text specification'')
       else if nSize e - offString text < nChars text
       then Inl (runtime_error ''Invalid text specification'')
       else
         andThen
           (if offString text \<noteq> 0 then
              let ssize :: INT32 = ROUND_TO_LONG (nChars text) in
              if sint ssize < 0 then Inl bad_alloc
              else andThen (get_CHARSTR (nat (sint ssize)) ds) (\<lambda>(cbuffer, ds).
                   Inr (Some cbuffer, Some (sint ssize), ds))
            else Inr (None, None, ds)) (\<lambda>(cbuffer, ssize, ds).
         andThen
           (if offDx text \<noteq> 0 then
              andThen (get_INTARRAY (nChars text) ds) (\<lambda>(ibuffer, ds). Inr (Some ibuffer, ds))
            else Inr (None, ds)) (\<lambda>(ibuffer, ds).
         Inr (\<lparr>txt_emr = e, txt_rclBounds = b, iGraphicsMode = gm, exScale = xs, eyScale = ys,
               emrtext = text, string_a = cbuffer, string_size = ssize, dx_i = ibuffer\<rparr>,
              ds)))))))))"

definition serialize_EMREXTTEXTOUTA :: "EMREXTTEXTOUTA \<Rightarrow> DATASTREAM \<Rightarrow> error + DATASTREAM" where
  "serialize_EMREXTTEXTOUTA r ds =
     (case string_size r of
        None \<Rightarrow>
          andThen
            (puts [put_EMR (txt_emr r), put_RECTL (txt_rclBounds r), put_DWORD (iGraphicsMode r),
                   put_DWORD (exScale r), put_DWORD (eyScale r), put_EMRTEXT (emrtext r)] ds)
            (\<lambda>ds. Inl undefined_behaviour)
      | Some ssize \<Rightarrow>
          puts ([put_EMR (txt_emr r), put_RECTL (txt_rclBounds r), put_DWORD (iGraphicsMode r),
                 put_DWORD (exScale r), put_DWORD (eyScale r), put_EMRTEXT (emrtext r),
                 (if ssize < 0 then (\<lambda>ds. Inl undefined_behaviour)
                  else put_CHARSTR (string_a r) (nat ssize))]
                @ (if dx_i r \<noteq> None then [put_INTARRAY (dx_i r) (nChars (emrtext r))] else []))
            ds)"

section \<open>Records as a variant\<close>

text \<open>
  The record classes share the interface \<open>METARECORD\<close>; a record is one of
  them. The virtual \<open>size\<close> returns the record's \<open>nSize\<close> as an
  \<open>int\<close>, \<open>serialize\<close> is the class's own.
\<close>

datatype METARECORD =
    Header ENHMETAHEADER
  | Eof EMREOF
  | PolyPolygon EMRPOLYPOLYGON
  | PolyPolygon16 EMRPOLYPOLYGON16
  | ExtTextOutA EMREXTTEXTOUTA

fun emr_nSize :: "METARECORD \<Rightarrow> DWORD" where
  "emr_nSize (Header h) = hdr_nSize h"
| "emr_nSize (Eof r) = nSize (eof_emr r)"
| "emr_nSize (PolyPolygon r) = nSize (pp_emr r)"
| "emr_nSize (PolyPolygon16 r) = nSize (pp16_emr r)"
| "emr_nSize (ExtTextOutA r) = nSize (txt_emr r)"

definition size' :: "METARECORD \<Rightarrow> int" where
  "size' r = sint (emr_nSize r)"

fun serialize :: "METARECORD \<Rightarrow> DATASTREAM \<Rightarrow> error + DATASTREAM" where
  "serialize (Header h) ds = serialize_ENHMETAHEADER h ds"
| "serialize (Eof r) ds = serialize_EMREOF r ds"
| "serialize (PolyPolygon r) ds = serialize_EMRPOLYPOLYGON r ds"
| "serialize (PolyPolygon16 r) ds = serialize_EMRPOLYPOLYGON16 r ds"
| "serialize (ExtTextOutA r) ds = serialize_EMREXTTEXTOUTA r ds"

section \<open>Single-precision arithmetic\<close>

text \<open>
  The device context computes in C \<open>float\<close>. A finite \<open>float\<close> is
  \<open>m * 2 ^ e\<close> for integers \<open>m\<close> and \<open>e\<close>; the model keeps that pair.
  Every operation rounds its exact result to 24 significant bits, to the
  nearest value and to the even one of two nearest values, as IEEE 754
  arithmetic evaluated in \<open>float\<close> precision does. The exponent is not
  bounded: the operands below are 32-bit integers and quotients, products and
  sums of at most four of them, whose magnitudes stay far inside the range of
  the format.
\<close>

datatype float = Float (mantissa: int) (exponent: int)

fun bitlen :: "nat \<Rightarrow> nat" where
  "bitlen n = (if n = 0 then 0 else Suc (bitlen (n div 2)))"

declare bitlen.simps [simp del]

text \<open>\<open>n / d * 2 ^ k\<close> for \<open>0 < d\<close>, rounded.\<close>

definition scaled :: "int \<Rightarrow> int \<Rightarrow> int \<Rightarrow> int \<times> int" where
  "scaled a d s = (if 0 \<le> s then (a * 2 ^ nat s, d) else (a, d * 2 ^ nat (- s)))"

definition round_even :: "int \<Rightarrow> int \<Rightarrow> int" where
  "round_even n d =
     (let q = n div d; r = n mod d in
      if 2 * r < d then q else if d < 2 * r then q + 1 else if even q then q else q + 1)"

definition float_round2 :: "int \<Rightarrow> int \<Rightarrow> int \<Rightarrow> int \<Rightarrow> float" where
  "float_round2 n d k s =
     Float (sgn n * round_even (fst (scaled \<bar>n\<bar> d s)) (snd (scaled \<bar>n\<bar> d s))) (k - s)"

definition float_round1 :: "int \<Rightarrow> int \<Rightarrow> int \<Rightarrow> int \<Rightarrow> float" where
  "float_round1 n d k s0 =
     float_round2 n d k
       (if 2 ^ 24 \<le> fst (scaled \<bar>n\<bar> d s0) div snd (scaled \<bar>n\<bar> d s0) then s0 - 1 else s0)"

definition float_round :: "int \<Rightarrow> int \<Rightarrow> int \<Rightarrow> float" where
  "float_round n d k =
     (if n = 0 then Float 0 0
      else float_round1 n d k (24 - (int (bitlen (nat \<bar>n\<bar>)) - int (bitlen (nat d)))))"

definition float_of_int :: "int \<Rightarrow> float" where
  "float_of_int i = float_round i 1 0"

definition fmul :: "float \<Rightarrow> float \<Rightarrow> float" where
  "fmul a b = float_round (mantissa a * mantissa b) 1 (exponent a + exponent b)"

definition fadd :: "float \<Rightarrow> float \<Rightarrow> float" where
  "fadd a b =
     float_round
       (mantissa a * 2 ^ nat (exponent a - min (exponent a) (exponent b))
        + mantissa b * 2 ^ nat (exponent b - min (exponent a) (exponent b)))
       1 (min (exponent a) (exponent b))"

text \<open>
  A division by zero yields an infinity or a NaN, which stays one through the
  operations that follow and cannot be converted to an integer: the model
  ends there.
\<close>

definition fdiv :: "float \<Rightarrow> float \<Rightarrow> error + float" where
  "fdiv a b =
     (if mantissa b = 0 then Inl undefined_behaviour
      else Inr (float_round (sgn (mantissa b) * mantissa a) \<bar>mantissa b\<bar> (exponent a - exponent b)))"

definition floor' :: "float \<Rightarrow> int" where
  "floor' a =
     (if 0 \<le> exponent a then mantissa a * 2 ^ nat (exponent a)
      else mantissa a div 2 ^ nat (- exponent a))"

definition ceil' :: "float \<Rightarrow> int" where
  "ceil' a =
     (if 0 \<le> exponent a then mantissa a * 2 ^ nat (exponent a)
      else - ((- mantissa a) div 2 ^ nat (- exponent a)))"

text \<open>A conversion to an integer discards the fraction.\<close>

definition trunc :: "float \<Rightarrow> int" where
  "trunc a = (if 0 \<le> mantissa a then floor' a else ceil' a)"

text \<open>
  The value of an \<open>int\<close> expression as a \<open>LONG\<close>: undefined when it does
  not fit (a signed overflow, or a \<open>float\<close> out of range).
\<close>

definition to_LONG :: "int \<Rightarrow> error + LONG" where
  "to_LONG i = (if - (2 ^ 31) \<le> i \<and> i < 2 ^ 31 then Inr (word_of_int i) else Inl undefined_behaviour)"

text \<open>Integer division in C truncates; a zero divisor is undefined.\<close>

definition cdiv :: "int \<Rightarrow> int \<Rightarrow> error + int" where
  "cdiv a b = (if b = 0 then Inl undefined_behaviour else Inr (sgn a * sgn b * (\<bar>a\<bar> div \<bar>b\<bar>)))"

section \<open>The metafile device context\<close>

text \<open>
  The members of \<open>METAFILEDEVICECONTEXT\<close> that its own member functions
  read or write. \<open>records[0]\<close> is the header, the very object \<open>header\<close>
  points to; \<open>records\<close> below holds the records behind it, so that a
  change of the header is a change of the first record as in the code. The
  current pen, brush, font and palette, the text attributes, the stream and
  the playback map belong to functions defined in libemf.cpp.
\<close>

record METAFILEDEVICECONTEXT =
  header :: ENHMETAHEADER
  records :: "METARECORD list"
  viewport_ext :: SIZEL
  viewport_org :: POINTL
  window_ext :: SIZEL
  window_org :: POINTL
  update_frame :: bool
  min_device_point :: POINTL
  max_device_point :: POINTL
  handles :: "bool list"

text \<open>
  A frame edge in 0.01 mm from a bounds edge in device units:
  \<open>(LONG)floor( (float)bound * millimeters * 100 / device )\<close>, or
  \<open>ceil\<close>; the product and the quotient are evaluated from the left.
\<close>

definition frame_edge :: "(float \<Rightarrow> int) \<Rightarrow> LONG \<Rightarrow> LONG \<Rightarrow> int \<Rightarrow> error + LONG" where
  "frame_edge rounding bound millimeters device =
     andThen
       (fdiv (fmul (fmul (float_of_int (sint bound)) (float_of_int (sint millimeters)))
                (float_of_int 100))
          (float_of_int device))
       (\<lambda>q. to_LONG (rounding q))"

text \<open>
  A bounds edge from a frame edge, when the caller fixes the frame:
  \<open>edge * szlDevice / ( szlMillimeters * 100 )\<close> in \<open>LONG\<close>s.
\<close>

definition bounds_edge :: "LONG \<Rightarrow> LONG \<Rightarrow> LONG \<Rightarrow> error + LONG" where
  "bounds_edge edge device millimeters =
     andThen (to_LONG (sint edge * sint device)) (\<lambda>a.
     andThen (to_LONG (sint millimeters * 100)) (\<lambda>b.
     andThen (cdiv (sint a) (sint b)) to_LONG))"

text \<open>
  \<open>init ( size, description_w )\<close>, called by the constructor on a context
  whose vectors are empty. \<open>size\<close> is the frame the caller wants, or null.
\<close>

definition init :: "RECTL option \<Rightarrow> WCHAR list option \<Rightarrow> error + METAFILEDEVICECONTEXT" where
  "init size_arg description =
     andThen (new_ENHMETAHEADER description) (\<lambda>h.
     andThen
       (case size_arg of
          Some sz \<Rightarrow>
            andThen (bounds_edge (left sz) (cx (szlDevice h)) (cx (szlMillimeters h))) (\<lambda>l.
            andThen (bounds_edge (top' sz) (cy (szlDevice h)) (cy (szlMillimeters h))) (\<lambda>t.
            andThen (bounds_edge (right sz) (cx (szlDevice h)) (cx (szlMillimeters h))) (\<lambda>r.
            andThen (bounds_edge (bottom sz) (cy (szlDevice h)) (cy (szlMillimeters h))) (\<lambda>b.
            Inr (False,
                 h\<lparr>rclFrame := \<lparr>left = left sz, top' = top' sz, right = right sz, bottom = bottom sz\<rparr>,
                   rclBounds := \<lparr>left = l, top' = t, right = r, bottom = b\<rparr>\<rparr>)))))
        | None \<Rightarrow>
            andThen (frame_edge floor' (- 10) (cx (szlMillimeters h)) (sint (cx (szlDevice h)))) (\<lambda>l.
            andThen (frame_edge floor' (- 10) (cy (szlMillimeters h)) (sint (cy (szlDevice h)))) (\<lambda>t.
            andThen (frame_edge ceil' 10 (cx (szlMillimeters h)) (sint (cx (szlDevice h)))) (\<lambda>r.
            andThen (frame_edge ceil' 10 (cy (szlMillimeters h)) (sint (cy (szlDevice h)))) (\<lambda>b.
            Inr (True,
                 h\<lparr>rclBounds := \<lparr>left = - 10, top' = - 10, right = 10, bottom = 10\<rparr>,
                   rclFrame := \<lparr>left = l, top' = t, right = r, bottom = b\<rparr>\<rparr>))))))
       (\<lambda>(uf, h).
     Inr \<lparr>header = h,
          records = [],
          viewport_ext = SIZEL 1 1,
          viewport_org = POINTL 0 0,
          window_ext = SIZEL 1 1,
          window_org = POINTL 0 0,
          update_frame = uf,
          min_device_point = POINTL 0 0,
          max_device_point = POINTL 0 0,
          handles = [True]\<rparr>))"

subsection \<open>Handles\<close>

text \<open>
  The scan \<open>for ( i = 1; i < handles.size(); i++ ) if ( !handles[i] )\<close> of
  \<open>nextHandle\<close>, from index \<open>i\<close>: the first free slot, if there is one.
\<close>

function scan :: "bool list \<Rightarrow> nat \<Rightarrow> nat option" where
  "scan hs i = (if i < length hs then (if \<not> hs ! i then Some i else scan hs (Suc i)) else None)"
  by pat_completeness auto
termination
  by (relation "measure (\<lambda>(hs, i). length hs - i)") auto

declare scan.simps [simp del]

text \<open>
  \<open>nextHandle\<close> returns the handle as a \<open>DWORD\<close> and the context as it
  leaves it. When no slot is free the vector grows by one and its new size is
  stored in the header's \<open>nHandles\<close>, a \<open>WORD\<close>.
\<close>

definition nextHandle :: "METAFILEDEVICECONTEXT \<Rightarrow> DWORD \<times> METAFILEDEVICECONTEXT" where
  "nextHandle dc =
     (case scan (handles dc) 1 of
        Some i \<Rightarrow> (of_nat i, dc\<lparr>handles := (handles dc)[i := True]\<rparr>)
      | None \<Rightarrow>
          (of_nat (length (handles dc @ [True]) - 1),
           dc\<lparr>handles := handles dc @ [True],
              header := (header dc)\<lparr>nHandles := of_nat (length (handles dc @ [True]))\<rparr>\<rparr>))"

definition clearHandle :: "DWORD \<Rightarrow> METAFILEDEVICECONTEXT \<Rightarrow> METAFILEDEVICECONTEXT" where
  "clearHandle handle dc =
     (if unat handle < length (handles dc)
      then dc\<lparr>handles := (handles dc)[unat handle := False]\<rparr>
      else dc)"

subsection \<open>Appending records\<close>

text \<open>
  \<open>header->nBytes += record->size()\<close> adds an \<open>int\<close> to a \<open>DWORD\<close>.
  The two functions have the same body.
\<close>

definition appendRecord :: "METARECORD \<Rightarrow> METAFILEDEVICECONTEXT \<Rightarrow> METAFILEDEVICECONTEXT" where
  "appendRecord record' dc =
     dc\<lparr>records := records dc @ [record'],
        header := (header dc)\<lparr>nBytes := nBytes (header dc) + word_of_int (size' record'),
                              nRecords := nRecords (header dc) + 1\<rparr>\<rparr>"

definition appendHandle :: "METARECORD \<Rightarrow> METAFILEDEVICECONTEXT \<Rightarrow> METAFILEDEVICECONTEXT" where
  "appendHandle record' dc =
     dc\<lparr>records := records dc @ [record'],
        header := (header dc)\<lparr>nBytes := nBytes (header dc) + word_of_int (size' record'),
                              nRecords := nRecords (header dc) + 1\<rparr>\<rparr>"

subsection \<open>Merging a point into the bounds\<close>

text \<open>
  The device coordinate of a logical one:
  \<open>(LONG)( (float)( p - window_org ) / window_width * viewport_ext + viewport_org )\<close>.
  The difference is a \<open>LONG\<close>; the other three operands are converted to
  \<open>float\<close> where they meet one.
\<close>

definition device_coordinate :: "LONG \<Rightarrow> LONG \<Rightarrow> int \<Rightarrow> LONG \<Rightarrow> LONG \<Rightarrow> error + LONG" where
  "device_coordinate p w_org w_width v_ext v_org =
     andThen (to_LONG (sint p - sint w_org)) (\<lambda>d.
     andThen (fdiv (float_of_int (sint d)) (float_of_int w_width)) (\<lambda>q.
     to_LONG (trunc (fadd (fmul q (float_of_int (sint v_ext))) (float_of_int (sint v_org))))))"

text \<open>The first \<open>if ... else if\<close> of \<open>mergePoint\<close>, on the x coordinate.\<close>

definition merge_x :: "LONG \<Rightarrow> METAFILEDEVICECONTEXT \<Rightarrow> error + METAFILEDEVICECONTEXT" where
  "merge_x x dc =
     (let device_width =
            (if sint (cx (szlDevice (header dc))) \<le> 0 then 1 else sint (cx (szlDevice (header dc))))
      in
      if sint x < sint (ptl_x (min_device_point dc)) then
        let dc = dc\<lparr>min_device_point := POINTL x (ptl_y (min_device_point dc))\<rparr> in
        if update_frame dc then
          andThen (to_LONG (sint x - 10)) (\<lambda>l.
          andThen (frame_edge floor' l (cx (szlMillimeters (header dc))) device_width) (\<lambda>f.
          Inr (dc\<lparr>header := (header dc)
                 \<lparr>rclBounds := (rclBounds (header dc))\<lparr>left := l\<rparr>,
                  rclFrame := (rclFrame (header dc))\<lparr>left := f\<rparr>\<rparr>\<rparr>)))
        else Inr dc
      else if sint (ptl_x (max_device_point dc)) < sint x then
        let dc = dc\<lparr>max_device_point := POINTL x (ptl_y (max_device_point dc))\<rparr> in
        if update_frame dc then
          andThen (to_LONG (sint x + 10)) (\<lambda>r.
          andThen (frame_edge ceil' r (cx (szlMillimeters (header dc))) device_width) (\<lambda>f.
          Inr (dc\<lparr>header := (header dc)
                 \<lparr>rclBounds := (rclBounds (header dc))\<lparr>right := r\<rparr>,
                  rclFrame := (rclFrame (header dc))\<lparr>right := f\<rparr>\<rparr>\<rparr>)))
        else Inr dc
      else Inr dc)"

text \<open>The second one, on the y coordinate.\<close>

definition merge_y :: "LONG \<Rightarrow> METAFILEDEVICECONTEXT \<Rightarrow> error + METAFILEDEVICECONTEXT" where
  "merge_y y dc =
     (let device_height =
            (if sint (cy (szlDevice (header dc))) \<le> 0 then 1 else sint (cy (szlDevice (header dc))))
      in
      if sint y < sint (ptl_y (min_device_point dc)) then
        let dc = dc\<lparr>min_device_point := POINTL (ptl_x (min_device_point dc)) y\<rparr> in
        if update_frame dc then
          andThen (to_LONG (sint y - 10)) (\<lambda>t.
          andThen (frame_edge floor' t (cy (szlMillimeters (header dc))) device_height) (\<lambda>f.
          Inr (dc\<lparr>header := (header dc)
                 \<lparr>rclBounds := (rclBounds (header dc))\<lparr>top' := t\<rparr>,
                  rclFrame := (rclFrame (header dc))\<lparr>top' := f\<rparr>\<rparr>\<rparr>)))
        else Inr dc
      else if sint (ptl_y (max_device_point dc)) < sint y then
        let dc = dc\<lparr>max_device_point := POINTL (ptl_x (max_device_point dc)) y\<rparr> in
        if update_frame dc then
          andThen (to_LONG (sint y + 10)) (\<lambda>b.
          andThen (frame_edge ceil' b (cy (szlMillimeters (header dc))) device_height) (\<lambda>f.
          Inr (dc\<lparr>header := (header dc)
                 \<lparr>rclBounds := (rclBounds (header dc))\<lparr>bottom := b\<rparr>,
                  rclFrame := (rclFrame (header dc))\<lparr>bottom := f\<rparr>\<rparr>\<rparr>)))
        else Inr dc
      else Inr dc)"

definition device_point :: "POINTL \<Rightarrow> METAFILEDEVICECONTEXT \<Rightarrow> error + POINTL" where
  "device_point p dc =
     (let window_width = (if sint (cx (window_ext dc)) \<le> 0 then 1 else sint (cx (window_ext dc)));
          window_height = (if sint (cy (window_ext dc)) \<le> 0 then 1 else sint (cy (window_ext dc)))
      in
      andThen (device_coordinate (ptl_x p) (ptl_x (window_org dc)) window_width
                 (cx (viewport_ext dc)) (ptl_x (viewport_org dc))) (\<lambda>x.
      andThen (device_coordinate (ptl_y p) (ptl_y (window_org dc)) window_height
                 (cy (viewport_ext dc)) (ptl_y (viewport_org dc))) (\<lambda>y.
      Inr (POINTL x y))))"

definition mergePoint :: "POINTL \<Rightarrow> METAFILEDEVICECONTEXT \<Rightarrow> error + METAFILEDEVICECONTEXT" where
  "mergePoint p dc =
     andThen (device_point p dc) (\<lambda>d.
     andThen (merge_x (ptl_x d) dc) (\<lambda>dc.
     merge_y (ptl_y d) dc))"

subsection \<open>Sequences of calls\<close>

text \<open>\<open>k\<close> calls of \<open>nextHandle\<close> in a row, with the handles they return.\<close>

fun nextHandles :: "nat \<Rightarrow> METAFILEDEVICECONTEXT \<Rightarrow> DWORD list \<times> METAFILEDEVICECONTEXT" where
  "nextHandles 0 dc = ([], dc)"
| "nextHandles (Suc k) dc =
     (case nextHandle dc of (h, dc1) \<Rightarrow>
        (case nextHandles k dc1 of (hs, dc2) \<Rightarrow> (h # hs, dc2)))"

text \<open>
  The calls a context receives in its lifetime, as far as the member
  functions above go, and a context after a sequence of them.
\<close>

datatype call =
    NextHandle
  | ClearHandle DWORD
  | AppendRecord METARECORD
  | AppendHandle METARECORD
  | MergePoint POINTL

fun run :: "call list \<Rightarrow> METAFILEDEVICECONTEXT \<Rightarrow> error + METAFILEDEVICECONTEXT" where
  "run [] dc = Inr dc"
| "run (NextHandle # cs) dc = run cs (snd (nextHandle dc))"
| "run (ClearHandle h # cs) dc = run cs (clearHandle h dc)"
| "run (AppendRecord r # cs) dc = run cs (appendRecord r dc)"
| "run (AppendHandle r # cs) dc = run cs (appendHandle r dc)"
| "run (MergePoint p # cs) dc = andThen (mergePoint p dc) (run cs)"

section \<open>What a writer emits\<close>

text \<open>
  An output operation emits the bytes \<open>bs\<close> when, on every stream, it
  appends \<open>bs\<close> to the output if the device has room for them and throws
  the write error if not. The operators of the codec and the \<open>serialize\<close>
  functions are described this way in the proofs below.
\<close>

definition emits :: "(DATASTREAM \<Rightarrow> error + DATASTREAM) \<Rightarrow> BYTE list \<Rightarrow> bool" where
  "emits p bs \<longleftrightarrow>
     (\<forall>s u w r. p (DATASTREAM s (FILE u w r)) =
        (if r < length bs then Inl (runtime_error ''error writing EMF stream'')
         else Inr (DATASTREAM s (FILE u (w @ bs) (r - length bs)))))"

text \<open>The bytes of the structures, field by field in the order of their operators.\<close>

definition bytes_RECTL :: "RECTL \<Rightarrow> BYTE list" where
  "bytes_RECTL r = le_bytes 4 (left r) @ le_bytes 4 (top' r) @ le_bytes 4 (right r) @ le_bytes 4 (bottom r)"

definition bytes_SIZEL :: "SIZEL \<Rightarrow> BYTE list" where
  "bytes_SIZEL z = le_bytes 4 (cx z) @ le_bytes 4 (cy z)"

definition bytes_EMR :: "EMR \<Rightarrow> BYTE list" where
  "bytes_EMR e = le_bytes 4 (iType e) @ le_bytes 4 (nSize e)"

definition bytes_POINTL :: "POINTL \<Rightarrow> BYTE list" where
  "bytes_POINTL p = le_bytes 4 (ptl_x p) @ le_bytes 4 (ptl_y p)"

definition bytes_POINT16 :: "POINT16 \<Rightarrow> BYTE list" where
  "bytes_POINT16 p = le_bytes 2 (pts_x p) @ le_bytes 2 (pts_y p)"

definition bytes_EMRTEXT :: "EMRTEXT \<Rightarrow> BYTE list" where
  "bytes_EMRTEXT t =
     bytes_POINTL (ptlReference t) @ le_bytes 4 (nChars t) @ le_bytes 4 (offString t)
     @ le_bytes 4 (fOptions t) @ bytes_RECTL (rcl t) @ le_bytes 4 (offDx t)"

text \<open>
  The bytes of the records: what \<open>serialize\<close> writes for a record whose
  buffers hold the elements it counts. The header's first 88 bytes, up to
  \<open>szlMillimeters\<close>, are those of the first version of the format.
\<close>

definition bytes_ENHMETAHEADER_88 :: "ENHMETAHEADER \<Rightarrow> BYTE list" where
  "bytes_ENHMETAHEADER_88 h =
     le_bytes 4 (hdr_iType h) @ le_bytes 4 (hdr_nSize h)
     @ bytes_RECTL (rclBounds h) @ bytes_RECTL (rclFrame h)
     @ le_bytes 4 (dSignature h) @ le_bytes 4 (nVersion h) @ le_bytes 4 (nBytes h)
     @ le_bytes 4 (nRecords h) @ le_bytes 2 (nHandles h) @ le_bytes 2 (sReserved h)
     @ le_bytes 4 (nDescription h) @ le_bytes 4 (offDescription h) @ le_bytes 4 (nPalEntries h)
     @ bytes_SIZEL (szlDevice h) @ bytes_SIZEL (szlMillimeters h)"

definition bytes_description :: "ENHMETAHEADER \<Rightarrow> BYTE list" where
  "bytes_description h =
     concat (map (le_bytes 2) (take (nat (description_size h)) (buffer (description_w h))))"

definition bytes_ENHMETAHEADER :: "ENHMETAHEADER \<Rightarrow> BYTE list" where
  "bytes_ENHMETAHEADER h =
     bytes_ENHMETAHEADER_88 h
     @ le_bytes 4 (cbPixelFormat h) @ le_bytes 4 (offPixelFormat h) @ le_bytes 4 (bOpenGL h)
     @ bytes_SIZEL (szlMicrometers h)
     @ bytes_description h"

definition bytes_EMREOF :: "EMREOF \<Rightarrow> BYTE list" where
  "bytes_EMREOF r =
     bytes_EMR (eof_emr r) @ le_bytes 4 (eof_nPalEntries r) @ le_bytes 4 (offPalEntries r)
     @ le_bytes 4 (nSizeLast r)"

definition bytes_EMRPOLYPOLYGON :: "EMRPOLYPOLYGON \<Rightarrow> BYTE list" where
  "bytes_EMRPOLYPOLYGON r =
     bytes_EMR (pp_emr r) @ bytes_RECTL (pp_rclBounds r) @ le_bytes 4 (nPolys r)
     @ le_bytes 4 (cptl r)
     @ concat (map (le_bytes 4) (take (unat (nPolys r)) (buffer (lcounts r))))
     @ concat (map bytes_POINTL (take (unat (cptl r)) (buffer (lpoints r))))"

definition bytes_EMRPOLYPOLYGON16 :: "EMRPOLYPOLYGON16 \<Rightarrow> BYTE list" where
  "bytes_EMRPOLYPOLYGON16 r =
     bytes_EMR (pp16_emr r) @ bytes_RECTL (pp16_rclBounds r) @ le_bytes 4 (nPolys16 r)
     @ le_bytes 4 (cpts r)
     @ concat (map (le_bytes 4) (take (unat (nPolys16 r)) (buffer (lcounts16 r))))
     @ concat (map bytes_POINT16 (take (unat (cpts r)) (buffer (lpoints16 r))))"

definition bytes_EMREXTTEXTOUTA :: "EMREXTTEXTOUTA \<Rightarrow> BYTE list" where
  "bytes_EMREXTTEXTOUTA r =
     bytes_EMR (txt_emr r) @ bytes_RECTL (txt_rclBounds r) @ le_bytes 4 (iGraphicsMode r)
     @ le_bytes 4 (exScale r) @ le_bytes 4 (eyScale r) @ bytes_EMRTEXT (emrtext r)
     @ take (nat (the (string_size r))) (buffer (string_a r))
     @ (if dx_i r \<noteq> None
        then concat (map (le_bytes 4) (take (unat (nChars (emrtext r))) (buffer (dx_i r))))
        else [])"

fun bytes_METARECORD :: "METARECORD \<Rightarrow> BYTE list" where
  "bytes_METARECORD (Header h) = bytes_ENHMETAHEADER h"
| "bytes_METARECORD (Eof r) = bytes_EMREOF r"
| "bytes_METARECORD (PolyPolygon r) = bytes_EMRPOLYPOLYGON r"
| "bytes_METARECORD (PolyPolygon16 r) = bytes_EMRPOLYPOLYGON16 r"
| "bytes_METARECORD (ExtTextOutA r) = bytes_EMREXTTEXTOUTA r"

text \<open>
  A record is intact when each buffer holds the elements its count announces
  and the string length is set: the state in which every constructor that
  succeeds leaves a record.
\<close>

fun intact :: "METARECORD \<Rightarrow> bool" where
  "intact (Header h) \<longleftrightarrow> nat (description_size h) \<le> length (buffer (description_w h))"
| "intact (Eof r) \<longleftrightarrow> True"
| "intact (PolyPolygon r) \<longleftrightarrow>
     unat (nPolys r) \<le> length (buffer (lcounts r)) \<and> unat (cptl r) \<le> length (buffer (lpoints r))"
| "intact (PolyPolygon16 r) \<longleftrightarrow>
     unat (nPolys16 r) \<le> length (buffer (lcounts16 r)) \<and>
     unat (cpts r) \<le> length (buffer (lpoints16 r))"
| "intact (ExtTextOutA r) \<longleftrightarrow>
     (case string_size r of None \<Rightarrow> False
      | Some n \<Rightarrow> 0 \<le> n \<and> nat n \<le> length (buffer (string_a r))) \<and>
     (dx_i r \<noteq> None \<longrightarrow> unat (nChars (emrtext r)) \<le> length (buffer (dx_i r)))"

text \<open>
  An input operation consumes its input when its result depends on the bytes
  it has read and on nothing else: where it returns a value it has read the
  first \<open>k\<close> unread bytes, it returns the same value on every stream that
  starts with these bytes, and on a stream that ends before the \<open>k\<close>th of
  them it throws the read error. The operators of the codec and the stream
  constructors of the records are described this way in the proofs below.
\<close>

definition consumes :: "(DATASTREAM \<Rightarrow> error + ('a \<times> DATASTREAM)) \<Rightarrow> bool" where
  "consumes g \<longleftrightarrow>
     (\<forall>s u w r x ds'. g (DATASTREAM s (FILE u w r)) = Inr (x, ds') \<longrightarrow>
        (\<exists>k \<le> length u. ds' = DATASTREAM s (FILE (drop k u) w r) \<and>
           (\<forall>v. g (DATASTREAM s (FILE (take k u @ v) w r)) = Inr (x, DATASTREAM s (FILE v w r))) \<and>
           (\<forall>n<k. g (DATASTREAM s (FILE (take n u) w r)) =
              Inl (runtime_error ''Premature EOF on EMF stream''))))"

text \<open>The stream \<open>ds\<close> when the file ends after \<open>n\<close> more bytes.\<close>

definition truncated :: "nat \<Rightarrow> DATASTREAM \<Rightarrow> DATASTREAM" where
  "truncated n ds =
     DATASTREAM (swap' ds) (FILE (take n (unread (fp' ds))) (written (fp' ds)) (room (fp' ds)))"

text \<open>
  The records the constructors build, for arguments whose encoded size stays
  below \<open>2 ^ 31\<close> bytes, the range in which \<open>size\<close>, an \<open>int\<close>, is
  the \<open>DWORD\<close> it returns.
\<close>

inductive constructed :: "METARECORD \<Rightarrow> bool" where
  header: "new_ENHMETAHEADER None = Inr h \<Longrightarrow> constructed (Header h)"
| header_description:
    "new_ENHMETAHEADER (Some d) = Inr h \<Longrightarrow> 112 + 2 * length d < 2 ^ 31 \<Longrightarrow>
     constructed (Header h)"
| eof: "constructed (Eof new_EMREOF)"
| polypolygon:
    "new_EMRPOLYPOLYGON bounds points counts polygons = Inr r \<Longrightarrow>
     32 + 4 * unat (nPolys r) + 8 * unat (cptl r) < 2 ^ 31 \<Longrightarrow> constructed (PolyPolygon r)"
| polypolygon16:
    "new_EMRPOLYPOLYGON16 bounds points counts polygons = Inr r \<Longrightarrow>
     32 + 4 * unat (nPolys16 r) + 4 * unat (cpts r) < 2 ^ 31 \<Longrightarrow> constructed (PolyPolygon16 r)"
| polypolygon16_16:
    "new_EMRPOLYPOLYGON16_16 bounds points16 counts polygons16 = Inr r \<Longrightarrow>
     32 + 4 * unat (nPolys16 r) + 4 * unat (cpts r) < 2 ^ 31 \<Longrightarrow> constructed (PolyPolygon16 r)"
| exttextouta:
    "new_EMREXTTEXTOUTA bounds graphicsMode xScale yScale text string dx = Inr r \<Longrightarrow>
     unat (nChars text) < 2 ^ 28 \<Longrightarrow> constructed (ExtTextOutA r)"

section \<open>Evaluation and the error monad\<close>

lemma bitlen_numeral [simp]: "bitlen (numeral k) = Suc (bitlen (numeral k div 2))"
  by (subst bitlen.simps) simp
lemma bitlen_0 [simp]: "bitlen 0 = 0" by (simp add: bitlen.simps)
lemma bitlen_1 [simp]: "bitlen (Suc 0) = 1" by (simp add: bitlen.simps)
lemma andThen_Inr [simp]: "andThen (Inr v) f = f v" by (simp add: andThen_def)
lemma andThen_Inl [simp]: "andThen (Inl e) f = Inl e" by (simp add: andThen_def)
lemma andThen_weak_cong: "m = m' \<Longrightarrow> andThen m f = andThen m' f" by simp
lemmas float_eval = float_of_int_def float_round_def float_round1_def float_round2_def scaled_def
  round_even_def fmul_def fadd_def fdiv_def trunc_def floor'_def ceil'_def to_LONG_def cdiv_def

section \<open>Handles: allocation and release\<close>

lemma scan_Some:
  "scan hs i = Some r \<Longrightarrow> i \<le> r \<and> r < length hs \<and> \<not> hs ! r \<and> (\<forall>j. i \<le> j \<and> j < r \<longrightarrow> hs ! j)"
proof (induction hs i rule: scan.induct)
  case (1 hs i)
  show ?case
  proof (cases "i < length hs \<and> hs ! i")
    case True
    then have "scan hs (Suc i) = Some r" using "1.prems" by (simp add: scan.simps [of hs i])
    then have "Suc i \<le> r \<and> r < length hs \<and> \<not> hs ! r \<and> (\<forall>j. Suc i \<le> j \<and> j < r \<longrightarrow> hs ! j)"
      using "1.IH" True by simp
    then show ?thesis using True by (metis Suc_leD Suc_leI le_neq_implies_less)
  next
    case False
    then show ?thesis using "1.prems" by (auto simp: scan.simps [of hs i] split: if_splits)
  qed
qed

lemma scan_None:
  "scan hs i = None \<Longrightarrow> \<forall>j. i \<le> j \<and> j < length hs \<longrightarrow> hs ! j"
proof (induction hs i rule: scan.induct)
  case (1 hs i)
  show ?case
  proof (cases "i < length hs")
    case True
    then have hi: "hs ! i" and "scan hs (Suc i) = None"
      using "1.prems" by (auto simp: scan.simps [of hs i] split: if_splits)
    then have "\<forall>j. Suc i \<le> j \<and> j < length hs \<longrightarrow> hs ! j" using "1.IH" True by simp
    then show ?thesis using hi by (metis Suc_leI le_neq_implies_less)
  next
    case False
    then show ?thesis by auto
  qed
qed

lemma scan_all_used:
  "\<forall>j. i \<le> j \<and> j < length hs \<longrightarrow> hs ! j \<Longrightarrow> scan hs i = None"
  using scan_Some [of hs i] by (cases "scan hs i") auto

lemma scan_first_free:
  "\<lbrakk>i \<le> r; r < length hs; \<not> hs ! r; \<forall>j. i \<le> j \<and> j < r \<longrightarrow> hs ! j\<rbrakk> \<Longrightarrow> scan hs i = Some r"
proof -
  assume a: "i \<le> r" "r < length hs" "\<not> hs ! r" "\<forall>j. i \<le> j \<and> j < r \<longrightarrow> hs ! j"
  show ?thesis
  proof (cases "scan hs i")
    case None
    then show ?thesis using scan_None [of hs i] a by auto
  next
    case (Some q)
    then have q: "i \<le> q" "q < length hs" "\<not> hs ! q" "\<forall>j. i \<le> j \<and> j < q \<longrightarrow> hs ! j"
      using scan_Some [of hs i q] by auto
    have "q = r" using a q by (meson linorder_neqE_nat)
    then show ?thesis using Some by simp
  qed
qed

lemma nextHandle_found:
  "scan (handles dc) 1 = Some r \<Longrightarrow>
   nextHandle dc = (of_nat r, dc\<lparr>handles := (handles dc)[r := True]\<rparr>)"
  by (simp add: nextHandle_def)

lemma nextHandle_extends:
  "scan (handles dc) 1 = None \<Longrightarrow>
   nextHandle dc =
     (of_nat (length (handles dc)),
      dc\<lparr>handles := handles dc @ [True],
         header := (header dc)\<lparr>nHandles := of_nat (Suc (length (handles dc)))\<rparr>\<rparr>)"
  by (simp add: nextHandle_def)

lemma of_nat_DWORD_neq_0: "0 < n \<Longrightarrow> n < 2 ^ 32 \<Longrightarrow> (of_nat n :: DWORD) \<noteq> 0"
  by (simp add: word_of_nat_eq_0_iff nat_dvd_not_less)

lemma unat_of_nat_DWORD: "n < 2 ^ 32 \<Longrightarrow> unat (of_nat n :: DWORD) = n"
  by (simp add: unat_of_nat)

lemma nextHandle_not_0:
  assumes "handles dc \<noteq> []" "length (handles dc) < 2 ^ 32"
  shows "fst (nextHandle dc) \<noteq> 0"
proof (cases "scan (handles dc) 1")
  case None
  have "0 < length (handles dc)" using assms by simp
  then have "(of_nat (length (handles dc)) :: DWORD) \<noteq> 0"
    using assms(2) by (rule of_nat_DWORD_neq_0)
  then show ?thesis using None by (simp add: nextHandle_extends)
next
  case (Some r)
  then have "0 < r" "r < 2 ^ 32" using scan_Some [of "handles dc" 1 r] assms(2) by auto
  then have "(of_nat r :: DWORD) \<noteq> 0" by (rule of_nat_DWORD_neq_0)
  then show ?thesis using Some by (simp add: nextHandle_found)
qed

text \<open>Reuse: while slot h is free and the slots below m are used, h comes back within h - m + 1 calls.\<close>

lemma nextHandles_reuse:
  "\<lbrakk>h < length (handles dc); \<not> handles dc ! h; 1 \<le> m; m \<le> h;
    \<forall>j. 1 \<le> j \<and> j < m \<longrightarrow> handles dc ! j; h - m < k\<rbrakk>
   \<Longrightarrow> of_nat h \<in> set (fst (nextHandles k dc))"
proof (induction k arbitrary: dc m)
  case 0
  then show ?case by simp
next
  case (Suc k)
  have "\<exists>r. scan (handles dc) 1 = Some r"
    using scan_None [of "handles dc" 1] Suc.prems by (cases "scan (handles dc) 1") auto
  then obtain r where r: "scan (handles dc) 1 = Some r" by blast
  then have rp: "1 \<le> r" "r < length (handles dc)" "\<not> handles dc ! r"
    "\<forall>j. 1 \<le> j \<and> j < r \<longrightarrow> handles dc ! j"
    using scan_Some [of "handles dc" 1 r] by auto
  have mr: "m \<le> r" using rp(3) Suc.prems(5) rp(1) by (meson not_le_imp_less)
  have rh: "r \<le> h" using rp(4) Suc.prems(2) Suc.prems(3,4) by (meson le_trans not_le_imp_less)
  let ?dc1 = "dc\<lparr>handles := (handles dc)[r := True]\<rparr>"
  have nh: "nextHandle dc = (of_nat r, ?dc1)" using r by (rule nextHandle_found)
  show ?case
  proof (cases "r = h")
    case True
    then show ?thesis using nh by (simp split: prod.splits)
  next
    case False
    then have lt: "r < h" using rh by simp
    have "of_nat h \<in> set (fst (nextHandles k ?dc1))"
    proof (rule Suc.IH [where m = "Suc r"])
      show "h < length (handles ?dc1)" using Suc.prems(1) by simp
      show "\<not> handles ?dc1 ! h" using Suc.prems(2) False by simp
      show "1 \<le> Suc r" by simp
      show "Suc r \<le> h" using lt by simp
      show "\<forall>j. 1 \<le> j \<and> j < Suc r \<longrightarrow> handles ?dc1 ! j"
        using rp(2,4) by (auto simp: nth_list_update less_Suc_eq)
      show "h - Suc r < k" using Suc.prems(6) mr lt by linarith
    qed
    then show ?thesis using nh by (auto split: prod.splits)
  qed
qed

lemma nextHandles_after_clearHandle:
  assumes "1 \<le> unat h" "unat h < length (handles dc)"
  shows "h \<in> set (fst (nextHandles (unat h) (clearHandle h dc)))"
proof -
  let ?dc = "clearHandle h dc"
  have c: "handles ?dc = (handles dc)[unat h := False]" using assms by (simp add: clearHandle_def)
  have "of_nat (unat h) \<in> set (fst (nextHandles (unat h) ?dc))"
  proof (rule nextHandles_reuse [where m = 1])
    show "unat h < length (handles ?dc)" using c assms by simp
    show "\<not> handles ?dc ! unat h" using c assms by simp
    show "1 \<le> (1::nat)" by simp
    show "1 \<le> unat h" using assms by simp
    show "\<forall>j. 1 \<le> j \<and> j < 1 \<longrightarrow> handles ?dc ! j" by simp
    show "unat h - 1 < unat h" using assms by simp
  qed
  then show ?thesis by simp
qed


lemma nextHandle_header:
  "header (snd (nextHandle dc)) =
     (if scan (handles dc) 1 = None
      then (header dc)\<lparr>nHandles := of_nat (Suc (length (handles dc)))\<rparr> else header dc)"
  by (cases "scan (handles dc) 1") (simp_all add: nextHandle_def)

lemma nextHandle_handles:
  "handles (snd (nextHandle dc)) =
     (case scan (handles dc) 1 of None \<Rightarrow> handles dc @ [True]
      | Some i \<Rightarrow> (handles dc)[i := True])"
  by (cases "scan (handles dc) 1") (simp_all add: nextHandle_def)

lemma andThen_eq_Inr:
  "andThen m f = Inr y \<longleftrightarrow> (\<exists>v. m = Inr v \<and> f v = Inr y)"
  by (cases m) simp_all

lemma merge_x_frame:
  "merge_x x dc = Inr dc1 \<Longrightarrow>
   handles dc1 = handles dc \<and> nHandles (header dc1) = nHandles (header dc)"
  by (auto simp: merge_x_def Let_def andThen_eq_Inr split: if_splits)

lemma merge_y_frame:
  "merge_y y dc = Inr dc1 \<Longrightarrow>
   handles dc1 = handles dc \<and> nHandles (header dc1) = nHandles (header dc)"
  by (auto simp: merge_y_def Let_def andThen_eq_Inr split: if_splits)

lemma mergePoint_frame:
  "mergePoint p dc = Inr dc1 \<Longrightarrow>
   handles dc1 = handles dc \<and> nHandles (header dc1) = nHandles (header dc)"
  unfolding mergePoint_def andThen_eq_Inr
  using merge_x_frame merge_y_frame by metis

lemma unat_of_nat_WORD: "n < 65536 \<Longrightarrow> unat (of_nat n :: WORD) = n"
  by (simp add: unat_of_nat)

lemma run_handles_length:
  "run cs dc = Inr dc' \<Longrightarrow> length (handles dc) \<le> length (handles dc')"
proof (induction cs arbitrary: dc)
  case Nil
  then show ?case by simp
next
  case (Cons c cs)
  show ?case
  proof (cases c)
    case NextHandle
    have "length (handles dc) \<le> length (handles (snd (nextHandle dc)))"
      by (cases "scan (handles dc) 1") (simp_all add: nextHandle_handles)
    then show ?thesis using Cons.IH [of "snd (nextHandle dc)"] Cons.prems NextHandle by simp
  next
    case (ClearHandle h)
    have "length (handles (clearHandle h dc)) = length (handles dc)"
      by (simp add: clearHandle_def)
    then show ?thesis using Cons.IH [of "clearHandle h dc"] Cons.prems ClearHandle by simp
  next
    case (AppendRecord r)
    have "handles (appendRecord r dc) = handles dc" by (simp add: appendRecord_def)
    then show ?thesis using Cons.IH [of "appendRecord r dc"] Cons.prems AppendRecord by simp
  next
    case (AppendHandle r)
    have "handles (appendHandle r dc) = handles dc" by (simp add: appendHandle_def)
    then show ?thesis using Cons.IH [of "appendHandle r dc"] Cons.prems AppendHandle by simp
  next
    case (MergePoint p)
    then obtain dc1 where m: "mergePoint p dc = Inr dc1" and r: "run cs dc1 = Inr dc'"
      using Cons.prems by (auto simp: andThen_eq_Inr)
    have "handles dc1 = handles dc" using mergePoint_frame [OF m] by simp
    then show ?thesis using Cons.IH [OF r] by simp
  qed
qed

lemma run_nHandles_mono_table:
  "\<lbrakk>unat (nHandles (header dc)) \<le> length (handles dc);
    run cs dc = Inr dc'; length (handles dc') < 65536\<rbrakk>
   \<Longrightarrow> unat (nHandles (header dc)) \<le> unat (nHandles (header dc')) \<and>
       unat (nHandles (header dc')) \<le> length (handles dc')"
proof (induction cs arbitrary: dc)
  case Nil
  then show ?case by simp
next
  case (Cons c cs)
  show ?case
  proof (cases c)
    case NextHandle
    let ?dc1 = "snd (nextHandle dc)"
    have r: "run cs ?dc1 = Inr dc'" using Cons.prems(2) NextHandle by simp
    show ?thesis
    proof (cases "scan (handles dc) 1")
      case None
      have l1: "length (handles ?dc1) = Suc (length (handles dc))"
        using None by (simp add: nextHandle_handles)
      then have "Suc (length (handles dc)) < 65536"
        using run_handles_length [OF r] Cons.prems(3) by simp
      then have "unat (of_nat (Suc (length (handles dc))) :: WORD) = Suc (length (handles dc))"
        by (intro unat_of_nat_WORD) simp
      then have h1: "unat (nHandles (header ?dc1)) = Suc (length (handles dc))"
        using None by (simp add: nextHandle_header del: of_nat_Suc)
      have "unat (nHandles (header ?dc1)) \<le> unat (nHandles (header dc')) \<and>
            unat (nHandles (header dc')) \<le> length (handles dc')"
        using Cons.IH [of ?dc1] r h1 l1 Cons.prems(3) by simp
      then show ?thesis using h1 Cons.prems(1) by linarith
    next
      case (Some i)
      have h1: "header ?dc1 = header dc" using Some by (simp add: nextHandle_header)
      have l1: "length (handles ?dc1) = length (handles dc)"
        using Some by (simp add: nextHandle_handles)
      show ?thesis using Cons.IH [of ?dc1] r h1 l1 Cons.prems(1,3) by simp
    qed
  next
    case (ClearHandle h)
    let ?dc1 = "clearHandle h dc"
    have "header ?dc1 = header dc" "length (handles ?dc1) = length (handles dc)"
      by (simp_all add: clearHandle_def)
    then show ?thesis using Cons.IH [of ?dc1] Cons.prems ClearHandle by simp
  next
    case (AppendRecord r)
    let ?dc1 = "appendRecord r dc"
    have "nHandles (header ?dc1) = nHandles (header dc)" "handles ?dc1 = handles dc"
      by (simp_all add: appendRecord_def)
    then show ?thesis using Cons.IH [of ?dc1] Cons.prems AppendRecord by simp
  next
    case (AppendHandle r)
    let ?dc1 = "appendHandle r dc"
    have "nHandles (header ?dc1) = nHandles (header dc)" "handles ?dc1 = handles dc"
      by (simp_all add: appendHandle_def)
    then show ?thesis using Cons.IH [of ?dc1] Cons.prems AppendHandle by simp
  next
    case (MergePoint p)
    then obtain dc1 where m: "mergePoint p dc = Inr dc1" and r: "run cs dc1 = Inr dc'"
      using Cons.prems(2) by (auto simp: andThen_eq_Inr)
    have "nHandles (header dc1) = nHandles (header dc)" "handles dc1 = handles dc"
      using mergePoint_frame [OF m] by simp_all
    then show ?thesis using Cons.IH [of dc1] Cons.prems r by simp
  qed
qed


lemma replicate_True_nth: "j < n \<Longrightarrow> replicate n True ! j"
  by simp

lemma nextHandle_all_used:
  assumes "handles dc = replicate n True"
  shows "nextHandle dc =
           (of_nat n,
            dc\<lparr>handles := replicate (Suc n) True,
               header := (header dc)\<lparr>nHandles := of_nat (Suc n)\<rparr>\<rparr>)"
proof -
  have "scan (handles dc) 1 = None" using assms by (intro scan_all_used) simp
  then show ?thesis using assms
    by (simp add: nextHandle_extends replicate_append_same del: of_nat_Suc)
qed

lemma snd_nextHandles_Suc:
  "snd (nextHandles (Suc k) dc) = snd (nextHandles k (snd (nextHandle dc)))"
  by (simp split: prod.splits)

lemma nextHandles_all_used:
  "handles dc = replicate n True \<Longrightarrow>
   handles (snd (nextHandles (Suc k) dc)) = replicate (n + Suc k) True \<and>
   nHandles (header (snd (nextHandles (Suc k) dc))) = of_nat (n + Suc k)"
proof (induction k arbitrary: dc n)
  case 0
  then show ?case by (simp add: nextHandle_all_used del: of_nat_Suc)
next
  case (Suc k)
  let ?dc1 = "dc\<lparr>handles := replicate (Suc n) True,
                  header := (header dc)\<lparr>nHandles := of_nat (Suc n)\<rparr>\<rparr>"
  have nh: "nextHandle dc = (of_nat n, ?dc1)" using Suc.prems by (rule nextHandle_all_used)
  have "handles ?dc1 = replicate (Suc n) True" by simp
  from Suc.IH [OF this] have
    "handles (snd (nextHandles (Suc k) ?dc1)) = replicate (Suc n + Suc k) True \<and>
     nHandles (header (snd (nextHandles (Suc k) ?dc1))) = of_nat (Suc n + Suc k)" .
  then show ?case using nh
    by (simp add: snd_nextHandles_Suc [of "Suc k"] del: of_nat_Suc nextHandles.simps)
qed

lemma init_None_None:
  "init None None =
     Inr \<lparr>header = default_ENHMETAHEADER
            \<lparr>rclBounds := \<lparr>left = - 10, top' = - 10, right = 10, bottom = 10\<rparr>,
             rclFrame := \<lparr>left = - 313, top' = - 313, right = 313, bottom = 313\<rparr>\<rparr>,
          records = [],
          viewport_ext = SIZEL 1 1,
          viewport_org = POINTL 0 0,
          window_ext = SIZEL 1 1,
          window_org = POINTL 0 0,
          update_frame = True,
          min_device_point = POINTL 0 0,
          max_device_point = POINTL 0 0,
          handles = [True]\<rparr>"
  by (simp add: init_def new_ENHMETAHEADER_def default_ENHMETAHEADER_def frame_edge_def float_eval
    XMAX_PIXELS_def YMAX_PIXELS_def XMAX_MM_def YMAX_MM_def cong: andThen_weak_cong)


lemma nextHandle_smallest_free:
  assumes "\<exists>i. 1 \<le> i \<and> i < length (handles dc) \<and> \<not> handles dc ! i"
    and "length (handles dc) < 2 ^ 32"
  shows "1 \<le> unat (fst (nextHandle dc)) \<and> unat (fst (nextHandle dc)) < length (handles dc) \<and>
         \<not> handles dc ! unat (fst (nextHandle dc)) \<and>
         (\<forall>j. 1 \<le> j \<and> j < unat (fst (nextHandle dc)) \<longrightarrow> handles dc ! j) \<and>
         handles (snd (nextHandle dc)) = (handles dc)[unat (fst (nextHandle dc)) := True]"
proof -
  obtain r where r: "scan (handles dc) 1 = Some r"
    using scan_None [of "handles dc" 1] assms(1) by (cases "scan (handles dc) 1") auto
  then have rp: "1 \<le> r" "r < length (handles dc)" "\<not> handles dc ! r"
    "\<forall>j. 1 \<le> j \<and> j < r \<longrightarrow> handles dc ! j"
    using scan_Some [of "handles dc" 1 r] by auto
  have u: "unat (of_nat r :: DWORD) = r" using rp(2) assms(2) by (intro unat_of_nat_DWORD) simp
  show ?thesis using rp u by (simp add: nextHandle_found [OF r])
qed

lemma nextHandle_no_free:
  assumes "\<forall>i. 1 \<le> i \<and> i < length (handles dc) \<longrightarrow> handles dc ! i"
    and "length (handles dc) < 2 ^ 32"
  shows "unat (fst (nextHandle dc)) = length (handles dc) \<and>
         handles (snd (nextHandle dc)) = handles dc @ [True]"
proof -
  have n: "scan (handles dc) 1 = None" using assms(1) by (intro scan_all_used) simp
  show ?thesis using assms(2) by (simp add: nextHandle_extends [OF n] unat_of_nat_DWORD)
qed

text \<open>
  C5. Handle allocation is first-fit over the bit vector of used slots, scanned
  from index 1. In a context whose table is not empty (\<open>init\<close> puts slot 0
  there) and has fewer than \<open>2 ^ 32\<close> slots, \<open>nextHandle\<close> never returns
  0; when a slot from index 1 on is free it returns the smallest free index,
  marks that slot and leaves the table's length alone; when none is free it
  appends a slot and returns its index; and a handle \<open>h\<close> released by
  \<open>clearHandle\<close> is returned again by one of the next \<open>h\<close> allocations.
\<close>

theorem nextHandle_first_fit:
  assumes "handles dc \<noteq> []" and "length (handles dc) < 2 ^ 32"
  shows "fst (nextHandle dc) \<noteq> 0 \<and>
    ((\<exists>i. 1 \<le> i \<and> i < length (handles dc) \<and> \<not> handles dc ! i) \<longrightarrow>
       1 \<le> unat (fst (nextHandle dc)) \<and> unat (fst (nextHandle dc)) < length (handles dc) \<and>
       \<not> handles dc ! unat (fst (nextHandle dc)) \<and>
       (\<forall>j. 1 \<le> j \<and> j < unat (fst (nextHandle dc)) \<longrightarrow> handles dc ! j) \<and>
       handles (snd (nextHandle dc)) = (handles dc)[unat (fst (nextHandle dc)) := True]) \<and>
    ((\<forall>i. 1 \<le> i \<and> i < length (handles dc) \<longrightarrow> handles dc ! i) \<longrightarrow>
       unat (fst (nextHandle dc)) = length (handles dc) \<and>
       handles (snd (nextHandle dc)) = handles dc @ [True]) \<and>
    (1 \<le> unat h \<and> unat h < length (handles dc) \<longrightarrow>
       h \<in> set (fst (nextHandles (unat h) (clearHandle h dc))))"
  using nextHandle_not_0 [OF assms] nextHandle_smallest_free [of dc] nextHandle_no_free [of dc]
    nextHandles_after_clearHandle [of h dc] assms(2)
  by blast

lemma five_handles:
  "nextHandles 5 (projr (init None None)) =
     ([1, 2, 3, 4, 5],
      (projr (init None None))
        \<lparr>handles := [True, True, True, True, True, True],
         header := (header (projr (init None None)))\<lparr>nHandles := 6\<rparr>\<rparr>)"
  by (simp add: init_None_None eval_nat_numeral nextHandle_def scan.simps)

text \<open>
  The theorem at the context that has allocated the handles 1 to 5 and
  released handle 3: the next allocation returns 3, not 6.
\<close>

theorem nextHandle_first_fit_witness:
  "handles (clearHandle 3 (snd (nextHandles 5 (projr (init None None))))) \<noteq> [] \<and>
   length (handles (clearHandle 3 (snd (nextHandles 5 (projr (init None None)))))) < 2 ^ 32 \<and>
   fst (nextHandles 5 (projr (init None None))) = [1, 2, 3, 4, 5] \<and>
   fst (nextHandle (clearHandle 3 (snd (nextHandles 5 (projr (init None None)))))) = 3 \<and>
   fst (nextHandle (clearHandle 3 (snd (nextHandles 5 (projr (init None None)))))) \<noteq> 6"
proof -
  let ?dc = "clearHandle 3 (snd (nextHandles 5 (projr (init None None))))"
  have hs: "handles ?dc = [True, True, True, False, True, True]"
    by (simp add: five_handles clearHandle_def)
  have a: "handles ?dc \<noteq> []" and b: "length (handles ?dc) < 2 ^ 32" using hs by simp_all
  have free: "\<exists>i. 1 \<le> i \<and> i < length (handles ?dc) \<and> \<not> handles ?dc ! i"
    using hs by (intro exI [of _ 3]) simp
  from nextHandle_first_fit [OF a b, of 3] free
  have r: "1 \<le> unat (fst (nextHandle ?dc))" "unat (fst (nextHandle ?dc)) < 6"
    "\<not> handles ?dc ! unat (fst (nextHandle ?dc))"
    using hs by auto
  have "unat (fst (nextHandle ?dc)) = 3"
    using r hs by (auto simp: nth_Cons' less_Suc_eq eval_nat_numeral split: if_splits)
  then have "fst (nextHandle ?dc) = 3" by (simp add: word_unat_eq_iff)
  then show ?thesis using a b by (simp add: five_handles)
qed


lemma nextHandle_same_length:
  "length (handles (snd (nextHandle dc))) = length (handles dc) \<Longrightarrow>
   header (snd (nextHandle dc)) = header dc"
  by (cases "scan (handles dc) 1") (simp_all add: nextHandle_def)

lemma nextHandle_extends_header:
  "length (handles (snd (nextHandle dc))) \<noteq> length (handles dc) \<Longrightarrow>
   handles (snd (nextHandle dc)) = handles dc @ [True] \<and>
   header (snd (nextHandle dc)) =
     (header dc)\<lparr>nHandles := of_nat (length (handles (snd (nextHandle dc))))\<rparr>"
  by (cases "scan (handles dc) 1") (simp_all add: nextHandle_def)


text \<open>
  C10, as amended. \<open>clearHandle\<close> returns for every handle value (it has no
  failure), keeps the length of the table and the whole header; out of range it
  changes nothing, in range it clears that slot's bit only. \<open>nextHandle\<close>
  changes the header only when it extends the table, and then it appends one
  used slot and stores the new size of the table in \<open>nHandles\<close>, a 16-bit
  field. Over any sequence of calls that starts where \<open>nHandles\<close> is at most
  the size of the table (0 and 1 after \<open>init\<close>) and ends with a table of
  fewer than 65536 slots, \<open>nHandles\<close> at the end is not below
  \<open>nHandles\<close> at the start.
\<close>

theorem clearHandle_frame:
  "length (handles (clearHandle h dc)) = length (handles dc) \<and>
   header (clearHandle h dc) = header dc \<and>
   (length (handles dc) \<le> unat h \<longrightarrow> clearHandle h dc = dc) \<and>
   (unat h < length (handles dc) \<longrightarrow>
      clearHandle h dc = dc\<lparr>handles := (handles dc)[unat h := False]\<rparr>) \<and>
   (length (handles (snd (nextHandle dc))) = length (handles dc) \<longrightarrow>
      header (snd (nextHandle dc)) = header dc) \<and>
   (length (handles (snd (nextHandle dc))) \<noteq> length (handles dc) \<longrightarrow>
      handles (snd (nextHandle dc)) = handles dc @ [True] \<and>
      header (snd (nextHandle dc)) =
        (header dc)\<lparr>nHandles := of_nat (length (handles (snd (nextHandle dc))))\<rparr>) \<and>
   (unat (nHandles (header dc)) \<le> length (handles dc) \<and>
    run cs dc = Inr dc' \<and> length (handles dc') < 65536 \<longrightarrow>
      unat (nHandles (header dc)) \<le> unat (nHandles (header dc')))"
  using run_nHandles_mono_table [of dc cs dc'] nextHandle_same_length [of dc]
    nextHandle_extends_header [of dc]
  by (simp add: clearHandle_def)

lemma run_example:
  "run [NextHandle, NextHandle, ClearHandle 1, NextHandle] (projr (init None None)) =
     Inr ((projr (init None None))
            \<lparr>handles := [True, True, True],
             header := (header (projr (init None None)))\<lparr>nHandles := 3\<rparr>\<rparr>)"
  by (simp add: init_None_None nextHandle_def clearHandle_def scan.simps)

text \<open>
  The theorem in a new context: handle 7 is out of range, handle 0 in range,
  an allocation after a release does not extend the table, the first
  allocation extends it to two slots and stores 2, and four calls take
  \<open>nHandles\<close> from 0 to 3.
\<close>

theorem clearHandle_frame_witness:
  "length (handles (projr (init None None))) \<le> unat (7 :: DWORD) \<and>
   clearHandle 7 (projr (init None None)) = projr (init None None) \<and>
   unat (0 :: DWORD) < length (handles (projr (init None None))) \<and>
   clearHandle 0 (projr (init None None)) = (projr (init None None))\<lparr>handles := [False]\<rparr> \<and>
   length (handles (snd (nextHandle (clearHandle 1 (snd (nextHandle (projr (init None None))))))))
     = length (handles (clearHandle 1 (snd (nextHandle (projr (init None None)))))) \<and>
   header (snd (nextHandle (clearHandle 1 (snd (nextHandle (projr (init None None)))))))
     = header (clearHandle 1 (snd (nextHandle (projr (init None None))))) \<and>
   length (handles (snd (nextHandle (projr (init None None)))))
     \<noteq> length (handles (projr (init None None))) \<and>
   handles (snd (nextHandle (projr (init None None)))) = [True, True] \<and>
   nHandles (header (snd (nextHandle (projr (init None None))))) = 2 \<and>
   unat (nHandles (header (projr (init None None)))) \<le> length (handles (projr (init None None))) \<and>
   run [NextHandle, NextHandle, ClearHandle 1, NextHandle] (projr (init None None)) =
     Inr (projr (run [NextHandle, NextHandle, ClearHandle 1, NextHandle] (projr (init None None)))) \<and>
   length (handles (projr (run [NextHandle, NextHandle, ClearHandle 1, NextHandle]
                             (projr (init None None))))) < 65536 \<and>
   unat (nHandles (header (projr (init None None)))) \<le>
     unat (nHandles (header (projr (run [NextHandle, NextHandle, ClearHandle 1, NextHandle]
                                      (projr (init None None))))))"
proof -
  let ?dc0 = "projr (init None None)"
  let ?cs = "[NextHandle, NextHandle, ClearHandle 1, NextHandle]"
  let ?dc2 = "clearHandle 1 (snd (nextHandle ?dc0))"
  have hs: "handles ?dc0 = [True]" and n0: "nHandles (header ?dc0) = 0"
    by (simp_all add: init_None_None default_ENHMETAHEADER_def)
  have l2: "length (handles (snd (nextHandle ?dc2))) = length (handles ?dc2)"
    by (simp add: init_None_None nextHandle_def clearHandle_def scan.simps)
  have l1: "length (handles (snd (nextHandle ?dc0))) \<noteq> length (handles ?dc0)"
    by (simp add: init_None_None nextHandle_def scan.simps)
  have r: "run ?cs ?dc0 = Inr (projr (run ?cs ?dc0))"
    by (simp only: run_example sum.sel)
  have "handles (projr (run ?cs ?dc0)) = [True, True, True]"
    by (simp only: run_example sum.sel) simp
  then have lr: "length (handles (projr (run ?cs ?dc0))) < 65536" by simp
  show ?thesis
    using clearHandle_frame [of 7 ?dc0 ?cs "projr (run ?cs ?dc0)"]
      clearHandle_frame [of 0 ?dc0 "[]" ?dc0]
      clearHandle_frame [of 0 ?dc2 "[]" ?dc2] hs n0 l2 l1 r lr
    by simp
qed

text \<open>
  C10 as stated fails where the table reaches 65536 slots: after 65534
  allocations in a new context, none of them released, \<open>nHandles\<close> is
  65535, and the next allocation takes it to 0.
\<close>

theorem nHandles_wraps:
  "unat (nHandles (header (snd (nextHandle (snd (nextHandles 65534 (projr (init None None))))))))
     < unat (nHandles (header (snd (nextHandles 65534 (projr (init None None))))))"
proof -
  let ?dc0 = "projr (init None None)"
  have "handles ?dc0 = replicate 1 True" by (simp add: init_None_None)
  from nextHandles_all_used [OF this, of 65533]
  have a: "handles (snd (nextHandles 65534 ?dc0)) = replicate 65535 True"
    and b: "nHandles (header (snd (nextHandles 65534 ?dc0))) = 65535"
    by simp_all
  show ?thesis by (simp add: nextHandle_all_used [OF a] b)
qed

section \<open>Appending records\<close>

text \<open>
  C6 at a new context and an end-of-file record: \<open>appendHandle\<close> appends
  the record, adds its 20 bytes to \<open>nBytes\<close> and 1 to \<open>nRecords\<close>, and
  leaves \<open>nHandles\<close> at 0; its result is the one of \<open>appendRecord\<close>.
\<close>

theorem appendHandle_same_as_appendRecord:
  "appendHandle (Eof new_EMREOF) (projr (init None None)) =
     (projr (init None None))
       \<lparr>records := [Eof new_EMREOF],
        header := (header (projr (init None None)))\<lparr>nBytes := 128, nRecords := 2\<rparr>\<rparr> \<and>
   nHandles (header (appendHandle (Eof new_EMREOF) (projr (init None None)))) = 0 \<and>
   nHandles (header (projr (init None None))) = 0 \<and>
   appendHandle (Eof new_EMREOF) (projr (init None None)) =
     appendRecord (Eof new_EMREOF) (projr (init None None))"
  by (simp add: init_None_None appendHandle_def appendRecord_def size'_def new_EMREOF_def
    default_ENHMETAHEADER_def sizeof_EMREOF_def sizeof_ENHMETAHEADER_def)

lemma appendRecord_effect:
  "records (appendRecord r dc) = records dc @ [r] \<and>
   nBytes (header (appendRecord r dc)) = nBytes (header dc) + word_of_int (size' r) \<and>
   nRecords (header (appendRecord r dc)) = nRecords (header dc) + 1 \<and>
   nHandles (header (appendRecord r dc)) = nHandles (header dc)"
  by (simp add: appendRecord_def)

section \<open>The codec on explicit streams\<close>

lemma fread_stream:
  "0 < sz \<Longrightarrow> fread sz n (DATASTREAM s (FILE u w r)) =
     (if length u < sz * n then Inl (runtime_error ''Premature EOF on EMF stream'')
      else Inr (take (sz * n) u, DATASTREAM s (FILE (drop (sz * n) u) w r)))"
  by (auto simp: fread_def Let_def min_def less_mult_imp_div_less div_less_iff_less_mult
     dest: less_mult_imp_div_less) (metis div_less_iff_less_mult mult.commute not_le)+

lemma fwrite_stream:
  "0 < sz \<Longrightarrow> fwrite p sz n (DATASTREAM s (FILE u w r)) =
     (if r < sz * n then Inl (runtime_error ''error writing EMF stream'')
      else Inr (DATASTREAM s (FILE u (w @ take (sz * n) p) (r - sz * n))))"
  by (auto simp: fwrite_def Let_def min_def) (metis div_less_iff_less_mult mult.commute not_le)+


lemma le_bytes_2: "le_bytes 2 w = [ucast w, ucast (drop_bit 8 w)]"
  by (simp add: le_bytes_def upt_rec numeral_2_eq_2)

lemma le_bytes_4:
  "le_bytes 4 w = [ucast w, ucast (drop_bit 8 w), ucast (drop_bit 16 w), ucast (drop_bit 24 w)]"
  by (simp add: le_bytes_def upt_rec eval_nat_numeral)

lemma length_le_bytes [simp]: "length (le_bytes n w) = n"
  by (simp add: le_bytes_def)

lemma le_word_le_bytes_4 [simp]: "le_word (le_bytes 4 w) = (w :: DWORD)"
proof (rule bit_word_eqI)
  fix n :: nat
  assume "n < LENGTH(32)"
  then have n: "n < 32" by simp
  consider "n < 8" | "8 \<le> n" "n < 16" | "16 \<le> n" "n < 24" | "24 \<le> n"
    by linarith
  then show "bit (le_word (le_bytes 4 w) :: DWORD) n = bit w n"
    using n by cases (auto simp add: le_word_def le_bytes_4 bit_simps)
qed

lemma le_word_le_bytes_2 [simp]: "le_word (le_bytes 2 w) = (w :: WORD)"
proof (rule bit_word_eqI)
  fix n :: nat
  assume "n < LENGTH(16)"
  then have n: "n < 16" by simp
  consider "n < 8" | "8 \<le> n" by linarith
  then show "bit (le_word (le_bytes 2 w) :: WORD) n = bit w n"
    using n by cases (auto simp add: le_word_def le_bytes_2 bit_simps)
qed

lemma get_BYTE_stream:
  "get_BYTE (DATASTREAM s (FILE u w r)) =
     (case u of [] \<Rightarrow> Inl (runtime_error ''Premature EOF on EMF stream'')
      | b # u' \<Rightarrow> Inr (b, DATASTREAM s (FILE u' w r)))"
  by (cases u) (simp_all add: get_BYTE_def fread_stream)

lemma get_WORD_stream:
  "get_WORD (DATASTREAM s (FILE u w r)) =
     (if length u < 2 then Inl (runtime_error ''Premature EOF on EMF stream'')
      else Inr (le_word (take 2 u), DATASTREAM s (FILE (drop 2 u) w r)))"
proof (cases u)
  case Nil
  then show ?thesis by (simp add: get_WORD_def fread_stream)
next
  case (Cons a u1)
  then show ?thesis
    by (cases u1) (simp_all add: get_WORD_def fread_stream host_value_def)
qed

lemma get_DWORD_stream:
  "get_DWORD (DATASTREAM s (FILE u w r)) =
     (if length u < 4 then Inl (runtime_error ''Premature EOF on EMF stream'')
      else Inr (le_word (take 4 u), DATASTREAM s (FILE (drop 4 u) w r)))"
proof (cases u)
  case Nil
  then show ?thesis by (simp add: get_DWORD_def fread_stream)
next
  case c1: (Cons a u1)
  show ?thesis
  proof (cases u1)
    case Nil
    then show ?thesis using c1 by (simp add: get_DWORD_def fread_stream)
  next
    case c2: (Cons b u2)
    show ?thesis
    proof (cases u2)
      case Nil
      then show ?thesis using c1 c2 by (simp add: get_DWORD_def fread_stream)
    next
      case c3: (Cons c u3)
      then show ?thesis using c1 c2
        by (cases u3) (simp_all add: get_DWORD_def fread_stream host_value_def)
    qed
  qed
qed

lemma put_BYTE_stream:
  "put_BYTE b (DATASTREAM s (FILE u w r)) =
     (if r < 1 then Inl (runtime_error ''error writing EMF stream'')
      else Inr (DATASTREAM s (FILE u (w @ [b]) (r - 1))))"
  by (simp add: put_BYTE_def fwrite_stream)

lemma put_WORD_stream:
  "put_WORD v (DATASTREAM s (FILE u w r)) =
     (if r < 2 then Inl (runtime_error ''error writing EMF stream'')
      else Inr (DATASTREAM s (FILE u (w @ le_bytes 2 v) (r - 2))))"
  by (cases s) (auto simp add: put_WORD_def fwrite_stream host_bytes_def le_bytes_2 Let_def)

lemma put_DWORD_stream:
  "put_DWORD v (DATASTREAM s (FILE u w r)) =
     (if r < 4 then Inl (runtime_error ''error writing EMF stream'')
      else Inr (DATASTREAM s (FILE u (w @ le_bytes 4 v) (r - 4))))"
  by (cases s) (auto simp add: put_DWORD_def fwrite_stream host_bytes_def le_bytes_4 Let_def)


section \<open>Short transfers\<close>

lemma DATASTREAM_cases:
  "(\<And>s u w r. ds = DATASTREAM s (FILE u w r) \<Longrightarrow> P) \<Longrightarrow> P"
  by (metis DATASTREAM.exhaust FILE.exhaust)

lemma get_BYTE_short:
  "length (unread (fp' ds)) < 1 \<Longrightarrow> get_BYTE ds = Inl (runtime_error ''Premature EOF on EMF stream'')"
  by (cases ds rule: DATASTREAM_cases) (simp add: get_BYTE_stream)

lemma get_WORD_short:
  "length (unread (fp' ds)) < 2 \<Longrightarrow> get_WORD ds = Inl (runtime_error ''Premature EOF on EMF stream'')"
  by (cases ds rule: DATASTREAM_cases) (simp add: get_WORD_stream)

lemma get_DWORD_short:
  "length (unread (fp' ds)) < 4 \<Longrightarrow> get_DWORD ds = Inl (runtime_error ''Premature EOF on EMF stream'')"
  by (cases ds rule: DATASTREAM_cases) (simp add: get_DWORD_stream)

lemma get_CHARSTR_short:
  "length (unread (fp' ds)) < n \<Longrightarrow> get_CHARSTR n ds = Inl (runtime_error ''Premature EOF on EMF stream'')"
  by (cases ds rule: DATASTREAM_cases) (simp add: get_CHARSTR_def fread_stream)

lemma put_BYTE_short:
  "room (fp' ds) < 1 \<Longrightarrow> put_BYTE b ds = Inl (runtime_error ''error writing EMF stream'')"
  by (cases ds rule: DATASTREAM_cases) (simp add: put_BYTE_stream)

lemma put_WORD_short:
  "room (fp' ds) < 2 \<Longrightarrow> put_WORD v ds = Inl (runtime_error ''error writing EMF stream'')"
  by (cases ds rule: DATASTREAM_cases) (simp add: put_WORD_stream)

lemma put_DWORD_short:
  "room (fp' ds) < 4 \<Longrightarrow> put_DWORD v ds = Inl (runtime_error ''error writing EMF stream'')"
  by (cases ds rule: DATASTREAM_cases) (simp add: put_DWORD_stream)

lemma put_CHARSTR_short:
  "n \<le> length (buffer p) \<Longrightarrow> room (fp' ds) < n \<Longrightarrow>
   put_CHARSTR p n ds = Inl (runtime_error ''error writing EMF stream'')"
  by (cases ds rule: DATASTREAM_cases) (simp add: put_CHARSTR_def fwrite_stream)

text \<open>An array of elements of k bytes each: the loop throws where the bytes run out.\<close>

lemma get_array_short:
  assumes short: "\<And>s u w r. length u < k \<Longrightarrow>
      get (DATASTREAM s (FILE u w r)) = Inl (runtime_error ''Premature EOF on EMF stream'')"
    and long: "\<And>s u w r. k \<le> length u \<Longrightarrow>
      \<exists>v. get (DATASTREAM s (FILE u w r)) = Inr (v, DATASTREAM s (FILE (drop k u) w r))"
  shows "length u < k * n \<Longrightarrow>
    get_array get n (DATASTREAM s (FILE u w r)) = Inl (runtime_error ''Premature EOF on EMF stream'')"
proof (induction n arbitrary: u)
  case 0
  then show ?case by simp
next
  case (Suc n)
  show ?case
  proof (cases "length u < k")
    case True
    then show ?thesis by (simp add: short)
  next
    case False
    then obtain v where v: "get (DATASTREAM s (FILE u w r)) = Inr (v, DATASTREAM s (FILE (drop k u) w r))"
      using long [of u s w r] by auto
    have "length (drop k u) < k * n" using Suc.prems False by simp
    then show ?thesis using Suc.IH v by simp
  qed
qed

section \<open>Writers and readers of structures\<close>

lemma emits_puts_Nil: "emits (puts []) []"
  by (simp add: emits_def)

lemma emits_puts_Cons:
  "emits p b \<Longrightarrow> emits (puts ps) bs \<Longrightarrow> emits (puts (p # ps)) (b @ bs)"
  by (auto simp: emits_def)

lemma emits_put_BYTE: "emits (put_BYTE v) [v]"
  by (simp add: emits_def put_BYTE_stream)

lemma emits_put_WORD: "emits (put_WORD v) (le_bytes 2 v)"
  by (simp add: emits_def put_WORD_stream)

lemma emits_put_DWORD: "emits (put_DWORD v) (le_bytes 4 v)"
  by (simp add: emits_def put_DWORD_stream)

lemma emits_short:
  "emits p bs \<Longrightarrow> room (fp' ds) < length bs \<Longrightarrow> p ds = Inl (runtime_error ''error writing EMF stream'')"
  by (cases ds rule: DATASTREAM_cases) (simp add: emits_def)

lemma emits_Inr:
  "emits p bs \<Longrightarrow> p ds = Inr ds' \<Longrightarrow>
   length bs \<le> room (fp' ds) \<and> written (fp' ds') = written (fp' ds) @ bs \<and>
   unread (fp' ds') = unread (fp' ds) \<and> room (fp' ds') = room (fp' ds) - length bs \<and>
   swap' ds' = swap' ds"
  by (cases ds rule: DATASTREAM_cases) (auto simp: emits_def split: if_splits)

lemma emits_put_array:
  assumes e: "\<And>x. emits (put x) (enc x)"
  shows "n \<le> length xs \<Longrightarrow> emits (put_array put xs n) (concat (map enc (take n xs)))"
proof (induction xs arbitrary: n)
  case Nil
  then show ?case by (simp add: emits_def)
next
  case (Cons x xs)
  show ?case
  proof (cases n)
    case 0
    then show ?thesis by (simp add: emits_def)
  next
    case (Suc m)
    then have "emits (put_array put xs m) (concat (map enc (take m xs)))"
      using Cons by simp
    then show ?thesis using e [of x] Suc by (auto simp: emits_def)
  qed
qed


lemma emits_eta: "(\<And>ds. p ds = q ds) \<Longrightarrow> emits q bs \<Longrightarrow> emits p bs"
  by (simp add: emits_def)

lemma emits_bytes: "emits p bs \<Longrightarrow> bs = bs' \<Longrightarrow> emits p bs'"
  by simp

lemmas emits_intros = emits_puts_Cons emits_puts_Nil emits_put_BYTE emits_put_WORD emits_put_DWORD

lemma emits_put_RECTL: "emits (put_RECTL r) (bytes_RECTL r)"
  unfolding put_RECTL_def [abs_def]
  by (rule emits_bytes, (rule emits_intros)+) (simp add: bytes_RECTL_def)

lemma emits_put_SIZEL: "emits (put_SIZEL r) (bytes_SIZEL r)"
  unfolding put_SIZEL_def [abs_def]
  by (rule emits_bytes, (rule emits_intros)+) (simp add: bytes_SIZEL_def)

lemma emits_put_EMR: "emits (put_EMR r) (bytes_EMR r)"
  unfolding put_EMR_def [abs_def]
  by (rule emits_bytes, (rule emits_intros)+) (simp add: bytes_EMR_def)

lemma emits_put_POINTL: "emits (put_POINTL r) (bytes_POINTL r)"
  unfolding put_POINTL_def [abs_def]
  by (rule emits_bytes, (rule emits_intros)+) (simp add: bytes_POINTL_def)

lemma emits_put_POINT16: "emits (put_POINT16 r) (bytes_POINT16 r)"
  unfolding put_POINT16_def [abs_def]
  by (rule emits_bytes, (rule emits_intros)+) (simp add: bytes_POINT16_def)

lemma emits_put_EMRTEXT: "emits (put_EMRTEXT r) (bytes_EMRTEXT r)"
  unfolding put_EMRTEXT_def [abs_def]
  by (rule emits_bytes, (rule emits_intros emits_put_POINTL emits_put_RECTL)+) (simp add: bytes_EMRTEXT_def)

lemma length_bytes [simp]:
  "length (bytes_RECTL r) = 16" "length (bytes_SIZEL z) = 8" "length (bytes_EMR e) = 8"
  "length (bytes_POINTL p) = 8" "length (bytes_POINT16 q) = 4" "length (bytes_EMRTEXT t) = 40"
  by (simp_all add: bytes_RECTL_def bytes_SIZEL_def bytes_EMR_def bytes_POINTL_def
      bytes_POINT16_def bytes_EMRTEXT_def)

lemma get_WORD_bytes [simp]:
  "get_WORD (DATASTREAM s (FILE (le_bytes 2 v @ rest) w r)) = Inr (v, DATASTREAM s (FILE rest w r))"
  by (simp add: get_WORD_stream)

lemma get_DWORD_bytes [simp]:
  "get_DWORD (DATASTREAM s (FILE (le_bytes 4 v @ rest) w r)) = Inr (v, DATASTREAM s (FILE rest w r))"
  by (simp add: get_DWORD_stream)

lemma get_RECTL_bytes [simp]:
  "get_RECTL (DATASTREAM s (FILE (bytes_RECTL v @ rest) w r)) = Inr (v, DATASTREAM s (FILE rest w r))"
  by (simp add: get_RECTL_def bytes_RECTL_def)

lemma get_SIZEL_bytes [simp]:
  "get_SIZEL (DATASTREAM s (FILE (bytes_SIZEL v @ rest) w r)) = Inr (v, DATASTREAM s (FILE rest w r))"
  by (simp add: get_SIZEL_def bytes_SIZEL_def)

lemma get_EMR_bytes [simp]:
  "get_EMR (DATASTREAM s (FILE (bytes_EMR v @ rest) w r)) = Inr (v, DATASTREAM s (FILE rest w r))"
  by (simp add: get_EMR_def bytes_EMR_def)

lemma get_POINTL_bytes [simp]:
  "get_POINTL (DATASTREAM s (FILE (bytes_POINTL v @ rest) w r)) = Inr (v, DATASTREAM s (FILE rest w r))"
  by (simp add: get_POINTL_def bytes_POINTL_def)

lemma get_POINT16_bytes [simp]:
  "get_POINT16 (DATASTREAM s (FILE (bytes_POINT16 v @ rest) w r)) = Inr (v, DATASTREAM s (FILE rest w r))"
  by (simp add: get_POINT16_def bytes_POINT16_def)

lemma get_EMRTEXT_bytes [simp]:
  "get_EMRTEXT (DATASTREAM s (FILE (bytes_EMRTEXT v @ rest) w r)) = Inr (v, DATASTREAM s (FILE rest w r))"
  by (simp add: get_EMRTEXT_def bytes_EMRTEXT_def)

lemma get_array_bytes:
  assumes g: "\<And>v s rest w r. get (DATASTREAM s (FILE (enc v @ rest) w r)) = Inr (v, DATASTREAM s (FILE rest w r))"
  shows "get_array get (length vs) (DATASTREAM s (FILE (concat (map enc vs) @ rest) w r)) =
           Inr (vs, DATASTREAM s (FILE rest w r))"
  by (induction vs) (simp_all add: g)

lemma get_POINTL_stream:
  "get_POINTL (DATASTREAM s (FILE u w r)) =
     (if length u < 8 then Inl (runtime_error ''Premature EOF on EMF stream'')
      else Inr (POINTL (le_word (take 4 u)) (le_word (take 4 (drop 4 u))),
                DATASTREAM s (FILE (drop 8 u) w r)))"
  by (auto simp add: get_POINTL_def get_DWORD_stream)

lemma get_POINT16_stream:
  "get_POINT16 (DATASTREAM s (FILE u w r)) =
     (if length u < 4 then Inl (runtime_error ''Premature EOF on EMF stream'')
      else Inr (POINT16 (le_word (take 2 u)) (le_word (take 2 (drop 2 u))),
                DATASTREAM s (FILE (drop 4 u) w r)))"
  by (auto simp add: get_POINT16_def get_WORD_stream)


section \<open>Short transfers in arrays and records\<close>

lemma length_concat_enc:
  "(\<And>x. length (enc x) = k) \<Longrightarrow> length (concat (map enc xs)) = k * length xs"
  by (induction xs) simp_all

lemma put_array_short:
  assumes e: "\<And>x. emits (put x) (enc x)" and l: "\<And>x. length (enc x) = k"
  shows "n \<le> length xs \<Longrightarrow> room (fp' ds) < k * n \<Longrightarrow>
    put_array put xs n ds = Inl (runtime_error ''error writing EMF stream'')"
proof -
  assume n: "n \<le> length xs" and r: "room (fp' ds) < k * n"
  have "emits (put_array put xs n) (concat (map enc (take n xs)))"
    using e n by (rule emits_put_array)
  moreover have "length (concat (map enc (take n xs))) = k * n"
    using n by (simp add: length_concat_enc [of enc k] l min_def)
  ultimately show ?thesis using r emits_short [of "put_array put xs n" _ ds] by metis
qed

lemma get_array_short_ds:
  assumes short: "\<And>s u w r. length u < k \<Longrightarrow>
      get (DATASTREAM s (FILE u w r)) = Inl (runtime_error ''Premature EOF on EMF stream'')"
    and long: "\<And>s u w r. k \<le> length u \<Longrightarrow>
      \<exists>v. get (DATASTREAM s (FILE u w r)) = Inr (v, DATASTREAM s (FILE (drop k u) w r))"
  shows "length (unread (fp' ds)) < k * n \<Longrightarrow>
    get_array get n ds = Inl (runtime_error ''Premature EOF on EMF stream'')"
  by (cases ds rule: DATASTREAM_cases) (simp add: get_array_short [of k get, OF short long])

lemma get_DWORD_array_short:
  "length (unread (fp' ds)) < 4 * n \<Longrightarrow>
   get_array get_DWORD n ds = Inl (runtime_error ''Premature EOF on EMF stream'')"
  by (rule get_array_short_ds [of 4]) (simp_all add: get_DWORD_stream)

lemma get_WORD_array_short:
  "length (unread (fp' ds)) < 2 * n \<Longrightarrow>
   get_array get_WORD n ds = Inl (runtime_error ''Premature EOF on EMF stream'')"
  by (rule get_array_short_ds [of 2]) (simp_all add: get_WORD_stream)

lemma get_POINTL_array_short:
  "length (unread (fp' ds)) < 8 * n \<Longrightarrow>
   get_array get_POINTL n ds = Inl (runtime_error ''Premature EOF on EMF stream'')"
  by (rule get_array_short_ds [of 8]) (simp_all add: get_POINTL_stream)

lemma get_POINT16_array_short:
  "length (unread (fp' ds)) < 4 * n \<Longrightarrow>
   get_array get_POINT16 n ds = Inl (runtime_error ''Premature EOF on EMF stream'')"
  by (rule get_array_short_ds [of 4]) (simp_all add: get_POINT16_stream)

lemma puts_short_1:
  "emits p b \<Longrightarrow> room (fp' ds) < length b \<Longrightarrow>
   puts (p # ps) ds = Inl (runtime_error ''error writing EMF stream'')"
  by (simp add: emits_short)

lemma puts_short_2:
  assumes "emits p b" "emits q c" "room (fp' ds) < length b + length c"
  shows "puts (p # q # ps) ds = Inl (runtime_error ''error writing EMF stream'')"
proof -
  have "emits (puts [p, q]) (b @ c @ [])" using assms(1,2) by (intro emits_puts_Cons emits_puts_Nil)
  then have e: "puts [p, q] ds = Inl (runtime_error ''error writing EMF stream'')"
    using assms(3) emits_short [of "puts [p, q]" "b @ c @ []" ds] by simp
  show ?thesis
  proof (cases "p ds")
    case (Inl x)
    then show ?thesis using e by simp
  next
    case (Inr d)
    then show ?thesis using e by (cases "q d") simp_all
  qed
qed

lemma serialize_short:
  assumes r: "room (fp' ds) < 8"
  shows "serialize r ds = Inl (runtime_error ''error writing EMF stream'')"
proof -
  have d: "\<And>a b ps. puts (put_DWORD a # put_DWORD b # ps) ds
      = Inl (runtime_error ''error writing EMF stream'')"
    using r by (intro puts_short_2 [OF emits_put_DWORD emits_put_DWORD]) simp
  have e: "\<And>a ps. puts (put_EMR a # ps) ds = Inl (runtime_error ''error writing EMF stream'')"
    using r by (intro puts_short_1 [OF emits_put_EMR]) simp
  show ?thesis
  proof (cases r)
    case (Header h)
    then show ?thesis by (simp add: serialize_ENHMETAHEADER_def d del: puts.simps)
  next
    case (Eof x)
    then show ?thesis by (simp add: serialize_EMREOF_def e del: puts.simps)
  next
    case (PolyPolygon p)
    then show ?thesis by (simp add: serialize_EMRPOLYPOLYGON_def e del: puts.simps)
  next
    case (PolyPolygon16 p)
    then show ?thesis by (simp add: serialize_EMRPOLYPOLYGON16_def e del: puts.simps)
  next
    case (ExtTextOutA t)
    then show ?thesis
      by (simp add: serialize_EMREXTTEXTOUTA_def e del: puts.simps split: option.splits)
  qed
qed

lemma read_short:
  assumes "length (unread (fp' ds)) < 8"
  shows "get_EMR ds = Inl (runtime_error ''Premature EOF on EMF stream'')"
  using assms
  by (cases ds rule: DATASTREAM_cases) (auto simp add: get_EMR_def get_DWORD_stream)


lemma get_DWORD_2_short:
  assumes "length (unread (fp' ds)) < 8"
  shows "andThen (get_DWORD ds) (\<lambda>(v, ds). andThen (get_DWORD ds) (k v)) =
           Inl (runtime_error ''Premature EOF on EMF stream'')"
  using assms
  by (cases ds rule: DATASTREAM_cases) (auto simp add: get_DWORD_stream)

lemma unserialize_short:
  assumes "length (unread (fp' ds)) < 8"
  shows "unserialize_ENHMETAHEADER h ds = Inl (runtime_error ''Premature EOF on EMF stream'')"
  using assms
  by (cases ds rule: DATASTREAM_cases)
     (auto simp add: unserialize_ENHMETAHEADER_def get_DWORD_stream Let_def cong: andThen_weak_cong)

lemma readers_short:
  assumes "length (unread (fp' ds)) < 8"
  shows "read_EMREOF ds = Inl (runtime_error ''Premature EOF on EMF stream'')"
    and "read_EMRPOLYPOLYGON ds = Inl (runtime_error ''Premature EOF on EMF stream'')"
    and "read_EMRPOLYPOLYGON16 ds = Inl (runtime_error ''Premature EOF on EMF stream'')"
    and "read_EMREXTTEXTOUTA ds = Inl (runtime_error ''Premature EOF on EMF stream'')"
  using assms
  by (simp_all add: read_EMREOF_def read_EMRPOLYPOLYGON_def
      read_EMRPOLYPOLYGON16_def read_EMREXTTEXTOUTA_def read_short
      cong: andThen_weak_cong)

section \<open>Parsing poly-polygon and text records\<close>

lemmas read_eval = get_EMR_def get_RECTL_def get_SIZEL_def get_POINTL_def get_POINT16_def
  get_EMRTEXT_def get_DWORD_stream get_WORD_stream get_DWORDARRAY_def get_INTARRAY_def
  get_POINTLARRAY_def get_POINT16ARRAY_def get_WCHARSTR_def get_CHARSTR_def fread_stream
  le_word_def

lemmas sizeof_defs = sizeof_ENHMETAHEADER_def OffsetOf_szlMicrometers_def sizeof_EMREOF_def
  sizeof_EMRPOLYPOLYGON_def sizeof_EMRPOLYPOLYGON16_def sizeof_EMREXTTEXTOUTA_def
  sizeof_POINTL_def sizeof_POINT16_def sizeof_DWORD_def sizeof_WCHAR_def


lemma sum_counts_eq:
  "sum_counts cs n =
     (if unat n + sum_list (map unat cs) < 2 ^ 32
      then Inr (of_nat (unat n + sum_list (map unat cs)))
      else Inl (runtime_error ''Unsigned overflow''))"
proof (induction cs arbitrary: n)
  case Nil
  have "unat n < 2 ^ 32" using unsigned_less [of n] by simp
  then show ?case by simp
next
  case (Cons c cs)
  show ?case
  proof (cases "n + c < n")
    case True
    then have "\<not> n \<le> n + c" by simp
    then have "\<not> unat n + unat c < 2 ^ 32"
      using no_plus_overflow_unat_size [of n c] by (simp add: word_size)
    then show ?thesis using True by (simp add: Let_def)
  next
    case False
    then have "n \<le> n + c" by simp
    then have "unat n + unat c < 2 ^ 32"
      using no_plus_overflow_unat_size [of n c] by (simp add: word_size)
    then have "unat (n + c) = unat n + unat c" by (simp add: unat_add_lem [THEN iffD1])
    then show ?thesis using False Cons.IH [of "n + c"] by (simp add: Let_def add.assoc)
  qed
qed

text \<open>
  The two checks on the counts that were read, in a record whose size check
  has passed: a sum that overflows 32 bits and a sum above the declared number
  of points are both rejected, and no record results.
\<close>

lemma read_EMRPOLYPOLYGON_counts_rejected:
  fixes np c :: DWORD and cs :: "DWORD list"
  assumes "length cs = unat np"
    and "\<not> ucast (nSize e) - (sizeof_EMRPOLYPOLYGON - sizeof_POINTL - sizeof_DWORD)
           < sizeof_POINTL * ucast c + sizeof_DWORD * ucast np"
    and "unat c < sum_list (map unat cs)"
  shows "\<exists>err. read_EMRPOLYPOLYGON
           (DATASTREAM s (FILE (bytes_EMR e @ bytes_RECTL b @ le_bytes 4 np @ le_bytes 4 c
              @ concat (map (le_bytes 4) cs) @ rest) w r)) = Inl err \<and>
         MalformedRecordError err"
proof -
  have g: "get_DWORDARRAY np (DATASTREAM s (FILE (concat (map (le_bytes 4) cs) @ rest) w r))
      = Inr (cs, DATASTREAM s (FILE rest w r))"
    using get_array_bytes [of get_DWORD "le_bytes 4" cs s rest w r] assms(1)
    by (simp add: get_DWORDARRAY_def)
  have u: "unat c < 2 ^ 32" using unsigned_less [of c] by simp
  show ?thesis
  proof (cases "sum_list (map unat cs) < 2 ^ 32")
    case True
    then have "c < (of_nat (sum_list (map unat cs)) :: DWORD)"
      using assms(3) by (simp add: word_less_nat_alt unat_of_nat)
    then show ?thesis using assms(2) g True
      by (simp add: read_EMRPOLYPOLYGON_def sum_counts_eq MalformedRecordError_def)
  next
    case False
    then show ?thesis using assms(2) g
      by (simp add: read_EMRPOLYPOLYGON_def sum_counts_eq MalformedRecordError_def)
  qed
qed

lemma read_EMRPOLYPOLYGON16_counts_rejected:
  fixes np c :: DWORD and cs :: "DWORD list"
  assumes "length cs = unat np"
    and "\<not> ucast (nSize e) - (sizeof_EMRPOLYPOLYGON16 - sizeof_POINT16 - sizeof_DWORD)
           < sizeof_POINT16 * ucast c + sizeof_DWORD * ucast np"
    and "unat c < sum_list (map unat cs)"
  shows "\<exists>err. read_EMRPOLYPOLYGON16
           (DATASTREAM s (FILE (bytes_EMR e @ bytes_RECTL b @ le_bytes 4 np @ le_bytes 4 c
              @ concat (map (le_bytes 4) cs) @ rest) w r)) = Inl err \<and>
         MalformedRecordError err"
proof -
  have g: "get_DWORDARRAY np (DATASTREAM s (FILE (concat (map (le_bytes 4) cs) @ rest) w r))
      = Inr (cs, DATASTREAM s (FILE rest w r))"
    using get_array_bytes [of get_DWORD "le_bytes 4" cs s rest w r] assms(1)
    by (simp add: get_DWORDARRAY_def)
  show ?thesis
  proof (cases "sum_list (map unat cs) < 2 ^ 32")
    case True
    then have "c < (of_nat (sum_list (map unat cs)) :: DWORD)"
      using assms(3) by (simp add: word_less_nat_alt unat_of_nat)
    then show ?thesis using assms(2) g True
      by (simp add: read_EMRPOLYPOLYGON16_def sum_counts_eq MalformedRecordError_def)
  next
    case False
    then show ?thesis using assms(2) g
      by (simp add: read_EMRPOLYPOLYGON16_def sum_counts_eq MalformedRecordError_def)
  qed
qed

text \<open>The size check, where it fails, rejects before anything else is read.\<close>

lemma read_EMRPOLYPOLYGON_size_rejected:
  fixes np c :: DWORD
  assumes "ucast (nSize e) - (sizeof_EMRPOLYPOLYGON - sizeof_POINTL - sizeof_DWORD)
           < sizeof_POINTL * ucast c + sizeof_DWORD * ucast np"
  shows "read_EMRPOLYPOLYGON
           (DATASTREAM s (FILE (bytes_EMR e @ bytes_RECTL b @ le_bytes 4 np @ le_bytes 4 c @ rest) w r))
         = Inl (runtime_error ''Invalid record size'')"
  using assms by (simp add: read_EMRPOLYPOLYGON_def)

text \<open>
  C2 at a poly-polygon record that declares a total size of 8 bytes with one
  polygon of one point, whose counts and points take 12 bytes behind a fixed
  part of 32: the unsigned difference \<open>nSize - 32\<close> wraps around, the size
  check passes, and both stream constructors return the record with its point
  buffer filled.
\<close>

theorem read_EMRPOLYPOLYGON_accepts_undersized:
  "read_EMRPOLYPOLYGON
     (DATASTREAM False
        (FILE ([8, 0, 0, 0] @ [8, 0, 0, 0] @ [0, 0, 0, 0, 0, 0, 0, 0, 0, 0, 0, 0, 0, 0, 0, 0]
               @ [1, 0, 0, 0] @ [1, 0, 0, 0] @ [1, 0, 0, 0] @ [0, 0, 0, 0, 0, 0, 0, 0]) [] 0)) =
     Inr (\<lparr>pp_emr = \<lparr>iType = 8, nSize = 8\<rparr>,
          pp_rclBounds = \<lparr>left = 0, top' = 0, right = 0, bottom = 0\<rparr>,
          nPolys = 1, cptl = 1, lcounts = Some [1], lpoints = Some [POINTL 0 0]\<rparr>,
          DATASTREAM False (FILE [] [] 0)) \<and>
   read_EMRPOLYPOLYGON16
     (DATASTREAM False
        (FILE ([91, 0, 0, 0] @ [8, 0, 0, 0] @ [0, 0, 0, 0, 0, 0, 0, 0, 0, 0, 0, 0, 0, 0, 0, 0]
               @ [1, 0, 0, 0] @ [1, 0, 0, 0] @ [1, 0, 0, 0] @ [0, 0, 0, 0]) [] 0)) =
     Inr (\<lparr>pp16_emr = \<lparr>iType = 91, nSize = 8\<rparr>,
          pp16_rclBounds = \<lparr>left = 0, top' = 0, right = 0, bottom = 0\<rparr>,
          nPolys16 = 1, cpts = 1, lcounts16 = Some [1], lpoints16 = Some [POINT16 0 0]\<rparr>,
          DATASTREAM False (FILE [] [] 0))"
  by (simp add: read_EMRPOLYPOLYGON_def read_EMRPOLYPOLYGON16_def read_eval sizeof_defs
      cong: andThen_weak_cong)

text \<open>
  C8 at a text record of 76 bytes that declares four characters at string
  offset 1000: the unsigned difference \<open>nSize - offString\<close> wraps around,
  the check passes, and the constructor returns the record with the four bytes
  that follow as its string.
\<close>

theorem read_EMREXTTEXTOUTA_accepts_outside:
  "read_EMREXTTEXTOUTA
     (DATASTREAM False
        (FILE ([83, 0, 0, 0] @ [76, 0, 0, 0] @ [0, 0, 0, 0, 0, 0, 0, 0, 0, 0, 0, 0, 0, 0, 0, 0]
               @ [0, 0, 0, 0] @ [0, 0, 0, 0] @ [0, 0, 0, 0]
               @ [0, 0, 0, 0, 0, 0, 0, 0] @ [4, 0, 0, 0] @ [232, 3, 0, 0] @ [0, 0, 0, 0] @ [0, 0, 0, 0, 0, 0, 0, 0, 0, 0, 0, 0, 0, 0, 0, 0] @ [0, 0, 0, 0]
               @ [97, 98, 99, 100]) [] 0)) =
     Inr (\<lparr>txt_emr = \<lparr>iType = 83, nSize = 76\<rparr>,
          txt_rclBounds = \<lparr>left = 0, top' = 0, right = 0, bottom = 0\<rparr>,
          iGraphicsMode = 0, exScale = 0, eyScale = 0,
          emrtext = \<lparr>ptlReference = POINTL 0 0, nChars = 4, offString = 1000, fOptions = 0,
                     rcl = \<lparr>left = 0, top' = 0, right = 0, bottom = 0\<rparr>, offDx = 0\<rparr>,
          string_a = Some [97, 98, 99, 100], string_size = Some 4, dx_i = None\<rparr>,
          DATASTREAM False (FILE [] [] 0))"
  by (simp add: read_EMREXTTEXTOUTA_def read_eval sizeof_defs ROUND_TO_LONG_def
      cong: andThen_weak_cong)


text \<open>
  The two checks of the text record where they work: a count without a string
  offset, and a count above the bytes between a string offset inside the
  record and its end.
\<close>

lemma read_EMREXTTEXTOUTA_rejected:
  fixes gm xs ys :: DWORD
  assumes "(0 < nChars t \<and> offString t = 0) \<or>
           (offString t \<le> nSize e \<and> unat (nSize e) - unat (offString t) < unat (nChars t))"
  shows "read_EMREXTTEXTOUTA
           (DATASTREAM s (FILE (bytes_EMR e @ bytes_RECTL b @ le_bytes 4 gm @ le_bytes 4 xs
              @ le_bytes 4 ys @ bytes_EMRTEXT t @ rest) w r))
         = Inl (runtime_error ''Invalid text specification'')"
proof -
  have "(0 < nChars t \<and> offString t = 0) \<or> nSize e - offString t < nChars t"
    using assms by (auto simp: word_less_nat_alt unat_sub)
  then show ?thesis by (auto simp add: read_EMREXTTEXTOUTA_def)
qed

section \<open>What serialize writes\<close>


lemma emits_serialize_ENHMETAHEADER:
  assumes "nat (description_size h) \<le> length (buffer (description_w h))"
  shows "emits (serialize_ENHMETAHEADER h) (bytes_ENHMETAHEADER h)"
proof -
  have a: "emits (put_array put_WORD (buffer (description_w h)) (nat (description_size h)))
             (bytes_description h)"
    unfolding bytes_description_def using emits_put_WORD assms by (rule emits_put_array)
  show ?thesis
    unfolding serialize_ENHMETAHEADER_def [abs_def] put_WCHARSTR_def [abs_def]
    by (rule emits_bytes, (rule emits_intros emits_put_RECTL emits_put_SIZEL a)+)
       (simp add: bytes_ENHMETAHEADER_def bytes_ENHMETAHEADER_88_def)
qed

lemma emits_serialize_EMREOF: "emits (serialize_EMREOF r) (bytes_EMREOF r)"
  unfolding serialize_EMREOF_def [abs_def]
  by (rule emits_bytes, (rule emits_intros emits_put_EMR)+) (simp add: bytes_EMREOF_def)

lemma emits_serialize_EMRPOLYPOLYGON:
  assumes "unat (nPolys r) \<le> length (buffer (lcounts r))"
    and "unat (cptl r) \<le> length (buffer (lpoints r))"
  shows "emits (serialize_EMRPOLYPOLYGON r) (bytes_EMRPOLYPOLYGON r)"
proof -
  have a: "emits (put_array put_DWORD (buffer (lcounts r)) (unat (nPolys r)))
             (concat (map (le_bytes 4) (take (unat (nPolys r)) (buffer (lcounts r)))))"
    using emits_put_DWORD assms(1) by (rule emits_put_array)
  have b: "emits (put_array put_POINTL (buffer (lpoints r)) (unat (cptl r)))
             (concat (map bytes_POINTL (take (unat (cptl r)) (buffer (lpoints r)))))"
    using emits_put_POINTL assms(2) by (rule emits_put_array)
  show ?thesis
    unfolding serialize_EMRPOLYPOLYGON_def [abs_def] put_DWORDARRAY_def [abs_def]
      put_POINTLARRAY_def [abs_def]
    by (rule emits_bytes, (rule emits_intros emits_put_EMR emits_put_RECTL a b)+)
       (simp add: bytes_EMRPOLYPOLYGON_def)
qed

lemma emits_serialize_EMRPOLYPOLYGON16:
  assumes "unat (nPolys16 r) \<le> length (buffer (lcounts16 r))"
    and "unat (cpts r) \<le> length (buffer (lpoints16 r))"
  shows "emits (serialize_EMRPOLYPOLYGON16 r) (bytes_EMRPOLYPOLYGON16 r)"
proof -
  have a: "emits (put_array put_DWORD (buffer (lcounts16 r)) (unat (nPolys16 r)))
             (concat (map (le_bytes 4) (take (unat (nPolys16 r)) (buffer (lcounts16 r)))))"
    using emits_put_DWORD assms(1) by (rule emits_put_array)
  have b: "emits (put_array put_POINT16 (buffer (lpoints16 r)) (unat (cpts r)))
             (concat (map bytes_POINT16 (take (unat (cpts r)) (buffer (lpoints16 r)))))"
    using emits_put_POINT16 assms(2) by (rule emits_put_array)
  show ?thesis
    unfolding serialize_EMRPOLYPOLYGON16_def [abs_def] put_DWORDARRAY_def [abs_def]
      put_POINT16ARRAY_def [abs_def]
    by (rule emits_bytes, (rule emits_intros emits_put_EMR emits_put_RECTL a b)+)
       (simp add: bytes_EMRPOLYPOLYGON16_def)
qed

lemma emits_put_CHARSTR:
  "n \<le> length (buffer p) \<Longrightarrow> emits (put_CHARSTR p n) (take n (buffer p))"
  by (simp add: emits_def put_CHARSTR_def fwrite_stream)

lemma emits_serialize_EMREXTTEXTOUTA:
  assumes "string_size r = Some n" "0 \<le> n" "nat n \<le> length (buffer (string_a r))"
    and "dx_i r \<noteq> None \<longrightarrow> unat (nChars (emrtext r)) \<le> length (buffer (dx_i r))"
  shows "emits (serialize_EMREXTTEXTOUTA r) (bytes_EMREXTTEXTOUTA r)"
proof (cases "dx_i r")
  case None
  have "emits (puts [put_EMR (txt_emr r), put_RECTL (txt_rclBounds r), put_DWORD (iGraphicsMode r),
                 put_DWORD (exScale r), put_DWORD (eyScale r), put_EMRTEXT (emrtext r),
                 put_CHARSTR (string_a r) (nat n)]) (bytes_EMREXTTEXTOUTA r)"
    by (rule emits_bytes,
        (rule emits_intros emits_put_EMR emits_put_RECTL emits_put_EMRTEXT
           emits_put_CHARSTR [OF assms(3)])+)
       (simp add: bytes_EMREXTTEXTOUTA_def None assms(1))
  then show ?thesis using None assms(1,2)
    by (simp add: emits_def serialize_EMREXTTEXTOUTA_def del: puts.simps)
next
  case (Some d)
  have a: "emits (put_array put_DWORD (buffer (dx_i r)) (unat (nChars (emrtext r))))
             (concat (map (le_bytes 4) (take (unat (nChars (emrtext r))) (buffer (dx_i r)))))"
    using emits_put_DWORD assms(4) Some by (intro emits_put_array) simp_all
  have "emits (puts [put_EMR (txt_emr r), put_RECTL (txt_rclBounds r), put_DWORD (iGraphicsMode r),
                 put_DWORD (exScale r), put_DWORD (eyScale r), put_EMRTEXT (emrtext r),
                 put_CHARSTR (string_a r) (nat n),
                 put_array put_DWORD (buffer (dx_i r)) (unat (nChars (emrtext r)))])
          (bytes_EMREXTTEXTOUTA r)"
    by (rule emits_bytes,
        (rule emits_intros emits_put_EMR emits_put_RECTL emits_put_EMRTEXT
           emits_put_CHARSTR [OF assms(3)] a)+)
       (simp add: bytes_EMREXTTEXTOUTA_def Some assms(1))
  then show ?thesis using Some assms(1,2)
    by (simp add: emits_def serialize_EMREXTTEXTOUTA_def put_INTARRAY_def [abs_def] del: puts.simps)
qed

lemma emits_serialize: "intact r \<Longrightarrow> emits (serialize r) (bytes_METARECORD r)"
proof (cases r)
  case (Header h)
  assume "intact r"
  then show ?thesis using Header emits_serialize_ENHMETAHEADER [of h]
    by (simp add: emits_def)
next
  case (Eof e)
  then show ?thesis using emits_serialize_EMREOF [of e] by (simp add: emits_def)
next
  case (PolyPolygon p)
  assume "intact r"
  then show ?thesis using PolyPolygon emits_serialize_EMRPOLYPOLYGON [of p]
    by (simp add: emits_def)
next
  case (PolyPolygon16 p)
  assume "intact r"
  then show ?thesis using PolyPolygon16 emits_serialize_EMRPOLYPOLYGON16 [of p]
    by (simp add: emits_def)
next
  case (ExtTextOutA t)
  assume "intact r"
  then show ?thesis using ExtTextOutA emits_serialize_EMREXTTEXTOUTA [of t]
    by (auto simp add: emits_def split: option.splits)
qed


section \<open>Casts between the integer types\<close>

lemma sint_DWORD_nonneg: "unat (x :: DWORD) < 2147483648 \<Longrightarrow> sint x = uint x"
proof -
  assume a: "unat x < 2147483648"
  have p: "0 \<le> uint x" by simp
  then have "uint x < 2147483648" using a unat_eq_nat_uint [of x] by linarith
  moreover have "- 2147483648 \<le> uint x" using p by linarith
  ultimately have "signed_take_bit 31 (uint x) = uint x"
    by (intro signed_take_bit_int_eq_self) simp_all
  then show ?thesis using sint_uint [of x] by simp
qed

lemma scast_nonneg: "unat (x :: DWORD) < 2147483648 \<Longrightarrow> (scast x :: size_t) = ucast x"
  by (simp only: scast_eq ucast_eq sint_DWORD_nonneg)

lemma unat_ucast_up: "unat (ucast (x :: DWORD) :: size_t) = unat x"
  by (simp add: unsigned_ucast_eq take_bit_nat_eq_self less_trans [OF unsigned_less [of x, simplified]])

lemma mod_64_32: "(x::nat) mod 18446744073709551616 mod 4294967296 = x mod 4294967296"
  by (rule mod_mod_cancel) simp

lemma ucast_down_add: "(ucast (a + b :: size_t) :: DWORD) = ucast a + ucast b"
  by (simp add: word_unat_eq_iff unsigned_ucast_eq unat_word_ariths take_bit_eq_mod mod_64_32 mod_simps)

lemma ucast_down_mult: "(ucast (a * b :: size_t) :: DWORD) = ucast a * ucast b"
  by (simp add: word_unat_eq_iff unsigned_ucast_eq unat_word_ariths take_bit_eq_mod mod_64_32 mod_simps)

lemma ucast_up_down: "(ucast (ucast (x :: DWORD) :: size_t) :: DWORD) = x"
  by (rule bit_word_eqI) (simp add: bit_simps)

lemma ucast_down_of_nat: "(ucast (of_nat n :: size_t) :: DWORD) = of_nat n"
  by (simp add: word_unat_eq_iff unsigned_ucast_eq unat_of_nat take_bit_eq_mod mod_64_32)

lemma unat_ROUND_TO_LONG:
  "unat n + 3 < 2 ^ 32 \<Longrightarrow> unat (ROUND_TO_LONG n) = ((unat n + 3) div 4) * 4"
proof -
  assume a: "unat n + 3 < 2 ^ 32"
  have "unat (n + 3) = unat n + 3" using a by (simp add: unat_add_lem [THEN iffD1])
  then have b: "unat ((n + 3) div 4) = (unat n + 3) div 4" by (simp add: unat_div)
  have "unat ((n + 3) div 4) * unat (4 :: DWORD) < 2 ^ 32" using a b by simp
  then have "unat ((n + 3) div 4 * 4) = unat ((n + 3) div 4) * unat (4 :: DWORD)"
    by (simp add: unat_mult_lem [THEN iffD1])
  then show ?thesis using b by (simp add: ROUND_TO_LONG_def)
qed

lemma description_count_bounds:
  "description_count p c n = Some k \<Longrightarrow> c \<le> k \<and> k \<le> c + length p"
  by (induction p c n rule: description_count.induct) (auto split: if_splits)

section \<open>The size of a constructed record\<close>


lemma count_points_length: "count_points cs k a = Some n \<Longrightarrow> k \<le> length cs"
  by (induction cs k a rule: count_points.induct) (auto simp: Let_def split: if_splits)

lemma count_points_range: "count_points cs k a = Some n \<Longrightarrow> a < 2 ^ 31 \<Longrightarrow> n < 2 ^ 31"
  by (induction cs k a rule: count_points.induct) (auto simp: Let_def split: if_splits)

lemma unat_word_of_int_DWORD: "0 \<le> n \<Longrightarrow> n < 2 ^ 31 \<Longrightarrow> unat (word_of_int n :: DWORD) = nat n"
  by (simp add: unat_eq_nat_uint uint_word_of_int take_bit_eq_mod)

lemma size_t_to_DWORD_8:
  "(ucast (44 + 8 * ucast (c - 1) + 4 * ucast (np - 1) :: size_t) :: DWORD) = 32 + 8 * c + 4 * np"
  for c np :: DWORD
  by (simp add: ucast_down_add ucast_down_mult ucast_up_down)

lemma size_t_to_DWORD_4:
  "(ucast (40 + 4 * ucast (c - 1) + 4 * ucast (np - 1) :: size_t) :: DWORD) = 32 + 4 * c + 4 * np"
  for c np :: DWORD
  by (simp add: ucast_down_add ucast_down_mult ucast_up_down)

lemma unat_size_8:
  fixes c np :: DWORD
  assumes "32 + 4 * unat np + 8 * unat c < 2 ^ 31"
  shows "unat (32 + 8 * c + 4 * np) = 32 + 4 * unat np + 8 * unat c"
  using assms by (simp add: unat_word_ariths)

lemma unat_size_4:
  fixes c np :: DWORD
  assumes "32 + 4 * unat np + 4 * unat c < 2 ^ 31"
  shows "unat (32 + 4 * c + 4 * np) = 32 + 4 * unat np + 4 * unat c"
  using assms by (simp add: unat_word_ariths)

lemma sint_DWORD_small: "unat (x :: DWORD) < 2 ^ 31 \<Longrightarrow> sint x = int (unat x)"
  using sint_DWORD_nonneg [of x] by simp


lemma new_EMRPOLYPOLYGON_fields:
  assumes "new_EMRPOLYPOLYGON bounds points counts polygons = Inr r"
  shows "nSize (pp_emr r) = 32 + 8 * cptl r + 4 * nPolys r"
    and "unat (nPolys r) \<le> length (buffer (lcounts r))"
    and "unat (cptl r) \<le> length (buffer (lpoints r))"
proof -
  from assms obtain n where n: "count_points counts (unat polygons) 0 = Some n"
      "0 \<le> n" "n \<le> int (length points)"
    and r: "r = \<lparr>pp_emr = \<lparr>iType = EMR_POLYPOLYGON,
                 nSize = ucast (sizeof_EMRPOLYPOLYGON + sizeof_POINTL * ucast ((word_of_int n :: DWORD) - 1)
                                   + sizeof_DWORD * ucast (polygons - 1))\<rparr>,
                 pp_rclBounds = bounds, nPolys = polygons, cptl = word_of_int n,
                 lcounts = Some (take (unat polygons) counts),
                 lpoints = Some (take (nat n) points)\<rparr>"
    by (auto simp: new_EMRPOLYPOLYGON_def Let_def split: option.splits if_splits)
  have u: "unat (word_of_int n :: DWORD) = nat n"
    using n(1,2) count_points_range [of counts "unat polygons" 0 n]
    by (simp add: unat_word_of_int_DWORD)
  show "nSize (pp_emr r) = 32 + 8 * cptl r + 4 * nPolys r"
    by (simp add: r sizeof_defs size_t_to_DWORD_8)
  show "unat (nPolys r) \<le> length (buffer (lcounts r))"
    using count_points_length [OF n(1)] by (simp add: r buffer_def)
  show "unat (cptl r) \<le> length (buffer (lpoints r))"
    using n(2,3) u by (simp add: r buffer_def)
qed


lemma unat_ucast_WORD: "unat (ucast (x :: WORD) :: DWORD) = unat x"
  by (simp add: unsigned_ucast_eq take_bit_nat_eq_self less_trans [OF unsigned_less [of x, simplified]])

lemma new_EMRPOLYPOLYGON16_fields:
  assumes "new_EMRPOLYPOLYGON16 bounds points counts polygons = Inr r"
  shows "nSize (pp16_emr r) = 32 + 4 * cpts r + 4 * nPolys16 r"
    and "unat (nPolys16 r) \<le> length (buffer (lcounts16 r))"
    and "unat (cpts r) \<le> length (buffer (lpoints16 r))"
proof -
  from assms obtain n where n: "count_points counts (unat polygons) 0 = Some n"
      "0 \<le> n" "n \<le> int (length points)"
    and r: "r = \<lparr>pp16_emr = \<lparr>iType = EMR_POLYPOLYGON16,
                 nSize = ucast (sizeof_EMRPOLYPOLYGON16 + sizeof_POINT16 * ucast ((word_of_int n :: DWORD) - 1)
                                   + sizeof_DWORD * ucast (polygons - 1))\<rparr>,
                 pp16_rclBounds = bounds, nPolys16 = polygons, cpts = word_of_int n,
                 lcounts16 = Some (take (unat polygons) counts),
                 lpoints16 = Some (map (\<lambda>p. POINT16 (ucast (ptl_x p)) (ucast (ptl_y p)))
                           (take (nat n) points))\<rparr>"
    by (auto simp: new_EMRPOLYPOLYGON16_def Let_def split: option.splits if_splits)
  have u: "unat (word_of_int n :: DWORD) = nat n"
    using n(1,2) count_points_range [of counts "unat polygons" 0 n]
    by (simp add: unat_word_of_int_DWORD)
  show "nSize (pp16_emr r) = 32 + 4 * cpts r + 4 * nPolys16 r"
    by (simp add: r sizeof_defs size_t_to_DWORD_4)
  show "unat (nPolys16 r) \<le> length (buffer (lcounts16 r))"
    using count_points_length [OF n(1)] by (simp add: r buffer_def)
  show "unat (cpts r) \<le> length (buffer (lpoints16 r))"
    using n(2,3) u by (simp add: r buffer_def)
qed

lemma new_EMRPOLYPOLYGON16_16_fields:
  assumes "new_EMRPOLYPOLYGON16_16 bounds points counts polygons = Inr r"
  shows "nSize (pp16_emr r) = 32 + 4 * cpts r + 4 * nPolys16 r"
    and "unat (nPolys16 r) \<le> length (buffer (lcounts16 r))"
    and "unat (cpts r) \<le> length (buffer (lpoints16 r))"
proof -
  from assms obtain n where n: "count_points counts (unat polygons) 0 = Some n"
      "0 \<le> n" "n \<le> int (length points)"
    and r: "r = \<lparr>pp16_emr = \<lparr>iType = EMR_POLYPOLYGON16,
                 nSize = ucast (sizeof_EMRPOLYPOLYGON16 + sizeof_POINT16 * ucast ((word_of_int n :: DWORD) - 1)
                                   + sizeof_DWORD * ucast ((ucast polygons :: DWORD) - 1))\<rparr>,
                 pp16_rclBounds = bounds, nPolys16 = ucast polygons, cpts = word_of_int n,
                 lcounts16 = Some (take (unat polygons) counts),
                 lpoints16 = Some (take (nat n) points)\<rparr>"
    by (auto simp: new_EMRPOLYPOLYGON16_16_def Let_def split: option.splits if_splits)
  have u: "unat (word_of_int n :: DWORD) = nat n"
    using n(1,2) count_points_range [of counts "unat polygons" 0 n]
    by (simp add: unat_word_of_int_DWORD)
  show "nSize (pp16_emr r) = 32 + 4 * cpts r + 4 * nPolys16 r"
    by (simp add: r sizeof_defs size_t_to_DWORD_4)
  show "unat (nPolys16 r) \<le> length (buffer (lcounts16 r))"
    using count_points_length [OF n(1)] by (simp add: r buffer_def unat_ucast_WORD)
  show "unat (cpts r) \<le> length (buffer (lpoints16 r))"
    using n(2,3) u by (simp add: r buffer_def)
qed

lemma length_bytes_EMRPOLYPOLYGON:
  assumes "unat (nPolys r) \<le> length (buffer (lcounts r))"
    and "unat (cptl r) \<le> length (buffer (lpoints r))"
  shows "length (bytes_EMRPOLYPOLYGON r) = 32 + 4 * unat (nPolys r) + 8 * unat (cptl r)"
  using assms
  by (simp add: bytes_EMRPOLYPOLYGON_def length_concat_enc [of "le_bytes 4" 4]
      length_concat_enc [of bytes_POINTL 8] length_le_bytes min_def)

lemma length_bytes_EMRPOLYPOLYGON16:
  assumes "unat (nPolys16 r) \<le> length (buffer (lcounts16 r))"
    and "unat (cpts r) \<le> length (buffer (lpoints16 r))"
  shows "length (bytes_EMRPOLYPOLYGON16 r) = 32 + 4 * unat (nPolys16 r) + 4 * unat (cpts r)"
  using assms
  by (simp add: bytes_EMRPOLYPOLYGON16_def length_concat_enc [of "le_bytes 4" 4]
      length_concat_enc [of bytes_POINT16 4] length_le_bytes min_def)


lemma new_EMREXTTEXTOUTA_fields:
  assumes c: "new_EMREXTTEXTOUTA bounds graphicsMode xScale yScale text string dx = Inr r"
    and b: "unat (nChars text) < 2 ^ 28"
  shows "intact (ExtTextOutA r)"
    and "int (length (bytes_EMREXTTEXTOUTA r)) = sint (nSize (txt_emr r))"
    and "sint (nSize (txt_emr r)) mod 4 = 0"
proof -
  define n where "n = unat (nChars text)"
  define S where "S = ((n + 3) div 4) * 4"
  define ssize where "ssize = ROUND_TO_LONG (nChars text)"
  have us: "unat ssize = S"
    using b unat_ROUND_TO_LONG [of "nChars text"] by (simp add: n_def S_def ssize_def)
  have nS: "n \<le> S" "S < 2 ^ 28 + 4" "S mod 4 = 0" using b by (simp_all add: S_def n_def)
  have ss: "sint ssize = int S" using sint_DWORD_small [of ssize] us nS by simp
  have u1: "unat (76 + ssize) = 76 + S"
    using us nS by (simp add: unat_word_ariths)
  have u2: "unat (76 + ssize + nChars text * 4) = 76 + S + 4 * n"
    using us nS b by (simp add: unat_word_ariths n_def)
  have s1: "sint (76 + ssize) = int (76 + S)"
    using sint_DWORD_small [of "76 + ssize"] u1 nS by simp
  have s2: "sint (76 + ssize + nChars text * 4) = int (76 + S + 4 * n)"
    using sint_DWORD_small [of "76 + ssize + nChars text * 4"] u2 nS b by (simp add: n_def)
  have len: "n \<le> length string"
    using c by (auto simp: new_EMREXTTEXTOUTA_def Let_def n_def split: if_splits)
  show "intact (ExtTextOutA r)"
    using c ss nS len
    by (auto simp: new_EMREXTTEXTOUTA_def Let_def n_def [symmetric] ssize_def [symmetric]
        buffer_def min_def split: if_splits option.splits)
  show "int (length (bytes_EMREXTTEXTOUTA r)) = sint (nSize (txt_emr r))"
    using c ss nS len s1 s2
    by (auto simp: new_EMREXTTEXTOUTA_def Let_def n_def [symmetric] ssize_def [symmetric]
        buffer_def min_def bytes_EMREXTTEXTOUTA_def sizeof_defs
        length_concat_enc [of "le_bytes 4" 4] split: if_splits option.splits)
  show "sint (nSize (txt_emr r)) mod 4 = 0"
    using c ss nS len s1 s2
    by (auto simp: new_EMREXTTEXTOUTA_def Let_def n_def [symmetric] ssize_def [symmetric]
        sizeof_defs split: if_splits option.splits)
qed


lemma unat_ucast_down: "unat (ucast (x :: size_t) :: DWORD) = unat x mod 2 ^ 32"
  by (simp add: unsigned_ucast_eq take_bit_eq_mod)

lemma new_ENHMETAHEADER_Some_fields:
  assumes c: "new_ENHMETAHEADER (Some d) = Inr h" and b: "112 + 2 * length d < 2 ^ 31"
  shows "nat (description_size h) \<le> length (buffer (description_w h))"
    and "int (length (bytes_ENHMETAHEADER h)) = sint (hdr_nSize h)"
    and "sint (hdr_nSize h) mod 4 = 0"
proof -
  from c obtain count where dc: "description_count d 0 0 = Some count"
    by (auto simp: new_ENHMETAHEADER_def split: option.splits)
  have cb: "count \<le> length d" using description_count_bounds [OF dc] by simp
  then have c30: "112 + 2 * count < 2 ^ 31" using b by simp
  define w :: DWORD where "w = 108 + 2 * of_nat count"
  define rs where "rs = ROUND_TO_LONG w"
  define RS where "RS = ((108 + 2 * count + 3) div 4) * 4"
  define dsize :: DWORD where "dsize = ucast (((scast rs :: size_t) - 108) div 2)"
  define DS where "DS = (RS - 108) div 2"
  have w: "(ucast (sizeof_ENHMETAHEADER + sizeof_WCHAR * of_nat count) :: DWORD) = w"
    by (simp add: sizeof_defs w_def ucast_down_add ucast_down_mult ucast_down_of_nat)
  have uc: "unat (of_nat count :: DWORD) = count" using c30 by (simp add: unat_of_nat)
  have uw: "unat w = 108 + 2 * count"
    using c30 uc by (simp add: w_def unat_word_ariths)
  have urs: "unat rs = RS"
    using unat_ROUND_TO_LONG [of w] uw c30 by (simp add: rs_def RS_def)
  have RS: "108 + 2 * count \<le> RS" "RS < 2 ^ 31" "RS mod 4 = 0" "108 + 2 * DS = RS"
    using c30 by (simp_all add: RS_def DS_def)
  have sc: "(scast rs :: size_t) = ucast rs" using urs RS by (intro scast_nonneg) simp
  have le: "(108 :: size_t) \<le> ucast rs"
    using urs RS by (simp add: word_le_nat_alt unat_ucast_up)
  have "unat ((ucast rs :: size_t) - 108) = RS - 108"
    using le urs by (simp add: unat_sub unat_ucast_up)
  then have "unat (((ucast rs :: size_t) - 108) div 2) = DS"
    by (simp add: unat_div DS_def)
  then have uds: "unat dsize = DS"
    using RS by (simp add: dsize_def sc unat_ucast_down)
  have sds: "sint dsize = int DS" using sint_DWORD_small [of dsize] uds RS by simp
  have srs: "sint rs = int RS" using sint_DWORD_small [of rs] urs RS by simp
  have cD: "count \<le> DS" using RS by simp
  have h: "h = default_ENHMETAHEADER
                    \<lparr>description_size := int DS,
                     description_w := Some (take count d @ replicate (DS - count) 0),
                     hdr_nSize := rs,
                     nBytes := rs,
                     nDescription := of_nat count,
                     offDescription := ucast sizeof_ENHMETAHEADER\<rparr>"
    using c dc cD sds
    by (simp add: new_ENHMETAHEADER_def Let_def w rs_def [symmetric]
        dsize_def [symmetric, unfolded sizeof_defs [symmetric]])
  show "nat (description_size h) \<le> length (buffer (description_w h))"
    using cb cD by (simp add: h buffer_def min_def)
  have hn: "hdr_nSize h = rs" by (simp add: h)
  have "length (take (nat (description_size h)) (buffer (description_w h))) = DS"
    using cb cD by (simp add: h buffer_def min_def)
  then have "length (bytes_description h) = 2 * DS"
    unfolding bytes_description_def by (simp only: length_concat_enc [of "le_bytes 2" 2] length_le_bytes)
  then have "length (bytes_ENHMETAHEADER h) = 108 + 2 * DS"
    by (simp add: bytes_ENHMETAHEADER_def bytes_ENHMETAHEADER_88_def)
  then show "int (length (bytes_ENHMETAHEADER h)) = sint (hdr_nSize h)"
    using RS srs hn by simp
  show "sint (hdr_nSize h) mod 4 = 0"
    using srs RS hn by simp presburger
qed


lemma constructed_intact:
  assumes "constructed r"
  shows "intact r \<and> int (length (bytes_METARECORD r)) = size' r \<and> size' r mod 4 = 0"
  using assms
proof cases
  case (header h)
  then have "h = default_ENHMETAHEADER" by (simp add: new_ENHMETAHEADER_def)
  then show ?thesis
    using header(1)
    by (simp add: default_ENHMETAHEADER_def size'_def sizeof_defs buffer_def
        bytes_ENHMETAHEADER_def bytes_ENHMETAHEADER_88_def bytes_description_def)
next
  case (header_description d h)
  then show ?thesis
    using new_ENHMETAHEADER_Some_fields [of d h] by (simp add: size'_def)
next
  case eof
  then show ?thesis
    by (simp add: new_EMREOF_def size'_def sizeof_defs bytes_EMREOF_def)
next
  case (polypolygon bounds points counts polygons p)
  note f = new_EMRPOLYPOLYGON_fields [OF polypolygon(2)]
  have u: "unat (nSize (pp_emr p)) = 32 + 4 * unat (nPolys p) + 8 * unat (cptl p)"
    using polypolygon(3) by (simp only: f(1) unat_size_8)
  then have "sint (nSize (pp_emr p)) = int (32 + 4 * unat (nPolys p) + 8 * unat (cptl p))"
    using sint_DWORD_small [of "nSize (pp_emr p)"] polypolygon(3) by simp
  then show ?thesis
    using polypolygon(1) f(2,3) length_bytes_EMRPOLYPOLYGON [OF f(2,3)]
    by (simp add: size'_def, (presburger)?)
next
  case (polypolygon16 bounds points counts polygons p)
  note f = new_EMRPOLYPOLYGON16_fields [OF polypolygon16(2)]
  have u: "unat (nSize (pp16_emr p)) = 32 + 4 * unat (nPolys16 p) + 4 * unat (cpts p)"
    using polypolygon16(3) by (simp only: f(1) unat_size_4)
  then have "sint (nSize (pp16_emr p)) = int (32 + 4 * unat (nPolys16 p) + 4 * unat (cpts p))"
    using sint_DWORD_small [of "nSize (pp16_emr p)"] polypolygon16(3) by simp
  then show ?thesis
    using polypolygon16(1) f(2,3) length_bytes_EMRPOLYPOLYGON16 [OF f(2,3)]
    by (simp add: size'_def, (presburger)?)
next
  case (polypolygon16_16 bounds points counts polygons p)
  note f = new_EMRPOLYPOLYGON16_16_fields [OF polypolygon16_16(2)]
  have u: "unat (nSize (pp16_emr p)) = 32 + 4 * unat (nPolys16 p) + 4 * unat (cpts p)"
    using polypolygon16_16(3) by (simp only: f(1) unat_size_4)
  then have "sint (nSize (pp16_emr p)) = int (32 + 4 * unat (nPolys16 p) + 4 * unat (cpts p))"
    using sint_DWORD_small [of "nSize (pp16_emr p)"] polypolygon16_16(3) by simp
  then show ?thesis
    using polypolygon16_16(1) f(2,3) length_bytes_EMRPOLYPOLYGON16 [OF f(2,3)]
    by (simp add: size'_def, (presburger)?)
next
  case (exttextouta bounds graphicsMode xScale yScale tx string dx t)
  then show ?thesis
    using new_EMREXTTEXTOUTA_fields [OF exttextouta(2,3)] by (simp add: size'_def)
qed



lemma new_EMRPOLYPOLYGON_example: "new_EMRPOLYPOLYGON \<lparr>left = 0, top' = 0, right = 4, bottom = 4\<rparr>
           [POINTL 1 2, POINTL 3 4] [2] 1 =
     Inr \<lparr>pp_emr = \<lparr>iType = 8, nSize = 52\<rparr>,
          pp_rclBounds = \<lparr>left = 0, top' = 0, right = 4, bottom = 4\<rparr>,
          nPolys = 1, cptl = 2, lcounts = Some [2], lpoints = Some [POINTL 1 2, POINTL 3 4]\<rparr>"
  by (simp add: new_EMRPOLYPOLYGON_def sizeof_defs EMR_POLYPOLYGON_def size_t_to_DWORD_8)



section \<open>Streams that end inside a record\<close>

lemma consumesI:
  assumes "\<And>s u w r x ds'. g (DATASTREAM s (FILE u w r)) = Inr (x, ds') \<Longrightarrow>
        \<exists>k \<le> length u. ds' = DATASTREAM s (FILE (drop k u) w r) \<and>
           (\<forall>v. g (DATASTREAM s (FILE (take k u @ v) w r)) = Inr (x, DATASTREAM s (FILE v w r))) \<and>
           (\<forall>n<k. g (DATASTREAM s (FILE (take n u) w r)) =
              Inl (runtime_error ''Premature EOF on EMF stream''))"
  shows "consumes g"
  using assms unfolding consumes_def by blast

lemma consumesD:
  assumes "consumes g" "g (DATASTREAM s (FILE u w r)) = Inr (x, ds')"
  obtains k where "k \<le> length u" "ds' = DATASTREAM s (FILE (drop k u) w r)"
    "\<And>v. g (DATASTREAM s (FILE (take k u @ v) w r)) = Inr (x, DATASTREAM s (FILE v w r))"
    "\<And>n. n < k \<Longrightarrow> g (DATASTREAM s (FILE (take n u) w r)) =
              Inl (runtime_error ''Premature EOF on EMF stream'')"
  using assms unfolding consumes_def by blast

lemma consumes_return: "consumes (\<lambda>ds. Inr (x, ds))"
  by (rule consumesI) (rule exI [of _ 0], simp)

lemma consumes_fail: "consumes (\<lambda>ds. Inl e)"
  by (rule consumesI) simp

lemma consumes_if: "consumes a \<Longrightarrow> consumes b \<Longrightarrow> consumes (\<lambda>ds. if c then a ds else b ds)"
  by (cases c) simp_all

lemma consumes_pure_bind:
  assumes "\<And>v. consumes (f v)"
  shows "consumes (\<lambda>ds. andThen m (\<lambda>v. f v ds))"
proof (cases m)
  case (Inl e)
  then show ?thesis by (simp add: consumes_fail)
next
  case (Inr v)
  then show ?thesis using assms [of v] by (simp add: consumes_def)
qed

lemma consumes_bind:
  assumes g: "consumes g" and f: "\<And>x. consumes (f x)"
  shows "consumes (\<lambda>ds. andThen (g ds) (\<lambda>(x, ds). f x ds))"
proof (rule consumesI)
  fix s u w r y ds'
  assume a: "andThen (g (DATASTREAM s (FILE u w r))) (\<lambda>(x, ds). f x ds) = Inr (y, ds')"
  then obtain x ds1 where g1: "g (DATASTREAM s (FILE u w r)) = Inr (x, ds1)"
    and f1: "f x ds1 = Inr (y, ds')"
    by (auto simp: andThen_eq_Inr)
  from g g1 obtain k1 where k1: "k1 \<le> length u" "ds1 = DATASTREAM s (FILE (drop k1 u) w r)"
    and gv: "\<And>v. g (DATASTREAM s (FILE (take k1 u @ v) w r)) = Inr (x, DATASTREAM s (FILE v w r))"
    and gn: "\<And>n. n < k1 \<Longrightarrow> g (DATASTREAM s (FILE (take n u) w r)) =
              Inl (runtime_error ''Premature EOF on EMF stream'')"
    by (rule consumesD) (rule that)
  from f [of x] f1 [unfolded k1(2)]
  obtain k2 where k2: "k2 \<le> length (drop k1 u)"
      "ds' = DATASTREAM s (FILE (drop k2 (drop k1 u)) w r)"
    and fv: "\<And>v. f x (DATASTREAM s (FILE (take k2 (drop k1 u) @ v) w r))
                 = Inr (y, DATASTREAM s (FILE v w r))"
    and fn: "\<And>n. n < k2 \<Longrightarrow> f x (DATASTREAM s (FILE (take n (drop k1 u)) w r)) =
              Inl (runtime_error ''Premature EOF on EMF stream'')"
    by (rule consumesD) (rule that)
  show "\<exists>k \<le> length u. ds' = DATASTREAM s (FILE (drop k u) w r) \<and>
           (\<forall>v. andThen (g (DATASTREAM s (FILE (take k u @ v) w r))) (\<lambda>(x, ds). f x ds)
                  = Inr (y, DATASTREAM s (FILE v w r))) \<and>
           (\<forall>n<k. andThen (g (DATASTREAM s (FILE (take n u) w r))) (\<lambda>(x, ds). f x ds) =
              Inl (runtime_error ''Premature EOF on EMF stream''))"
  proof (intro exI [of _ "k1 + k2"] conjI allI impI)
    show "k1 + k2 \<le> length u" using k1(1) k2(1) by simp
    show "ds' = DATASTREAM s (FILE (drop (k1 + k2) u) w r)"
      using k2(2) by (simp add: add.commute)
  next
    fix v
    have "take (k1 + k2) u @ v = take k1 u @ (take k2 (drop k1 u) @ v)"
      by (simp add: take_add)
    then show "andThen (g (DATASTREAM s (FILE (take (k1 + k2) u @ v) w r))) (\<lambda>(x, ds). f x ds)
                  = Inr (y, DATASTREAM s (FILE v w r))"
      by (simp add: gv fv)
  next
    fix n assume n: "n < k1 + k2"
    show "andThen (g (DATASTREAM s (FILE (take n u) w r))) (\<lambda>(x, ds). f x ds) =
              Inl (runtime_error ''Premature EOF on EMF stream'')"
    proof (cases "n < k1")
      case True
      then show ?thesis by (simp add: gn)
    next
      case False
      then have "take n u = take k1 u @ take (n - k1) (drop k1 u)"
        using take_add [of k1 "n - k1" u] by simp
      moreover have "n - k1 < k2" using n False by simp
      ultimately show ?thesis by (simp add: gv fn)
    qed
  qed
qed

lemma consumes_fread: "0 < sz \<Longrightarrow> consumes (fread sz n)"
proof (rule consumesI)
  fix s u w r x ds'
  assume z: "0 < sz" and a: "fread sz n (DATASTREAM s (FILE u w r)) = Inr (x, ds')"
  then have l: "sz * n \<le> length u" and x: "x = take (sz * n) u"
    and d: "ds' = DATASTREAM s (FILE (drop (sz * n) u) w r)"
    by (auto simp: fread_stream split: if_splits)
  show "\<exists>k \<le> length u. ds' = DATASTREAM s (FILE (drop k u) w r) \<and>
           (\<forall>v. fread sz n (DATASTREAM s (FILE (take k u @ v) w r)) = Inr (x, DATASTREAM s (FILE v w r))) \<and>
           (\<forall>m<k. fread sz n (DATASTREAM s (FILE (take m u) w r)) =
              Inl (runtime_error ''Premature EOF on EMF stream''))"
    using l x d z by (intro exI [of _ "sz * n"]) (simp add: fread_stream)
qed

lemma consumes_get_BYTE: "consumes get_BYTE"
  unfolding get_BYTE_def [abs_def]
  by (rule consumes_bind consumes_fread consumes_return | simp)+

lemma consumes_get_WORD: "consumes get_WORD"
proof (rule consumesI)
  fix s u w r x ds'
  assume a: "get_WORD (DATASTREAM s (FILE u w r)) = Inr (x, ds')"
  then have l: "2 \<le> length u" and x: "x = le_word (take 2 u)"
    and d: "ds' = DATASTREAM s (FILE (drop 2 u) w r)"
    by (auto simp: get_WORD_stream split: if_splits)
  show "\<exists>k \<le> length u. ds' = DATASTREAM s (FILE (drop k u) w r) \<and>
           (\<forall>v. get_WORD (DATASTREAM s (FILE (take k u @ v) w r)) = Inr (x, DATASTREAM s (FILE v w r))) \<and>
           (\<forall>m<k. get_WORD (DATASTREAM s (FILE (take m u) w r)) =
              Inl (runtime_error ''Premature EOF on EMF stream''))"
    using l x d by (intro exI [of _ 2]) (simp add: get_WORD_stream)
qed

lemma consumes_get_DWORD: "consumes get_DWORD"
proof (rule consumesI)
  fix s u w r x ds'
  assume a: "get_DWORD (DATASTREAM s (FILE u w r)) = Inr (x, ds')"
  then have l: "4 \<le> length u" and x: "x = le_word (take 4 u)"
    and d: "ds' = DATASTREAM s (FILE (drop 4 u) w r)"
    by (auto simp: get_DWORD_stream split: if_splits)
  show "\<exists>k \<le> length u. ds' = DATASTREAM s (FILE (drop k u) w r) \<and>
           (\<forall>v. get_DWORD (DATASTREAM s (FILE (take k u @ v) w r)) = Inr (x, DATASTREAM s (FILE v w r))) \<and>
           (\<forall>m<k. get_DWORD (DATASTREAM s (FILE (take m u) w r)) =
              Inl (runtime_error ''Premature EOF on EMF stream''))"
    using l x d by (intro exI [of _ 4]) (simp add: get_DWORD_stream)
qed

lemma consumes_get_array: "consumes get \<Longrightarrow> consumes (get_array get n)"
proof (induction n)
  case 0
  show ?case using consumes_return [of "[]"] by (simp add: get_array.simps [abs_def])
next
  case (Suc n)
  have e: "get_array get (Suc n) =
     (\<lambda>ds. andThen (get ds) (\<lambda>(v, ds).
            andThen (get_array get n ds) (\<lambda>(vs, ds). Inr (v # vs, ds))))"
    by (rule ext) simp
  have ih: "consumes (get_array get n)" using Suc by simp
  show ?case
    unfolding e by (rule consumes_bind consumes_return Suc.prems ih)+
qed

lemmas consumes_intros = consumes_bind consumes_pure_bind consumes_if consumes_return
  consumes_fail consumes_get_BYTE consumes_get_WORD consumes_get_DWORD consumes_get_array

lemma consumes_structs:
  "consumes get_RECTL" "consumes get_SIZEL" "consumes get_EMR" "consumes get_POINTL"
  "consumes get_POINT16" "consumes get_EMRTEXT"
  unfolding get_RECTL_def [abs_def] get_SIZEL_def [abs_def] get_EMR_def [abs_def]
    get_POINTL_def [abs_def] get_POINT16_def [abs_def] get_EMRTEXT_def [abs_def]
  by (rule consumes_intros)+


lemma consumes_arrays:
  "consumes (get_WCHARSTR i)" "consumes (get_DWORDARRAY k)" "consumes (get_INTARRAY k)"
  "consumes (get_POINTLARRAY k)" "consumes (get_POINT16ARRAY k)" "consumes (get_CHARSTR n)"
  unfolding get_WCHARSTR_def [abs_def] get_DWORDARRAY_def [abs_def] get_INTARRAY_def [abs_def]
    get_POINTLARRAY_def [abs_def] get_POINT16ARRAY_def [abs_def] get_CHARSTR_def [abs_def]
  by (rule consumes_intros consumes_structs consumes_fread | simp)+

lemma consumes_read_EMREOF: "consumes read_EMREOF"
  unfolding read_EMREOF_def [abs_def]
  by (rule consumes_intros consumes_structs)+

lemma consumes_read_EMRPOLYPOLYGON: "consumes read_EMRPOLYPOLYGON"
  unfolding read_EMRPOLYPOLYGON_def [abs_def]
  by (rule consumes_intros consumes_structs consumes_arrays)+

lemma consumes_read_EMRPOLYPOLYGON16: "consumes read_EMRPOLYPOLYGON16"
  unfolding read_EMRPOLYPOLYGON16_def [abs_def]
  by (rule consumes_intros consumes_structs consumes_arrays)+

lemma consumes_unserialize_description: "consumes (unserialize_description h)"
  unfolding unserialize_description_def [abs_def] Let_def
  by (rule consumes_intros consumes_structs consumes_arrays)+

lemma consumes_unserialize_ENHMETAHEADER: "consumes (unserialize_ENHMETAHEADER h)"
  unfolding unserialize_ENHMETAHEADER_def [abs_def] Let_def
  by (rule consumes_intros consumes_structs consumes_arrays consumes_unserialize_description)+


lemma consumes_bind3:
  assumes g: "consumes (\<lambda>ds. andThen (g ds) (\<lambda>(a, b, ds). Inr ((a, b), ds)))"
    and f: "\<And>a b. consumes (f a b)"
  shows "consumes (\<lambda>ds. andThen (g ds) (\<lambda>(a, b, ds). f a b ds))"
proof -
  have e: "(\<lambda>ds. andThen (g ds) (\<lambda>(a, b, ds). f a b ds)) =
        (\<lambda>ds. andThen (andThen (g ds) (\<lambda>(a, b, ds). Inr ((a, b), ds)))
                 (\<lambda>(x, ds). (case x of (a, b) \<Rightarrow> f a b) ds))"
    by (rule ext) (auto simp: andThen_def split: sum.splits)
  have "\<And>x. consumes (case x of (a, b) \<Rightarrow> f a b)"
    using f by (auto split: prod.splits)
  then show ?thesis unfolding e using g by (intro consumes_bind)
qed

lemma consumes_string:
  "consumes (\<lambda>ds. andThen
      (if c then let ssize :: INT32 = z in
                 if sint ssize < 0 then Inl bad_alloc
                 else andThen (get_CHARSTR (nat (sint ssize)) ds) (\<lambda>(cbuffer, ds).
                      Inr (Some cbuffer, Some (sint ssize), ds))
       else Inr (None, None, ds))
      (\<lambda>(a, b, ds). Inr ((a, b), ds)))"
proof -
  have e: "(\<lambda>ds. andThen
      (if c then let ssize :: INT32 = z in
                 if sint ssize < 0 then Inl bad_alloc
                 else andThen (get_CHARSTR (nat (sint ssize)) ds) (\<lambda>(cbuffer, ds).
                      Inr (Some cbuffer, Some (sint ssize), ds))
       else Inr (None, None, ds))
      (\<lambda>(a, b, ds). Inr ((a, b), ds))) =
     (\<lambda>ds. if c then (if sint z < 0 then Inl bad_alloc
                 else andThen (get_CHARSTR (nat (sint z)) ds) (\<lambda>(cbuffer, ds).
                      Inr ((Some cbuffer, Some (sint z)), ds)))
            else Inr ((None, None), ds))"
    by (rule ext) (auto simp: andThen_def Let_def split: sum.splits)
  show ?thesis unfolding e by (rule consumes_intros consumes_arrays)+
qed


lemma consumes_truncated:
  assumes "consumes g" "g ds = Inr (x, ds')"
    "n < length (unread (fp' ds)) - length (unread (fp' ds'))"
  shows "g (truncated n ds) = Inl (runtime_error ''Premature EOF on EMF stream'')"
proof (cases ds rule: DATASTREAM_cases)
  case (1 s u w r)
  from assms(1) assms(2) [unfolded 1]
  obtain k where k: "k \<le> length u" "ds' = DATASTREAM s (FILE (drop k u) w r)"
    and t: "\<And>n. n < k \<Longrightarrow> g (DATASTREAM s (FILE (take n u) w r)) =
              Inl (runtime_error ''Premature EOF on EMF stream'')"
    by (rule consumesD) (rule that)
  have "n < k" using assms(3) k by (simp add: 1)
  then show ?thesis using t by (simp add: truncated_def 1)
qed

lemma consumes_read_EMREXTTEXTOUTA: "consumes read_EMREXTTEXTOUTA"
  unfolding read_EMREXTTEXTOUTA_def [abs_def]
  by (rule consumes_string consumes_intros consumes_structs consumes_arrays consumes_bind3)+


lemma serialize_intact_short:
  "intact r \<Longrightarrow> room (fp' ds) < length (bytes_METARECORD r) \<Longrightarrow>
   serialize r ds = Inl (runtime_error ''error writing EMF stream'')"
  using emits_short [OF emits_serialize] by blast

lemma read_EMREOF_short:
  "length (unread (fp' ds)) < 20 \<Longrightarrow>
   read_EMREOF ds = Inl (runtime_error ''Premature EOF on EMF stream'')"
  by (cases ds rule: DATASTREAM_cases)
     (auto simp add: read_EMREOF_def get_EMR_def get_DWORD_stream)

text \<open>
  C9. A primitive or array transfer that finds fewer bytes (or less room) than
  it asks for throws: every input operator returns the error
  \<open>Premature EOF on EMF stream\<close>, every output operator the error
  \<open>error writing EMF stream\<close>, and both are stream errors. The result of
  the failed transfer is the result of the whole operation: an error passes
  through every operation sequenced behind it (\<open>andThen\<close> never runs its
  second argument on one, so nothing is retried). No record comes out of a
  stream that ends inside it: a stream constructor that returns a record from
  a stream throws the read error on the same stream cut anywhere before the
  last byte it has read, and \<open>serialize\<close> throws the write error wherever
  the device has room for less than the whole record.
\<close>

theorem short_transfer_is_fatal:
  "(length (unread (fp' ds)) < 1 \<longrightarrow>
      get_BYTE ds = Inl (runtime_error ''Premature EOF on EMF stream'')) \<and>
   (length (unread (fp' ds)) < 2 \<longrightarrow>
      get_WORD ds = Inl (runtime_error ''Premature EOF on EMF stream'')) \<and>
   (length (unread (fp' ds)) < 4 \<longrightarrow>
      get_DWORD ds = Inl (runtime_error ''Premature EOF on EMF stream'')) \<and>
   (length (unread (fp' ds)) < n \<longrightarrow>
      get_CHARSTR n ds = Inl (runtime_error ''Premature EOF on EMF stream'')) \<and>
   (length (unread (fp' ds)) < 2 * nat i \<longrightarrow>
      get_WCHARSTR i ds = Inl (runtime_error ''Premature EOF on EMF stream'')) \<and>
   (length (unread (fp' ds)) < 4 * unat k \<longrightarrow>
      get_DWORDARRAY k ds = Inl (runtime_error ''Premature EOF on EMF stream'') \<and>
      get_INTARRAY k ds = Inl (runtime_error ''Premature EOF on EMF stream'') \<and>
      get_POINT16ARRAY k ds = Inl (runtime_error ''Premature EOF on EMF stream'')) \<and>
   (length (unread (fp' ds)) < 8 * unat k \<longrightarrow>
      get_POINTLARRAY k ds = Inl (runtime_error ''Premature EOF on EMF stream'')) \<and>
   (room (fp' ds) < 1 \<longrightarrow> put_BYTE b ds = Inl (runtime_error ''error writing EMF stream'')) \<and>
   (room (fp' ds) < 2 \<longrightarrow> put_WORD v ds = Inl (runtime_error ''error writing EMF stream'')) \<and>
   (room (fp' ds) < 4 \<longrightarrow> put_DWORD d ds = Inl (runtime_error ''error writing EMF stream'')) \<and>
   (n \<le> length (buffer cs) \<and> room (fp' ds) < n \<longrightarrow>
      put_CHARSTR cs n ds = Inl (runtime_error ''error writing EMF stream'')) \<and>
   (nat i \<le> length (buffer ws) \<and> room (fp' ds) < 2 * nat i \<longrightarrow>
      put_WCHARSTR ws i ds = Inl (runtime_error ''error writing EMF stream'')) \<and>
   (unat k \<le> length (buffer ds32) \<and> room (fp' ds) < 4 * unat k \<longrightarrow>
      put_DWORDARRAY ds32 k ds = Inl (runtime_error ''error writing EMF stream'') \<and>
      put_INTARRAY ds32 k ds = Inl (runtime_error ''error writing EMF stream'')) \<and>
   (unat k \<le> length (buffer p16) \<and> room (fp' ds) < 4 * unat k \<longrightarrow>
      put_POINT16ARRAY p16 k ds = Inl (runtime_error ''error writing EMF stream'')) \<and>
   (unat k \<le> length (buffer p32) \<and> room (fp' ds) < 8 * unat k \<longrightarrow>
      put_POINTLARRAY p32 k ds = Inl (runtime_error ''error writing EMF stream'')) \<and>
   StreamError (runtime_error ''Premature EOF on EMF stream'') \<and>
   StreamError (runtime_error ''error writing EMF stream'') \<and>
   andThen (Inl e) f = Inl e \<and>
   (length (unread (fp' ds)) < 8 \<longrightarrow>
      unserialize_ENHMETAHEADER h ds = Inl (runtime_error ''Premature EOF on EMF stream'') \<and>
      read_EMREOF ds = Inl (runtime_error ''Premature EOF on EMF stream'') \<and>
      read_EMRPOLYPOLYGON ds = Inl (runtime_error ''Premature EOF on EMF stream'') \<and>
      read_EMRPOLYPOLYGON16 ds = Inl (runtime_error ''Premature EOF on EMF stream'') \<and>
      read_EMREXTTEXTOUTA ds = Inl (runtime_error ''Premature EOF on EMF stream'')) \<and>
   (room (fp' ds) < 8 \<longrightarrow> serialize r ds = Inl (runtime_error ''error writing EMF stream'')) \<and>
   (length (unread (fp' ds)) < 20 \<longrightarrow>
      read_EMREOF ds = Inl (runtime_error ''Premature EOF on EMF stream'')) \<and>
   (unserialize_ENHMETAHEADER h ds = Inr (h', ds') \<and>
    m < length (unread (fp' ds)) - length (unread (fp' ds')) \<longrightarrow>
      unserialize_ENHMETAHEADER h (truncated m ds)
        = Inl (runtime_error ''Premature EOF on EMF stream'')) \<and>
   (read_EMREOF ds = Inr (r1, ds') \<and>
    m < length (unread (fp' ds)) - length (unread (fp' ds')) \<longrightarrow>
      read_EMREOF (truncated m ds) = Inl (runtime_error ''Premature EOF on EMF stream'')) \<and>
   (read_EMRPOLYPOLYGON ds = Inr (r2, ds') \<and>
    m < length (unread (fp' ds)) - length (unread (fp' ds')) \<longrightarrow>
      read_EMRPOLYPOLYGON (truncated m ds) = Inl (runtime_error ''Premature EOF on EMF stream'')) \<and>
   (read_EMRPOLYPOLYGON16 ds = Inr (r3, ds') \<and>
    m < length (unread (fp' ds)) - length (unread (fp' ds')) \<longrightarrow>
      read_EMRPOLYPOLYGON16 (truncated m ds) = Inl (runtime_error ''Premature EOF on EMF stream'')) \<and>
   (read_EMREXTTEXTOUTA ds = Inr (r4, ds') \<and>
    m < length (unread (fp' ds)) - length (unread (fp' ds')) \<longrightarrow>
      read_EMREXTTEXTOUTA (truncated m ds) = Inl (runtime_error ''Premature EOF on EMF stream'')) \<and>
   (intact r \<and> room (fp' ds) < length (bytes_METARECORD r) \<longrightarrow>
      serialize r ds = Inl (runtime_error ''error writing EMF stream''))"
  using get_BYTE_short [of ds] get_WORD_short [of ds] get_DWORD_short [of ds]
    get_CHARSTR_short [of ds n] get_WORD_array_short [of ds "nat i"]
    get_DWORD_array_short [of ds "unat k"] get_POINT16_array_short [of ds "unat k"]
    get_POINTL_array_short [of ds "unat k"]
    put_BYTE_short [of ds b] put_WORD_short [of ds v] put_DWORD_short [of ds d]
    put_CHARSTR_short [of n cs ds]
    put_array_short [of put_WORD "le_bytes 2" 2 "nat i" "buffer ws" ds, OF emits_put_WORD]
    put_array_short [of put_DWORD "le_bytes 4" 4 "unat k" "buffer ds32" ds, OF emits_put_DWORD]
    put_array_short [of put_POINT16 bytes_POINT16 4 "unat k" "buffer p16" ds, OF emits_put_POINT16]
    put_array_short [of put_POINTL bytes_POINTL 8 "unat k" "buffer p32" ds, OF emits_put_POINTL]
    unserialize_short [of ds h] readers_short [of ds] serialize_short [of ds r]
    read_EMREOF_short [of ds]
    consumes_truncated [OF consumes_unserialize_ENHMETAHEADER, of h ds h' ds' m]
    consumes_truncated [OF consumes_read_EMREOF, of ds r1 ds' m]
    consumes_truncated [OF consumes_read_EMRPOLYPOLYGON, of ds r2 ds' m]
    consumes_truncated [OF consumes_read_EMRPOLYPOLYGON16, of ds r3 ds' m]
    consumes_truncated [OF consumes_read_EMREXTTEXTOUTA, of ds r4 ds' m]
    serialize_intact_short [of r ds]
  by (simp add: StreamError_def get_WCHARSTR_def get_DWORDARRAY_def get_INTARRAY_def
      get_POINT16ARRAY_def get_POINTLARRAY_def put_WCHARSTR_def put_DWORDARRAY_def
      put_INTARRAY_def put_POINT16ARRAY_def put_POINTLARRAY_def)


lemma read_EMREOF_example:
  "read_EMREOF (DATASTREAM False
      (FILE ([14, 0, 0, 0] @ [20, 0, 0, 0] @ [0, 0, 0, 0] @ [0, 0, 0, 0] @ [20, 0, 0, 0]) [] 0)) =
   Inr (\<lparr>eof_emr = \<lparr>iType = 14, nSize = 20\<rparr>, eof_nPalEntries = 0, offPalEntries = 0,
          nSizeLast = 20\<rparr>, DATASTREAM False (FILE [] [] 0))"
  by (simp add: read_EMREOF_def read_eval cong: andThen_weak_cong)

text \<open>
  The theorem on streams that end early: an empty one, integers cut short on
  either kind of host, an array of two points with 15 bytes to read or to
  write into, and an end-of-file record, 20 bytes long, with 7 and with 11
  bytes to read and with room for 7 and for 19 bytes to write.
\<close>

theorem short_transfer_is_fatal_witness:
  "length (unread (fp' (DATASTREAM False (FILE [] [] 0)))) < 1 \<and>
   get_BYTE (DATASTREAM False (FILE [] [] 0)) = Inl (runtime_error ''Premature EOF on EMF stream'') \<and>
   get_WORD (DATASTREAM False (FILE [7] [] 0)) = Inl (runtime_error ''Premature EOF on EMF stream'') \<and>
   get_DWORD (DATASTREAM True (FILE [1, 2, 3] [] 0)) = Inl (runtime_error ''Premature EOF on EMF stream'') \<and>
   get_POINTLARRAY 2 (DATASTREAM False (FILE (replicate 15 0) [] 0))
     = Inl (runtime_error ''Premature EOF on EMF stream'') \<and>
   room (fp' (DATASTREAM False (FILE [] [] 3))) < 4 \<and>
   put_DWORD 5 (DATASTREAM False (FILE [] [] 3)) = Inl (runtime_error ''error writing EMF stream'') \<and>
   unat (2 :: DWORD) \<le> length (buffer (Some [POINTL 1 2, POINTL 3 4])) \<and>
   put_POINTLARRAY (Some [POINTL 1 2, POINTL 3 4]) 2 (DATASTREAM False (FILE [] [] 15))
     = Inl (runtime_error ''error writing EMF stream'') \<and>
   read_EMREOF (DATASTREAM False (FILE [14, 0, 0, 0, 20, 0, 0] [] 0))
     = Inl (runtime_error ''Premature EOF on EMF stream'') \<and>
   serialize (Eof new_EMREOF) (DATASTREAM False (FILE [] [] 7))
     = Inl (runtime_error ''error writing EMF stream'') \<and>
   read_EMREOF (DATASTREAM False
      (FILE ([14, 0, 0, 0] @ [20, 0, 0, 0] @ [0, 0, 0, 0] @ [0, 0, 0, 0] @ [20, 0, 0, 0]) [] 0)) =
     Inr (\<lparr>eof_emr = \<lparr>iType = 14, nSize = 20\<rparr>, eof_nPalEntries = 0, offPalEntries = 0,
            nSizeLast = 20\<rparr>, DATASTREAM False (FILE [] [] 0)) \<and>
   truncated 11 (DATASTREAM False
      (FILE ([14, 0, 0, 0] @ [20, 0, 0, 0] @ [0, 0, 0, 0] @ [0, 0, 0, 0] @ [20, 0, 0, 0]) [] 0)) =
     DATASTREAM False (FILE [14, 0, 0, 0, 20, 0, 0, 0, 0, 0, 0] [] 0) \<and>
   read_EMREOF (DATASTREAM False (FILE [14, 0, 0, 0, 20, 0, 0, 0, 0, 0, 0] [] 0))
     = Inl (runtime_error ''Premature EOF on EMF stream'') \<and>
   intact (Eof new_EMREOF) \<and>
   length (bytes_METARECORD (Eof new_EMREOF)) = 20 \<and>
   serialize (Eof new_EMREOF) (DATASTREAM False (FILE [] [] 19))
     = Inl (runtime_error ''error writing EMF stream'')"
proof -
  have t: "truncated 11 (DATASTREAM False
      (FILE ([14, 0, 0, 0] @ [20, 0, 0, 0] @ [0, 0, 0, 0] @ [0, 0, 0, 0] @ [20, 0, 0, 0]) [] 0)) =
     DATASTREAM False (FILE [14, 0, 0, 0, 20, 0, 0, 0, 0, 0, 0] [] 0)"
    by (simp add: truncated_def)
  have l: "length (bytes_METARECORD (Eof new_EMREOF)) = 20"
    by (simp add: bytes_EMREOF_def)
  show ?thesis
    using short_transfer_is_fatal [where ds = "DATASTREAM False (FILE [] [] 0)"]
    short_transfer_is_fatal [where ds = "DATASTREAM False (FILE [7] [] 0)"]
    short_transfer_is_fatal [where ds = "DATASTREAM True (FILE [1, 2, 3] [] 0)"]
    short_transfer_is_fatal [where ds = "DATASTREAM False (FILE (replicate 15 0) [] 0)" and k = 2]
    short_transfer_is_fatal [where ds = "DATASTREAM False (FILE [] [] 3)" and d = 5]
    short_transfer_is_fatal [where ds = "DATASTREAM False (FILE [] [] 15)" and k = 2
      and ?p32.0 = "Some [POINTL 1 2, POINTL 3 4]"]
    short_transfer_is_fatal [where ds = "DATASTREAM False (FILE [14, 0, 0, 0, 20, 0, 0] [] 0)"]
    short_transfer_is_fatal [where ds = "DATASTREAM False (FILE [] [] 7)" and r = "Eof new_EMREOF"]
    short_transfer_is_fatal [where ds = "DATASTREAM False
      (FILE ([14, 0, 0, 0] @ [20, 0, 0, 0] @ [0, 0, 0, 0] @ [0, 0, 0, 0] @ [20, 0, 0, 0]) [] 0)"
      and ds' = "DATASTREAM False (FILE [] [] 0)" and m = 11
      and ?r1.0 = "\<lparr>eof_emr = \<lparr>iType = 14, nSize = 20\<rparr>, eof_nPalEntries = 0,
                       offPalEntries = 0, nSizeLast = 20\<rparr>"]
    short_transfer_is_fatal [where ds = "DATASTREAM False (FILE [] [] 19)" and r = "Eof new_EMREOF"]
    read_EMREOF_example t l
    by (simp add: buffer_def)
qed

end
